(* ===== verification/Prelude.thy ===== *)
theory Prelude
  imports Main "HOL-Library.Word"
begin

text \<open>
  Shared vocabulary of the development: results (\<open>error + value\<close>), effects that pass a
  world through, and machine integers.

  A Rust \<open>Result<T, E>\<close> is \<open>'e + 'a\<close> with \<open>Inl\<close> for \<open>Err\<close>; the operator \<open>?\<close> is
  \<open>rbind\<close>; \<open>collect::<Result<Vec<_>, _>>()\<close> is \<open>traverse\<close>.

  An effectful call is \<open>'w \<Rightarrow> (('e + 'a) \<times> 'w) option\<close>: \<open>Some (r, w')\<close> when the call returns
  \<open>r\<close> in world \<open>w'\<close>, and \<open>None\<close> when it has no defined result, that is when a loop does not
  end, the code panics, or it has undefined behaviour.
\<close>

named_theorems io_simps \<open>unfolding the effect combinators\<close>
named_theorems keeps_intros \<open>rules for invariants of effectful calls\<close>
named_theorems total_intros \<open>rules for calls that return\<close>
named_theorems text_simps \<open>rewriting on program text and strings\<close>

type_synonym u8 = "8 word"
type_synonym u16 = "16 word"
type_synonym u32 = "32 word"
type_synonym i32 = "32 word"
type_synonym u64 = "64 word"
type_synonym i64 = "64 word"
type_synonym f64 = "64 word"

text \<open>
  \<open>i64\<close> and \<open>u64\<close> share the 64-bit patterns; \<open>sint\<close> reads the first and \<open>uint\<close> the second,
  so a Rust cast \<open>v as i64\<close> from \<open>u64\<close> or \<open>usize\<close> is the identity on the pattern. An
  \<open>f64\<close> is its IEEE 754 bit pattern; it is finite unless all eleven exponent bits are set.
\<close>

definition is_finite :: "f64 \<Rightarrow> bool" where
  "is_finite x \<longleftrightarrow> take_bit 11 (drop_bit 52 x) \<noteq> 2047"

definition c_int_max :: int where
  "c_int_max = 2147483647"

lemma sint_64: "sint (v :: 64 word) = (if uint v < 2 ^ 63 then uint v else uint v - 2 ^ 64)"
proof -
  have b: "0 \<le> uint v" "uint v < 2 ^ 64" using uint_lt2p [of v] by simp_all
  have "sint v = (uint v + 2 ^ 63) mod 2 ^ 64 - 2 ^ 63"
    by (simp add: sint_uint signed_take_bit_eq_take_bit_shift take_bit_eq_mod)
  moreover have "(uint v + 2 ^ 63) mod 2 ^ 64 =
      (if uint v < 2 ^ 63 then uint v + 2 ^ 63 else uint v - 2 ^ 63)"
  proof (cases "uint v < 2 ^ 63")
    case True
    with b show ?thesis by (simp add: mod_pos_pos_trivial)
  next
    case False
    have "(uint v + 2 ^ 63) mod 2 ^ 64 = ((uint v - 2 ^ 63) + 2 ^ 64) mod 2 ^ 64"
      by (rule arg_cong [where f = "\<lambda>x. x mod 2 ^ 64"]) simp
    also have "\<dots> = (uint v - 2 ^ 63) mod 2 ^ 64" by (rule mod_add_self2)
    also have "\<dots> = uint v - 2 ^ 63" using False b by (intro mod_pos_pos_trivial) simp_all
    finally show ?thesis using False by simp
  qed
  ultimately show ?thesis by simp
qed

lemma sint_64_nonneg: "0 \<le> sint (v :: 64 word) \<longleftrightarrow> uint v < 2 ^ 63"
  using uint_lt2p [of v] by (simp add: sint_64)

lemma find_Some_split:
  "find P xs = Some x \<longleftrightarrow> (\<exists>us vs. xs = us @ x # vs \<and> P x \<and> (\<forall>u \<in> set us. \<not> P u))"
proof (induction xs)
  case Nil
  then show ?case by simp
next
  case (Cons y ys)
  show ?case
  proof (cases "P y")
    case True
    have "(\<exists>us vs. y # ys = us @ x # vs \<and> P x \<and> (\<forall>u \<in> set us. \<not> P u)) \<longleftrightarrow> y = x"
    proof
      assume "\<exists>us vs. y # ys = us @ x # vs \<and> P x \<and> (\<forall>u \<in> set us. \<not> P u)"
      then obtain us vs where "y # ys = us @ x # vs" "\<forall>u \<in> set us. \<not> P u" by blast
      with True show "y = x" by (cases us) auto
    next
      assume "y = x"
      with True have "y # ys = [] @ x # ys \<and> P x \<and> (\<forall>u \<in> set []. \<not> P u)" by simp
      then show "\<exists>us vs. y # ys = us @ x # vs \<and> P x \<and> (\<forall>u \<in> set us. \<not> P u)" by blast
    qed
    with True show ?thesis by simp
  next
    case False
    have "(\<exists>us vs. y # ys = us @ x # vs \<and> P x \<and> (\<forall>u \<in> set us. \<not> P u)) \<longleftrightarrow>
        (\<exists>us vs. ys = us @ x # vs \<and> P x \<and> (\<forall>u \<in> set us. \<not> P u))"
      using False by (auto simp: Cons_eq_append_conv) (metis append_Cons set_ConsD)
    with False Cons.IH show ?thesis by simp
  qed
qed

section \<open>Results\<close>

definition rbind :: "'e + 'a \<Rightarrow> ('a \<Rightarrow> 'e + 'b) \<Rightarrow> 'e + 'b" where
  "rbind r f = (case r of Inl e \<Rightarrow> Inl e | Inr x \<Rightarrow> f x)"

definition rmap :: "('a \<Rightarrow> 'b) \<Rightarrow> 'e + 'a \<Rightarrow> 'e + 'b" where
  "rmap f r = (case r of Inl e \<Rightarrow> Inl e | Inr x \<Rightarrow> Inr (f x))"

definition ok_or :: "'e \<Rightarrow> 'a option \<Rightarrow> 'e + 'a" where
  "ok_or e x = (case x of None \<Rightarrow> Inl e | Some v \<Rightarrow> Inr v)"

fun traverse :: "('a \<Rightarrow> 'e + 'b) \<Rightarrow> 'a list \<Rightarrow> 'e + 'b list" where
  "traverse f [] = Inr []"
| "traverse f (x # xs) =
     (case f x of
        Inl e \<Rightarrow> Inl e
      | Inr y \<Rightarrow> (case traverse f xs of Inl e \<Rightarrow> Inl e | Inr ys \<Rightarrow> Inr (y # ys)))"

lemma rbind_simps [simp]:
  "rbind (Inl e) f = Inl e"
  "rbind (Inr x) f = f x"
  by (simp_all add: rbind_def)

lemma rmap_simps [simp]:
  "rmap f (Inl e) = Inl e"
  "rmap f (Inr x) = Inr (f x)"
  by (simp_all add: rmap_def)

lemma ok_or_simps [simp]:
  "ok_or e None = Inl e"
  "ok_or e (Some x) = Inr x"
  by (simp_all add: ok_or_def)

lemma rbind_Inr_iff: "rbind r f = Inr y \<longleftrightarrow> (\<exists>x. r = Inr x \<and> f x = Inr y)"
  by (cases r) auto

lemma rbind_Inl_iff: "rbind r f = Inl e \<longleftrightarrow> r = Inl e \<or> (\<exists>x. r = Inr x \<and> f x = Inl e)"
  by (cases r) auto

lemma rmap_Inr_iff: "rmap f r = Inr y \<longleftrightarrow> (\<exists>x. r = Inr x \<and> y = f x)"
  by (cases r) auto

lemma rmap_Inl_iff: "rmap f r = Inl e \<longleftrightarrow> r = Inl e"
  by (cases r) auto

lemma ok_or_Inr_iff: "ok_or e x = Inr y \<longleftrightarrow> x = Some y"
  by (cases x) auto

lemma ok_or_Inl_iff: "ok_or e x = Inl e' \<longleftrightarrow> x = None \<and> e' = e"
  by (cases x) auto

lemmas result_iffs = rbind_Inr_iff rbind_Inl_iff rmap_Inr_iff rmap_Inl_iff ok_or_Inr_iff ok_or_Inl_iff

lemma traverse_Inr_iff: "traverse f xs = Inr ys \<longleftrightarrow> list_all2 (\<lambda>x y. f x = Inr y) xs ys"
proof (induction xs arbitrary: ys)
  case Nil
  then show ?case by auto
next
  case (Cons x xs)
  then show ?case
    by (cases ys; cases "traverse f xs") (auto simp: list_all2_Cons1 split: sum.splits)
qed

lemma traverse_length: "traverse f xs = Inr ys \<Longrightarrow> length ys = length xs"
  by (auto simp: traverse_Inr_iff dest: list_all2_lengthD)

lemma traverse_all_Inr: "(\<And>x. x \<in> set xs \<Longrightarrow> f x = Inr (g x)) \<Longrightarrow> traverse f xs = Inr (map g xs)"
  by (induction xs) auto

text \<open>The error of a failed traversal is the one of the first failing element.\<close>

lemma traverse_Inl:
  "traverse f xs = Inl e \<Longrightarrow>
     \<exists>us x vs. xs = us @ x # vs \<and> (\<forall>u \<in> set us. \<exists>y. f u = Inr y) \<and> f x = Inl e"
proof (induction xs)
  case Nil
  then show ?case by simp
next
  case (Cons a xs)
  show ?case
  proof (cases "f a")
    case (Inl e')
    with Cons.prems have "a # xs = [] @ a # xs \<and> (\<forall>u \<in> set []. \<exists>y. f u = Inr y) \<and> f a = Inl e"
      by simp
    then show ?thesis by blast
  next
    case (Inr y)
    with Cons.prems have "traverse f xs = Inl e" by (auto split: sum.splits)
    with Cons.IH obtain us x vs
      where "xs = us @ x # vs" "\<forall>u \<in> set us. \<exists>y. f u = Inr y" "f x = Inl e" by blast
    with Inr have "a # xs = (a # us) @ x # vs \<and> (\<forall>u \<in> set (a # us). \<exists>y. f u = Inr y) \<and> f x = Inl e"
      by simp
    then show ?thesis by blast
  qed
qed

lemma traverse_cong [fundef_cong]:
  "xs = ys \<Longrightarrow> (\<And>x. x \<in> set ys \<Longrightarrow> f x = g x) \<Longrightarrow> traverse f xs = traverse g ys"
  by (induction ys arbitrary: xs) (simp_all split: sum.splits)

section \<open>Effects\<close>

type_synonym ('w, 'e, 'a) io = "'w \<Rightarrow> (('e + 'a) \<times> 'w) option"

definition io_return :: "'a \<Rightarrow> ('w, 'e, 'a) io" where
  "io_return x = (\<lambda>w. Some (Inr x, w))"

definition io_fail :: "'e \<Rightarrow> ('w, 'e, 'a) io" where
  "io_fail e = (\<lambda>w. Some (Inl e, w))"

text \<open>The operator \<open>?\<close> on a pure result inside an effectful function.\<close>

definition io_lift :: "'e + 'a \<Rightarrow> ('w, 'e, 'a) io" where
  "io_lift r = (\<lambda>w. Some (r, w))"

text \<open>Sequencing with \<open>?\<close>: an error leaves the enclosing function.\<close>

definition io_bind :: "('w, 'e, 'a) io \<Rightarrow> ('a \<Rightarrow> ('w, 'e, 'b) io) \<Rightarrow> ('w, 'e, 'b) io" where
  "io_bind m f = (\<lambda>w. case m w of
     None \<Rightarrow> None
   | Some (Inl e, w1) \<Rightarrow> Some (Inl e, w1)
   | Some (Inr x, w1) \<Rightarrow> f x w1)"

text \<open>A call whose \<open>Result\<close> is inspected, stored or dropped instead of propagated.\<close>

definition io_result :: "('w, 'e, 'a) io \<Rightarrow> ('w, 'd, 'e + 'a) io" where
  "io_result m = (\<lambda>w. case m w of None \<Rightarrow> None | Some (r, w1) \<Rightarrow> Some (Inr r, w1))"

text \<open>\<open>map_err\<close> on the result of a call.\<close>

definition io_map_err :: "('e \<Rightarrow> 'd) \<Rightarrow> ('w, 'e, 'a) io \<Rightarrow> ('w, 'd, 'a) io" where
  "io_map_err g m = (\<lambda>w. case m w of
     None \<Rightarrow> None
   | Some (Inl e, w1) \<Rightarrow> Some (Inl (g e), w1)
   | Some (Inr x, w1) \<Rightarrow> Some (Inr x, w1))"

definition io_guard :: "bool \<Rightarrow> 'e \<Rightarrow> ('w, 'e, unit) io" where
  "io_guard b e = (\<lambda>w. Some (if b then Inr () else Inl e, w))"

fun io_traverse :: "('a \<Rightarrow> ('w, 'e, 'b) io) \<Rightarrow> 'a list \<Rightarrow> ('w, 'e, 'b list) io" where
  "io_traverse f [] = io_return []"
| "io_traverse f (x # xs) = io_bind (f x) (\<lambda>y. io_bind (io_traverse f xs) (\<lambda>ys. io_return (y # ys)))"

lemma io_apply [io_simps]:
  "io_return x w = Some (Inr x, w)"
  "io_fail e w = Some (Inl e, w)"
  "io_lift r w = Some (r, w)"
  "io_guard b e w = Some (if b then Inr () else Inl e, w)"
  by (simp_all add: io_return_def io_fail_def io_lift_def io_guard_def)

text \<open>Code equations that unfold an effect only once it has its world.\<close>

lemmas io_code [code] = io_return_def [THEN fun_cong] io_fail_def [THEN fun_cong] io_lift_def [THEN fun_cong]
  io_bind_def [THEN fun_cong] io_result_def [THEN fun_cong] io_map_err_def [THEN fun_cong]

lemma io_bind_Some_iff:
  "io_bind m f w = Some (r, w') \<longleftrightarrow>
     (\<exists>e. m w = Some (Inl e, w') \<and> r = Inl e) \<or>
     (\<exists>x w1. m w = Some (Inr x, w1) \<and> f x w1 = Some (r, w'))"
  by (cases "m w") (auto simp: io_bind_def split: sum.splits)

lemma io_bind_apply:
  "m w = Some (Inl e, w1) \<Longrightarrow> io_bind m f w = Some (Inl e, w1)"
  "m w = Some (Inr x, w1) \<Longrightarrow> io_bind m f w = f x w1"
  "m w = None \<Longrightarrow> io_bind m f w = None"
  by (simp_all add: io_bind_def)

lemma io_bind_assoc: "io_bind (io_bind m f) g = io_bind m (\<lambda>x. io_bind (f x) g)"
  by (rule ext) (auto simp: io_bind_def split: option.splits sum.splits)

lemma io_result_Some_iff:
  "io_result m w = Some (r, w') \<longleftrightarrow> (\<exists>q. m w = Some (q, w') \<and> r = Inr q)"
  by (cases "m w") (auto simp: io_result_def)

lemma io_map_err_Some_iff:
  "io_map_err g m w = Some (r, w') \<longleftrightarrow>
     (\<exists>e. m w = Some (Inl e, w') \<and> r = Inl (g e)) \<or> (\<exists>x. m w = Some (Inr x, w') \<and> r = Inr x)"
  by (cases "m w") (auto simp: io_map_err_def split: sum.splits)

lemmas io_iffs = io_apply io_bind_Some_iff io_result_Some_iff io_map_err_Some_iff

text \<open>A call returned a value, or an error, with some property.\<close>

definition returns :: "(('e + 'a) \<times> 'w) option \<Rightarrow> ('a \<Rightarrow> 'w \<Rightarrow> bool) \<Rightarrow> bool" where
  "returns m P = (case m of Some (Inr x, w') \<Rightarrow> P x w' | _ \<Rightarrow> False)"

definition fails :: "(('e + 'a) \<times> 'w) option \<Rightarrow> ('e \<Rightarrow> 'w \<Rightarrow> bool) \<Rightarrow> bool" where
  "fails m P = (case m of Some (Inl e, w') \<Rightarrow> P e w' | _ \<Rightarrow> False)"

lemma returnsE: "returns m P \<Longrightarrow> (\<And>x w'. m = Some (Inr x, w') \<Longrightarrow> P x w' \<Longrightarrow> thesis) \<Longrightarrow> thesis"
  by (cases m; cases "fst (the m)") (auto simp: returns_def split: prod.split_asm)

lemma failsE: "fails m P \<Longrightarrow> (\<And>e w'. m = Some (Inl e, w') \<Longrightarrow> P e w' \<Longrightarrow> thesis) \<Longrightarrow> thesis"
  by (cases m; cases "fst (the m)") (auto simp: fails_def split: prod.split_asm)

subsection \<open>Invariants of effectful calls\<close>

text \<open>\<open>keeps P m\<close>: whatever \<open>m\<close> returns, an error included, \<open>P\<close> still holds of the world.\<close>

definition keeps :: "('w \<Rightarrow> bool) \<Rightarrow> ('w, 'e, 'a) io \<Rightarrow> bool" where
  "keeps P m \<longleftrightarrow> (\<forall>w r w'. P w \<longrightarrow> m w = Some (r, w') \<longrightarrow> P w')"

lemma keepsI: "(\<And>w r w'. P w \<Longrightarrow> m w = Some (r, w') \<Longrightarrow> P w') \<Longrightarrow> keeps P m"
  by (auto simp: keeps_def)

lemma keepsD: "keeps P m \<Longrightarrow> P w \<Longrightarrow> m w = Some (r, w') \<Longrightarrow> P w'"
  by (auto simp: keeps_def)

lemma keeps_basic [keeps_intros]:
  "keeps P (io_return x)"
  "keeps P (io_fail e)"
  "keeps P (io_lift r)"
  "keeps P (io_guard b e)"
  by (auto simp: keeps_def io_iffs)

lemma keeps_bind [keeps_intros]: "keeps P m \<Longrightarrow> (\<And>x. keeps P (f x)) \<Longrightarrow> keeps P (io_bind m f)"
  unfolding keeps_def io_bind_Some_iff by blast

lemma keeps_result [keeps_intros]: "keeps P m \<Longrightarrow> keeps P (io_result m)"
  unfolding keeps_def io_result_Some_iff by blast

lemma keeps_map_err [keeps_intros]: "keeps P m \<Longrightarrow> keeps P (io_map_err g m)"
  unfolding keeps_def io_map_err_Some_iff by blast

lemma keeps_if [keeps_intros]: "(b \<Longrightarrow> keeps P m) \<Longrightarrow> (\<not> b \<Longrightarrow> keeps P n) \<Longrightarrow> keeps P (if b then m else n)"
  by simp

lemma keeps_case_option [keeps_intros]:
  "(x = None \<Longrightarrow> keeps P m) \<Longrightarrow> (\<And>y. x = Some y \<Longrightarrow> keeps P (f y)) \<Longrightarrow>
     keeps P (case x of None \<Rightarrow> m | Some y \<Rightarrow> f y)"
  by (cases x) auto

lemma keeps_case_sum [keeps_intros]:
  "(\<And>y. x = Inl y \<Longrightarrow> keeps P (f y)) \<Longrightarrow> (\<And>y. x = Inr y \<Longrightarrow> keeps P (g y)) \<Longrightarrow>
     keeps P (case x of Inl y \<Rightarrow> f y | Inr y \<Rightarrow> g y)"
  by (cases x) auto

lemma keeps_traverse [keeps_intros]: "(\<And>x. keeps P (f x)) \<Longrightarrow> keeps P (io_traverse f xs)"
  by (induction xs) (auto intro!: keeps_intros)

lemma io_traverse_length:
  "io_traverse f xs w = Some (Inr ys, w') \<Longrightarrow> length ys = length xs"
  by (induction xs arbitrary: ys w) (auto simp: io_iffs)

section \<open>Triples\<close>

text \<open>
  \<open>triple P m Q E\<close>: from a world with \<open>P\<close>, a call of \<open>m\<close> that returns a value leaves \<open>Q\<close> of
  it, and one that returns an error leaves \<open>E\<close>. Nothing is said of a call without result.
\<close>

definition triple ::
  "('w \<Rightarrow> bool) \<Rightarrow> ('w, 'e, 'a) io \<Rightarrow> ('a \<Rightarrow> 'w \<Rightarrow> bool) \<Rightarrow> ('e \<Rightarrow> 'w \<Rightarrow> bool) \<Rightarrow> bool" where
  "triple P m Q E \<longleftrightarrow>
     (\<forall>w. P w \<longrightarrow> (\<forall>x w'. m w = Some (Inr x, w') \<longrightarrow> Q x w') \<and> (\<forall>e w'. m w = Some (Inl e, w') \<longrightarrow> E e w'))"

lemma tripleI:
  "(\<And>w x w'. P w \<Longrightarrow> m w = Some (Inr x, w') \<Longrightarrow> Q x w') \<Longrightarrow>
   (\<And>w e w'. P w \<Longrightarrow> m w = Some (Inl e, w') \<Longrightarrow> E e w') \<Longrightarrow> triple P m Q E"
  unfolding triple_def by blast

lemma triple_ok: "triple P m Q E \<Longrightarrow> P w \<Longrightarrow> m w = Some (Inr x, w') \<Longrightarrow> Q x w'"
  unfolding triple_def by blast

lemma triple_err: "triple P m Q E \<Longrightarrow> P w \<Longrightarrow> m w = Some (Inl e, w') \<Longrightarrow> E e w'"
  unfolding triple_def by blast

lemma triple_pre: "triple P m Q E \<Longrightarrow> (\<And>w. P' w \<Longrightarrow> P w) \<Longrightarrow> triple P' m Q E"
  unfolding triple_def by blast

lemma triple_conseq:
  "triple P m Q E \<Longrightarrow> (\<And>w. P' w \<Longrightarrow> P w) \<Longrightarrow> (\<And>x w. Q x w \<Longrightarrow> Q' x w) \<Longrightarrow>
     (\<And>e w. E e w \<Longrightarrow> E' e w) \<Longrightarrow> triple P' m Q' E'"
  unfolding triple_def by blast

named_theorems triple_intros \<open>rules for triples\<close>

lemma triple_return [triple_intros]: "(\<And>w. P w \<Longrightarrow> Q x w) \<Longrightarrow> triple P (io_return x) Q E"
  by (auto simp: triple_def io_iffs)

lemma triple_fail [triple_intros]: "(\<And>w. P w \<Longrightarrow> E e w) \<Longrightarrow> triple P (io_fail e) Q E"
  by (auto simp: triple_def io_iffs)

lemma triple_lift [triple_intros]:
  "(\<And>w x. P w \<Longrightarrow> r = Inr x \<Longrightarrow> Q x w) \<Longrightarrow> (\<And>w e. P w \<Longrightarrow> r = Inl e \<Longrightarrow> E e w) \<Longrightarrow>
     triple P (io_lift r) Q E"
  by (auto simp: triple_def io_iffs)

lemma triple_bind [triple_intros]:
  "triple P m R E \<Longrightarrow> (\<And>x. triple (R x) (f x) Q E) \<Longrightarrow> triple P (io_bind m f) Q E"
  unfolding triple_def io_bind_Some_iff by blast

lemma triple_lift_bind:
  "(\<And>x. r = Inr x \<Longrightarrow> triple P (f x) Q E) \<Longrightarrow> (\<And>w e. P w \<Longrightarrow> r = Inl e \<Longrightarrow> E e w) \<Longrightarrow>
     triple P (io_bind (io_lift r) f) Q E"
  by (cases r) (auto simp: triple_def io_iffs)

lemma triple_result [triple_intros]:
  "triple P m (\<lambda>x. Q (Inr x)) (\<lambda>e. Q (Inl e)) \<Longrightarrow> triple P (io_result m) Q E"
proof (rule tripleI)
  fix w x w'
  assume t: "triple P m (\<lambda>x. Q (Inr x)) (\<lambda>e. Q (Inl e))" and "P w"
    and "io_result m w = Some (Inr x, w')"
  then have "m w = Some (x, w')" by (auto simp: io_result_Some_iff)
  with t \<open>P w\<close> show "Q x w'" by (cases x) (auto dest: triple_ok triple_err)
qed (auto simp: io_result_Some_iff)

lemma triple_map_err [triple_intros]:
  "triple P m Q (\<lambda>e. E (g e)) \<Longrightarrow> triple P (io_map_err g m) Q E"
  unfolding triple_def io_map_err_Some_iff by blast

lemma triple_if [triple_intros]:
  "(b \<Longrightarrow> triple P m Q E) \<Longrightarrow> (\<not> b \<Longrightarrow> triple P n Q E) \<Longrightarrow> triple P (if b then m else n) Q E"
  by simp

lemma triple_traverse:
  assumes "\<And>x. x \<in> set xs \<Longrightarrow> triple P (f x) (\<lambda>_. P) E"
  shows "triple P (io_traverse f xs) (\<lambda>_. P) E"
  using assms
proof (induction xs)
  case Nil
  then show ?case by (auto intro: triple_intros)
next
  case (Cons x xs)
  have "triple P (f x) (\<lambda>_. P) E" "triple P (io_traverse f xs) (\<lambda>_. P) E"
    using Cons by auto
  then show ?case by (auto intro!: triple_intros)
qed

lemma keeps_triple: "keeps P m \<longleftrightarrow> triple P m (\<lambda>_. P) (\<lambda>_. P)"
  unfolding keeps_def triple_def by (metis (no_types, lifting) sum.exhaust)

subsection \<open>Calls that return\<close>

text \<open>\<open>total m\<close>: \<open>m\<close> returns a value or an error from every world.\<close>

definition total :: "('w, 'e, 'a) io \<Rightarrow> bool" where
  "total m \<longleftrightarrow> (\<forall>w. m w \<noteq> None)"

lemma totalI: "(\<And>w. m w \<noteq> None) \<Longrightarrow> total m"
  by (simp add: total_def)

lemma total_at: "total m \<Longrightarrow> m w \<noteq> None"
  by (simp add: total_def)

lemma total_basic [total_intros]: "total (io_return x)" "total (io_fail e)" "total (io_lift r)"
  by (simp_all add: total_def io_apply)

lemma total_bind [total_intros]: "total m \<Longrightarrow> (\<And>x. total (f x)) \<Longrightarrow> total (io_bind m f)"
  by (auto simp: total_def io_bind_def split: option.splits sum.splits)

lemma total_result [total_intros]: "total m \<Longrightarrow> total (io_result m)"
  by (auto simp: total_def io_result_def split: option.splits)

lemma total_map_err [total_intros]: "total m \<Longrightarrow> total (io_map_err g m)"
  by (auto simp: total_def io_map_err_def split: option.splits sum.splits)

lemma total_if [total_intros]: "(b \<Longrightarrow> total m) \<Longrightarrow> (\<not> b \<Longrightarrow> total n) \<Longrightarrow> total (if b then m else n)"
  by simp

lemma total_case_sum [total_intros]:
  "(\<And>y. total (f y)) \<Longrightarrow> (\<And>y. total (g y)) \<Longrightarrow> total (case x of Inl y \<Rightarrow> f y | Inr y \<Rightarrow> g y)"
  by (cases x) auto

lemma total_case_option [total_intros]:
  "total m \<Longrightarrow> (\<And>y. total (f y)) \<Longrightarrow> total (case x of None \<Rightarrow> m | Some y \<Rightarrow> f y)"
  by (cases x) auto

lemma total_traverse [total_intros]: "(\<And>x. total (f x)) \<Longrightarrow> total (io_traverse f xs)"
  by (induction xs) (auto intro!: total_intros)

section \<open>Collecting results that may be undefined\<close>

text \<open>\<open>collect\<close> over calls that return a result or have no defined one; the first that is not a value ends it.\<close>

fun partial_traverse :: "('a \<Rightarrow> ('e + 'b) option) \<Rightarrow> 'a list \<Rightarrow> ('e + 'b list) option" where
  "partial_traverse f [] = Some (Inr [])"
| "partial_traverse f (x # xs) =
     (case f x of
        None \<Rightarrow> None
      | Some (Inl e) \<Rightarrow> Some (Inl e)
      | Some (Inr y) \<Rightarrow>
          (case partial_traverse f xs of
             None \<Rightarrow> None
           | Some (Inl e) \<Rightarrow> Some (Inl e)
           | Some (Inr ys) \<Rightarrow> Some (Inr (y # ys))))"

lemma partial_traverse_Inr_iff:
  "partial_traverse f xs = Some (Inr ys) \<longleftrightarrow> list_all2 (\<lambda>x y. f x = Some (Inr y)) xs ys"
proof (induction xs arbitrary: ys)
  case Nil
  then show ?case by auto
next
  case (Cons x xs)
  have "partial_traverse f (x # xs) = Some (Inr ys) \<longleftrightarrow>
      (\<exists>y zs. f x = Some (Inr y) \<and> partial_traverse f xs = Some (Inr zs) \<and> ys = y # zs)"
    by (auto split: option.splits sum.splits)
  with Cons.IH show ?case by (auto simp: list_all2_Cons1)
qed

lemma partial_traverse_length: "partial_traverse f xs = Some (Inr ys) \<Longrightarrow> length ys = length xs"
  by (auto simp: partial_traverse_Inr_iff dest: list_all2_lengthD)

end
