(* ===== verification/Errors.thy ===== *)
theory Errors
  imports Prelude
begin

text \<open>
  The public error surface, \<open>src/error.rs\<close>. A message built with \<open>format!\<close> is kept as the
  list of its pieces (\<open>frag\<close>): literal or displayed text, text shown with \<open>{:?}\<close>,
  numbers, the UTF-8 error of the bytes it was raised for.
  Nothing is lost by not rendering them, and two messages are equal exactly when their
  templates and arguments are.
\<close>

datatype adapter_error_kind =
    Busy | Locked | Timeout | Constraint | Conflict | VersionConflict | TransactionAborted
  | IdempotencyConflict | IdempotencyInProgress | Query | InvalidOperation | ReadOnlyKind
  | Capability | ValueKind | Storage | Corrupt | Transport | Protocol | Authentication
  | Authorization | RateLimited | Quota | NotFound | Unavailable | Cancellation | Unknown

datatype frag = Txt string | Dbg string | Num int | Utf8Error "u8 list"

type_synonym message = "frag list"

datatype dactyl_error =
    Config message
  | Adapter adapter_error_kind "string option" message
  | UnsupportedOperation message
  | ColumnNotFound message
  | Conversion message

type_synonym 'a result = "dactyl_error + 'a"

definition adapter :: "adapter_error_kind \<Rightarrow> message \<Rightarrow> dactyl_error" where
  "adapter kind msg = Adapter kind None msg"

definition adapter_with_code :: "adapter_error_kind \<Rightarrow> string \<Rightarrow> message \<Rightarrow> dactyl_error" where
  "adapter_with_code kind code msg = Adapter kind (Some code) msg"

fun adapter_kind :: "dactyl_error \<Rightarrow> adapter_error_kind option" where
  "adapter_kind (Adapter kind code msg) = Some kind"
| "adapter_kind _ = None"

fun adapter_code :: "dactyl_error \<Rightarrow> string option" where
  "adapter_code (Adapter kind code msg) = code"
| "adapter_code _ = None"

definition is_retryable :: "dactyl_error \<Rightarrow> bool" where
  "is_retryable e =
     (case adapter_kind e of
        Some Busy \<Rightarrow> True
      | Some Locked \<Rightarrow> True
      | Some Timeout \<Rightarrow> True
      | Some Unavailable \<Rightarrow> True
      | _ \<Rightarrow> False)"

text \<open>The derived \<open>Display\<close>: the \<open>#[error(...)]\<close> templates, with \<open>{kind:?}\<close> the variant's name.\<close>

fun kind_name :: "adapter_error_kind \<Rightarrow> string" where
  "kind_name Busy = ''Busy''"
| "kind_name Locked = ''Locked''"
| "kind_name Timeout = ''Timeout''"
| "kind_name Constraint = ''Constraint''"
| "kind_name Conflict = ''Conflict''"
| "kind_name VersionConflict = ''VersionConflict''"
| "kind_name TransactionAborted = ''TransactionAborted''"
| "kind_name IdempotencyConflict = ''IdempotencyConflict''"
| "kind_name IdempotencyInProgress = ''IdempotencyInProgress''"
| "kind_name Query = ''Query''"
| "kind_name InvalidOperation = ''InvalidOperation''"
| "kind_name ReadOnlyKind = ''ReadOnly''"
| "kind_name Capability = ''Capability''"
| "kind_name ValueKind = ''Value''"
| "kind_name Storage = ''Storage''"
| "kind_name Corrupt = ''Corrupt''"
| "kind_name Transport = ''Transport''"
| "kind_name Protocol = ''Protocol''"
| "kind_name Authentication = ''Authentication''"
| "kind_name Authorization = ''Authorization''"
| "kind_name RateLimited = ''RateLimited''"
| "kind_name Quota = ''Quota''"
| "kind_name NotFound = ''NotFound''"
| "kind_name Unavailable = ''Unavailable''"
| "kind_name Cancellation = ''Cancellation''"
| "kind_name Unknown = ''Unknown''"

fun display :: "dactyl_error \<Rightarrow> message" where
  "display (Config m) = Txt ''configuration error: '' # m"
| "display (Adapter kind code m) =
     [Txt ''adapter error ('', Txt (kind_name kind), Txt ''): ''] @ m"
| "display (UnsupportedOperation m) = Txt ''unsupported datastore operation: '' # m"
| "display (ColumnNotFound m) = Txt ''column not found: '' # m"
| "display (Conversion m) = Txt ''conversion error: '' # m"

lemma adapter_simps [simp]:
  "adapter_kind (adapter k m) = Some k"
  "adapter_code (adapter k m) = None"
  "adapter_kind (adapter_with_code k c m) = Some k"
  "adapter_code (adapter_with_code k c m) = Some c"
  by (simp_all add: adapter_def adapter_with_code_def)

lemma is_retryable_iff:
  "is_retryable e \<longleftrightarrow> adapter_kind e \<in> {Some Busy, Some Locked, Some Timeout, Some Unavailable}"
  by (auto simp: is_retryable_def split: option.splits adapter_error_kind.splits)

text \<open>Every way to see a retryable error goes through the adapter: a rejected value never is.\<close>

lemma not_retryable [simp]:
  "\<not> is_retryable (Config m)"
  "\<not> is_retryable (ColumnNotFound m)"
  "\<not> is_retryable (Conversion m)"
  "\<not> is_retryable (UnsupportedOperation m)"
  by (simp_all add: is_retryable_iff)

end
