(* ===== verification/Text.thy ===== *)
theory Text
  imports Prelude
begin

text \<open>
  Program text and the parts of Rust's \<open>str\<close> the code uses. A Rust \<open>String\<close> is the list of
  its UTF-8 bytes (\<open>string\<close>), so \<open>length\<close> is \<open>str::len\<close>. ASCII operations act on the
  bytes; the Unicode \<open>White_Space\<close> characters are recognised by their UTF-8 encodings, so
  \<open>trim\<close> and \<open>split_whitespace\<close> agree with Rust on every valid UTF-8 string.
\<close>

section \<open>Characters and case\<close>

abbreviation byte :: "char \<Rightarrow> nat" where
  "byte c \<equiv> of_char c"

definition ascii_lower :: "char \<Rightarrow> char" where
  "ascii_lower c = (if 65 \<le> byte c \<and> byte c \<le> 90 then char_of (byte c + 32) else c)"

definition ascii_upper :: "char \<Rightarrow> char" where
  "ascii_upper c = (if 97 \<le> byte c \<and> byte c \<le> 122 then char_of (byte c - 32) else c)"

definition to_ascii_lowercase :: "string \<Rightarrow> string" where
  "to_ascii_lowercase s = map ascii_lower s"

definition to_ascii_uppercase :: "string \<Rightarrow> string" where
  "to_ascii_uppercase s = map ascii_upper s"

definition eq_ignore_ascii_case :: "string \<Rightarrow> string \<Rightarrow> bool" where
  "eq_ignore_ascii_case s t \<longleftrightarrow> to_ascii_lowercase s = to_ascii_lowercase t"

section \<open>White space\<close>

text \<open>The length in bytes of the white-space character a string begins with, 0 if it does not.\<close>

fun ws_len :: "nat list \<Rightarrow> nat" where
  "ws_len (a # b # c # _) =
     (if (9 \<le> a \<and> a \<le> 13) \<or> a = 32 then 1
      else if a = 194 \<and> (b = 133 \<or> b = 160) then 2
      else if a = 225 \<and> b = 154 \<and> c = 128 then 3
      else if a = 226 \<and> b = 128 \<and> ((128 \<le> c \<and> c \<le> 138) \<or> c = 168 \<or> c = 169 \<or> c = 175) then 3
      else if a = 226 \<and> b = 129 \<and> c = 159 then 3
      else if a = 227 \<and> b = 128 \<and> c = 128 then 3
      else 0)"
| "ws_len [a, b] =
     (if (9 \<le> a \<and> a \<le> 13) \<or> a = 32 then 1
      else if a = 194 \<and> (b = 133 \<or> b = 160) then 2
      else 0)"
| "ws_len [a] = (if (9 \<le> a \<and> a \<le> 13) \<or> a = 32 then 1 else 0)"
| "ws_len [] = 0"

abbreviation bytes :: "string \<Rightarrow> nat list" where
  "bytes s \<equiv> map of_char s"

lemma ws_len_le: "ws_len bs \<le> length bs"
  by (cases bs rule: ws_len.cases) auto

lemma ws_len_nil [simp]: "ws_len (bytes []) = 0"
  by simp

function trim_start :: "string \<Rightarrow> string" where
  "trim_start s = (if ws_len (bytes s) = 0 then s else trim_start (drop (ws_len (bytes s)) s))"
  by pat_completeness auto
termination
proof (relation "measure length")
  fix s :: string
  assume "ws_len (bytes s) \<noteq> 0"
  then show "(drop (ws_len (bytes s)) s, s) \<in> measure length"
    using ws_len_le [of "bytes s"] by (cases s) auto
qed simp

declare trim_start.simps [simp del]

text \<open>The length of the white-space character a string ends with.\<close>

definition ws_suffix_len :: "string \<Rightarrow> nat" where
  "ws_suffix_len s =
     (if ws_len (bytes (drop (length s - 1) s)) = 1 then 1
      else if 2 \<le> length s \<and> ws_len (bytes (drop (length s - 2) s)) = 2 then 2
      else if 3 \<le> length s \<and> ws_len (bytes (drop (length s - 3) s)) = 3 then 3
      else 0)"

lemma ws_suffix_len_le: "ws_suffix_len s \<le> length s"
proof -
  have "ws_len (bytes (drop (length s - 1) s)) = 1 \<Longrightarrow> 1 \<le> length s"
    by (cases s) auto
  then show ?thesis by (auto simp: ws_suffix_len_def)
qed

function trim_end :: "string \<Rightarrow> string" where
  "trim_end s =
     (if ws_suffix_len s = 0 then s else trim_end (take (length s - ws_suffix_len s) s))"
  by pat_completeness auto
termination
proof (relation "measure length")
  fix s :: string
  assume "ws_suffix_len s \<noteq> 0"
  then show "(take (length s - ws_suffix_len s) s, s) \<in> measure length"
    using ws_suffix_len_le [of s] by (cases s) auto
qed simp

declare trim_end.simps [simp del]

definition trim :: "string \<Rightarrow> string" where
  "trim s = trim_end (trim_start s)"

text \<open>The first piece of \<open>split_whitespace\<close>: the characters up to the next white space.\<close>

fun word_prefix :: "string \<Rightarrow> string" where
  "word_prefix [] = []"
| "word_prefix (c # s) = (if ws_len (bytes (c # s)) = 0 then c # word_prefix s else [])"

definition first_piece :: "string \<Rightarrow> string option" where
  "first_piece s = (let t = trim_start s in if t = [] then None else Some (word_prefix t))"

section \<open>Trimming one character, prefixes, substrings\<close>

definition trim_start_char :: "char \<Rightarrow> string \<Rightarrow> string" where
  "trim_start_char c s = dropWhile (\<lambda>x. x = c) s"

definition trim_end_char :: "char \<Rightarrow> string \<Rightarrow> string" where
  "trim_end_char c s = rev (dropWhile (\<lambda>x. x = c) (rev s))"

definition trim_chars :: "char list \<Rightarrow> string \<Rightarrow> string" where
  "trim_chars cs s = rev (dropWhile (\<lambda>x. x \<in> set cs) (rev (dropWhile (\<lambda>x. x \<in> set cs) s)))"

fun starts_with :: "string \<Rightarrow> string \<Rightarrow> bool" where
  "starts_with s [] = True"
| "starts_with [] (p # ps) = False"
| "starts_with (c # s) (p # ps) = (c = p \<and> starts_with s ps)"

definition ends_with :: "string \<Rightarrow> string \<Rightarrow> bool" where
  "ends_with s p = starts_with (rev s) (rev p)"

fun contains_text :: "string \<Rightarrow> string \<Rightarrow> bool" where
  "contains_text [] p = (p = [])"
| "contains_text (c # s) p = (starts_with (c # s) p \<or> contains_text s p)"

text \<open>\<open>str::replace\<close> of the one-character and the doubled-character patterns the code uses.\<close>

fun double_char :: "char \<Rightarrow> string \<Rightarrow> string" where
  "double_char q [] = []"
| "double_char q (c # s) = (if c = q then q # q # double_char q s else c # double_char q s)"

fun undouble_char :: "char \<Rightarrow> string \<Rightarrow> string" where
  "undouble_char q (a # b # s) =
     (if a = q \<and> b = q then q # undouble_char q s else a # undouble_char q (b # s))"
| "undouble_char q s = s"

fun join :: "string \<Rightarrow> string list \<Rightarrow> string" where
  "join sep [] = []"
| "join sep [s] = s"
| "join sep (s # t # ss) = s @ sep @ join sep (t # ss)"

section \<open>UTF-8\<close>

definition cont_byte :: "nat \<Rightarrow> bool" where
  "cont_byte b \<longleftrightarrow> 128 \<le> b \<and> b \<le> 191"

text \<open>The well-formed byte sequences of the Unicode standard, as \<open>String::from_utf8\<close> accepts them.\<close>

fun utf8_valid :: "nat list \<Rightarrow> bool" where
  "utf8_valid [] = True"
| "utf8_valid (a # s) =
     (if a < 128 then utf8_valid s
      else case s of
        [] \<Rightarrow> False
      | b # s1 \<Rightarrow>
          if 194 \<le> a \<and> a \<le> 223 then cont_byte b \<and> utf8_valid s1
          else (case s1 of
            [] \<Rightarrow> False
          | c # s2 \<Rightarrow>
              if a = 224 then 160 \<le> b \<and> b \<le> 191 \<and> cont_byte c \<and> utf8_valid s2
              else if (225 \<le> a \<and> a \<le> 236) \<or> a = 238 \<or> a = 239
                then cont_byte b \<and> cont_byte c \<and> utf8_valid s2
              else if a = 237 then 128 \<le> b \<and> b \<le> 159 \<and> cont_byte c \<and> utf8_valid s2
              else (case s2 of
                [] \<Rightarrow> False
              | d # s3 \<Rightarrow>
                  if a = 240 then 144 \<le> b \<and> b \<le> 191 \<and> cont_byte c \<and> cont_byte d \<and> utf8_valid s3
                  else if 241 \<le> a \<and> a \<le> 243
                    then cont_byte b \<and> cont_byte c \<and> cont_byte d \<and> utf8_valid s3
                  else if a = 244
                    then 128 \<le> b \<and> b \<le> 143 \<and> cont_byte c \<and> cont_byte d \<and> utf8_valid s3
                  else False)))"

definition from_utf8 :: "u8 list \<Rightarrow> string option" where
  "from_utf8 bs = (if utf8_valid (map unat bs) then Some (map (\<lambda>b. char_of (unat b)) bs) else None)"

definition to_utf8 :: "string \<Rightarrow> u8 list" where
  "to_utf8 s = map (\<lambda>c. of_nat (byte c)) s"

definition has_nul :: "string \<Rightarrow> bool" where
  "has_nul s \<longleftrightarrow> CHR 0x00 \<in> set s"

text \<open>For evaluation: every byte is converted once.\<close>

lemma from_utf8_code [code]:
  "from_utf8 bs = (let ns = map unat bs in if utf8_valid ns then Some (map char_of ns) else None)"
  by (simp add: from_utf8_def Let_def comp_def)

lemma from_utf8_to_utf8: "utf8_valid (bytes s) \<Longrightarrow> from_utf8 (to_utf8 s) = Some s"
proof -
  assume v: "utf8_valid (bytes s)"
  have r: "unat (of_nat (byte c) :: u8) = byte c" for c
    by (simp add: unat_of_nat)
  have "map unat (to_utf8 s) = bytes s" by (simp add: to_utf8_def r)
  moreover have "map (\<lambda>b. char_of (unat b)) (to_utf8 s) = s"
    by (simp add: to_utf8_def r comp_def)
  ultimately show ?thesis using v by (simp add: from_utf8_def)
qed

section \<open>Facts about the string operations\<close>

lemma to_ascii_lowercase_append [simp]:
  "to_ascii_lowercase (s @ t) = to_ascii_lowercase s @ to_ascii_lowercase t"
  by (simp add: to_ascii_lowercase_def)

lemma ascii_lower_idem [simp]: "ascii_lower (ascii_lower c) = ascii_lower c"
  by (auto simp: ascii_lower_def)

lemma to_ascii_lowercase_idem [simp]: "to_ascii_lowercase (to_ascii_lowercase s) = to_ascii_lowercase s"
  by (simp add: to_ascii_lowercase_def)

lemma starts_with_iff: "starts_with s p \<longleftrightarrow> (\<exists>t. s = p @ t)"
  by (induction s p rule: starts_with.induct) auto

lemma ends_with_iff: "ends_with s p \<longleftrightarrow> (\<exists>t. s = t @ p)"
  by (auto simp: ends_with_def starts_with_iff) (metis rev_append rev_rev_ident)

lemma contains_text_iff: "contains_text s p \<longleftrightarrow> (\<exists>a b. s = a @ p @ b)"
proof (induction s)
  case Nil
  then show ?case by auto
next
  case (Cons c s)
  have "(\<exists>a b. c # s = a @ p @ b) \<longleftrightarrow> (\<exists>b. c # s = p @ b) \<or> (\<exists>a b. s = a @ p @ b)"
  proof
    assume "\<exists>a b. c # s = a @ p @ b"
    then obtain a b where "c # s = a @ p @ b" by blast
    then show "(\<exists>b. c # s = p @ b) \<or> (\<exists>a b. s = a @ p @ b)" by (cases a) auto
  next
    assume "(\<exists>b. c # s = p @ b) \<or> (\<exists>a b. s = a @ p @ b)"
    then show "\<exists>a b. c # s = a @ p @ b" by (metis append_Cons append_Nil)
  qed
  then have "(\<exists>a b. c # s = a @ p @ b) \<longleftrightarrow> starts_with (c # s) p \<or> (\<exists>a b. s = a @ p @ b)"
    by (simp only: starts_with_iff)
  with Cons.IH show ?case by simp
qed

lemma undouble_double: "undouble_char q (double_char q s) = s"
proof (induction s)
  case Nil
  then show ?case by simp
next
  case (Cons c s)
  show ?case
  proof (cases "c = q")
    case True
    with Cons show ?thesis by simp
  next
    case False
    with Cons show ?thesis by (cases "double_char q s") auto
  qed
qed

lemma double_char_append [simp]: "double_char q (s @ t) = double_char q s @ double_char q t"
  by (induction s) auto

lemma trim_start_id: "ws_len (bytes s) = 0 \<Longrightarrow> trim_start s = s"
  by (simp add: trim_start.simps [of s])

lemma trim_end_id: "ws_suffix_len s = 0 \<Longrightarrow> trim_end s = s"
  by (simp add: trim_end.simps [of s])

lemma trim_end_char_no_suffix: "trim_end_char c s = t \<Longrightarrow> t = [] \<or> last t \<noteq> c"
proof -
  assume "trim_end_char c s = t"
  then have t: "rev t = dropWhile (\<lambda>x. x = c) (rev s)"
    by (auto simp: trim_end_char_def)
  show ?thesis
  proof (cases "rev t")
    case (Cons a xs)
    with t have d: "dropWhile (\<lambda>x. x = c) (rev s) = a # xs" by simp
    then have "a \<noteq> c" using hd_dropWhile [of "\<lambda>x. x = c" "rev s"] by simp
    moreover have "t = rev (a # xs)" using Cons by (metis rev_rev_ident)
    ultimately show ?thesis by simp
  qed simp
qed

end
