(* ===== verification/Paths.thy ===== *)
theory Paths
  imports Text
begin

text \<open>
  \<open>std::path::Path\<close> on Unix, as far as the SQLite driver uses it: components, equality,
  parents, file names, joining. A path is its text. Two paths are equal when their components
  are; repeated separators and inner \<open>.\<close> components do not count.
\<close>

abbreviation slash :: char where
  "slash \<equiv> CHR ''/''"

text \<open>The pieces between separators, each with the offset at which it ends.\<close>

fun path_pieces :: "nat \<Rightarrow> string \<Rightarrow> string \<Rightarrow> (nat \<times> string) list" where
  "path_pieces pos piece [] = [(pos, piece)]"
| "path_pieces pos piece (c # s) =
     (if c = slash then (pos, piece) # path_pieces (pos + 1) [] s
      else path_pieces (pos + 1) (piece @ [c]) s)"

text \<open>
  The components of a path: the root of an absolute path, a leading \<open>.\<close> of a relative one, and
  the pieces that are neither empty nor \<open>.\<close>.
\<close>

definition path_spans :: "string \<Rightarrow> (nat \<times> string) list" where
  "path_spans p =
     (if starts_with p [slash] then [(1, [slash])]
      else if p = ''.'' \<or> starts_with p ''./'' then [(1, ''.'')] else []) @
     filter (\<lambda>(pos, piece). piece \<noteq> [] \<and> piece \<noteq> ''.'') (path_pieces 0 [] p)"

definition components :: "string \<Rightarrow> string list" where
  "components p = map snd (path_spans p)"

definition path_eq :: "string \<Rightarrow> string \<Rightarrow> bool" where
  "path_eq p q \<longleftrightarrow> components p = components q"

definition is_absolute :: "string \<Rightarrow> bool" where
  "is_absolute p \<longleftrightarrow> starts_with p [slash]"

definition parent :: "string \<Rightarrow> string option" where
  "parent p =
     (let spans = path_spans p in
      if spans = [] \<or> snd (last spans) = [slash] then None
      else Some (take (if butlast spans = [] then 0 else fst (last (butlast spans))) p))"

definition file_name :: "string \<Rightarrow> string option" where
  "file_name p =
     (let spans = path_spans p in
      if spans = [] \<or> snd (last spans) \<in> {[slash], ''.'', ''..''} then None
      else Some (snd (last spans)))"

definition path_join :: "string \<Rightarrow> string \<Rightarrow> string" where
  "path_join p q =
     (if is_absolute q then q
      else if p = [] \<or> last p = slash then p @ q
      else p @ [slash] @ q)"

text \<open>\<open>ancestors\<close>: the path, its parent, and so on; each is shorter than the one before.\<close>

fun ancestors_from :: "nat \<Rightarrow> string \<Rightarrow> string list" where
  "ancestors_from 0 p = [p]"
| "ancestors_from (Suc n) p = p # (case parent p of None \<Rightarrow> [] | Some q \<Rightarrow> ancestors_from n q)"

definition ancestors :: "string \<Rightarrow> string list" where
  "ancestors p = ancestors_from (length p) p"

text \<open>\<open>parent().filter(non-empty).unwrap_or(".")\<close>\<close>

definition parent_or_dot :: "string \<Rightarrow> string" where
  "parent_or_dot p = (case parent p of Some q \<Rightarrow> if q \<noteq> [] then q else ''.'' | None \<Rightarrow> ''.'')"

definition sidecar_path :: "string \<Rightarrow> string \<Rightarrow> string" where
  "sidecar_path p suffix = p @ suffix"

section \<open>Facts\<close>

lemma path_eq_refl [simp]: "path_eq p p"
  by (simp add: path_eq_def)

lemma path_eq_sym: "path_eq p q \<Longrightarrow> path_eq q p"
  by (simp add: path_eq_def)

lemma path_pieces_bound: "(e, piece) \<in> set (path_pieces pos acc s) \<Longrightarrow> pos \<le> e \<and> e \<le> pos + length s"
  by (induction pos acc s rule: path_pieces.induct) (auto split: if_splits)

text \<open>A suffix without a separator lands in the last piece.\<close>

lemma path_pieces_append:
  assumes "slash \<notin> set t"
  shows "\<exists>us e piece. path_pieces pos acc s = us @ [(e, piece)] \<and>
     path_pieces pos acc (s @ t) = us @ [(e + length t, piece @ t)]"
proof (induction pos acc s rule: path_pieces.induct)
  case (1 pos piece)
  have "path_pieces pos p t = [(pos + length t, p @ t)]" for pos p
    using assms by (induction t arbitrary: pos p) auto
  then show ?case by auto
next
  case (2 pos piece c s)
  show ?case
  proof (cases "c = slash")
    case True
    with 2(1) obtain us e q where "path_pieces (pos + 1) [] s = us @ [(e, q)]"
      "path_pieces (pos + 1) [] (s @ t) = us @ [(e + length t, q @ t)]" by blast
    with True have "path_pieces pos piece (c # s) = ((pos, piece) # us) @ [(e, q)]"
      "path_pieces pos piece ((c # s) @ t) = ((pos, piece) # us) @ [(e + length t, q @ t)]" by simp_all
    then show ?thesis by blast
  next
    case False
    with 2(2) show ?thesis by simp
  qed
qed

lemma path_pieces_length: "(e, piece) \<in> set (path_pieces pos acc s) \<Longrightarrow> pos + length piece \<le> e + length acc"
  by (induction pos acc s rule: path_pieces.induct) (auto split: if_splits)

lemma path_pieces_sorted: "sorted_wrt (<) (map fst (path_pieces pos acc s))"
  by (induction pos acc s rule: path_pieces.induct) (auto dest!: path_pieces_bound)

lemma path_spans_sorted: "sorted_wrt (<) (map fst (path_spans p))"
proof -
  have f: "sorted_wrt (<) (map fst (filter P xs))" if "sorted_wrt (<) (map fst xs)" for P and xs :: "(nat \<times> string) list"
    using that by (induction xs) auto
  have later: "Suc 0 < e" if "(e, piece) \<in> set (path_pieces (Suc 0) [] s)" "piece \<noteq> []" for e piece s
    using path_pieces_length [OF that(1)] that(2) by (cases piece) auto
  consider (abs) s where "p = slash # s" | (dot) "p = ''.''" | (dots) s where "p = ''./'' @ s"
    | (rel) "\<not> starts_with p [slash]" "\<not> (p = ''.'' \<or> starts_with p ''./'')"
    by (metis starts_with_iff append_Cons append_Nil)
  then show ?thesis
  proof cases
    case abs
    then show ?thesis
      by (auto simp: path_spans_def intro!: f path_pieces_sorted dest: later)
  next
    case dot
    then show ?thesis by (simp add: path_spans_def)
  next
    case dots
    then show ?thesis
      by (auto simp: path_spans_def numeral_2_eq_2 intro!: f path_pieces_sorted dest!: path_pieces_bound)
  next
    case rel
    then show ?thesis by (simp add: path_spans_def f path_pieces_sorted)
  qed
qed

lemma path_spans_bound: "(e, piece) \<in> set (path_spans p) \<Longrightarrow> 0 < e \<and> e \<le> length p"
proof -
  assume "(e, piece) \<in> set (path_spans p)"
  then consider "e = 1" "p \<noteq> []" | "(e, piece) \<in> set (path_pieces 0 [] p)" "piece \<noteq> []"
    by (cases p) (auto simp: path_spans_def split: if_splits)
  then show ?thesis
  proof cases
    case 1
    then show ?thesis by (cases p) auto
  next
    case 2
    with path_pieces_length [OF 2(1)] path_pieces_bound [OF 2(1)] show ?thesis by (cases piece) auto
  qed
qed

lemma parent_shorter: "parent p = Some q \<Longrightarrow> length q < length p"
proof -
  assume "parent p = Some q"
  then have spans: "path_spans p \<noteq> []"
    and q: "q = take (if butlast (path_spans p) = [] then 0 else fst (last (butlast (path_spans p)))) p"
    by (auto simp: parent_def Let_def split: if_splits)
  have l: "path_spans p = butlast (path_spans p) @ [last (path_spans p)]" using spans by simp
  have b: "fst (last (path_spans p)) \<le> length p" "0 < fst (last (path_spans p))"
    using path_spans_bound [of "fst (last (path_spans p))" "snd (last (path_spans p))" p] last_in_set [OF spans]
    by simp_all
  have "sorted_wrt (<) (map fst (butlast (path_spans p) @ [last (path_spans p)]))"
    using path_spans_sorted [of p] l by simp
  then have "butlast (path_spans p) \<noteq> [] \<Longrightarrow> fst (last (butlast (path_spans p))) < fst (last (path_spans p))"
    by (auto simp: sorted_wrt_append)
  with b q show ?thesis by auto
qed

text \<open>The fuel of \<open>ancestors\<close> is enough: it follows parents to the end.\<close>

lemma ancestors_from_enough:
  "length p \<le> n \<Longrightarrow> ancestors_from n p = p # (case parent p of None \<Rightarrow> [] | Some q \<Rightarrow> ancestors q)"
proof (induction n arbitrary: p rule: less_induct)
  case (less n)
  have fuel: "ancestors_from m q = ancestors q" if "m < n" "length q \<le> m" for m q
  proof -
    have "ancestors_from m q = q # (case parent q of None \<Rightarrow> [] | Some r \<Rightarrow> ancestors r)"
      using less.IH [OF that] .
    also have "\<dots> = ancestors_from (length q) q"
      using less.IH [of "length q" q] that by simp
    finally show ?thesis by (simp add: ancestors_def)
  qed
  show ?case
  proof (cases n)
    case 0
    with less.prems show ?thesis by (simp add: parent_def path_spans_def)
  next
    case (Suc m)
    show ?thesis
    proof (cases "parent p")
      case None
      with Suc show ?thesis by simp
    next
      case (Some q)
      with parent_shorter [OF Some] less.prems Suc have "length q \<le> m" by simp
      with Suc Some fuel [of m q] show ?thesis by simp
    qed
  qed
qed

lemma ancestors_rec: "ancestors p = p # (case parent p of None \<Rightarrow> [] | Some q \<Rightarrow> ancestors q)"
  by (subst (1) ancestors_def) (rule ancestors_from_enough [OF le_refl])

end
