(* ===== verification/Json.thy ===== *)
theory Json
  imports Text
begin

unbundle bit_operations_syntax

text \<open>
  JSON values as the code sees them. \<open>json\<close> has the six variants of \<open>serde_json::Value\<close> that
  \<open>src/\<close> matches on; an object is the list of its entries in the map's iteration order. What a
  number is belongs to the library: its type \<open>'n\<close> is a parameter, and the calls the code makes
  on it are the fields of a record \<open>'n json_api\<close> that every definition takes. \<open>json_laws\<close>
  is what the documentation of \<open>serde_json::Number\<close> says of them.
\<close>

datatype 'n json =
    JNull
  | JBool bool
  | JNumber 'n
  | JString string
  | JArray "'n json list"
  | JObject "(string \<times> 'n json) list"

record 'n json_api =
  as_i64 :: "'n \<Rightarrow> i64 option"
  as_u64 :: "'n \<Rightarrow> u64 option"
  as_f64 :: "'n \<Rightarrow> f64 option"
  is_f64 :: "'n \<Rightarrow> bool"
  num_from_i64 :: "i64 \<Rightarrow> 'n"
  num_from_u64 :: "u64 \<Rightarrow> 'n"
  num_from_f64 :: "f64 \<Rightarrow> 'n option"
  debug_value :: "'n json \<Rightarrow> string"

definition json_laws :: "'n json_api \<Rightarrow> bool" where
  "json_laws J \<longleftrightarrow>
     (\<forall>i. as_i64 J (num_from_i64 J i) = Some i) \<and>
     (\<forall>u. as_u64 J (num_from_u64 J u) = Some u) \<and>
     (\<forall>u. as_i64 J (num_from_u64 J u) = (if uint u < 2 ^ 63 then Some u else None)) \<and>
     (\<forall>n. as_f64 J n \<noteq> None) \<and>
     (\<forall>f. num_from_f64 J f = None \<longleftrightarrow> \<not> is_finite f) \<and>
     (\<forall>f n. num_from_f64 J f = Some n \<longrightarrow>
        is_f64 J n \<and> as_f64 J n = Some f \<and> as_i64 J n = None \<and> as_u64 J n = None)"

fun is_null :: "'n json \<Rightarrow> bool" where
  "is_null JNull = True"
| "is_null _ = False"

fun is_object :: "'n json \<Rightarrow> bool" where
  "is_object (JObject es) = True"
| "is_object _ = False"

fun as_object :: "'n json \<Rightarrow> (string \<times> 'n json) list option" where
  "as_object (JObject es) = Some es"
| "as_object _ = None"

fun value_as_str :: "'n json \<Rightarrow> string option" where
  "value_as_str (JString s) = Some s"
| "value_as_str _ = None"

fun value_as_i64 :: "'n json_api \<Rightarrow> 'n json \<Rightarrow> i64 option" where
  "value_as_i64 J (JNumber n) = as_i64 J n"
| "value_as_i64 J _ = None"

fun value_as_u64 :: "'n json_api \<Rightarrow> 'n json \<Rightarrow> u64 option" where
  "value_as_u64 J (JNumber n) = as_u64 J n"
| "value_as_u64 J _ = None"

text \<open>\<open>Value::get\<close> with a key: only objects have members.\<close>

fun value_get :: "'n json \<Rightarrow> string \<Rightarrow> 'n json option" where
  "value_get (JObject es) k = map_of es k"
| "value_get _ k = None"

text \<open>\<open>u8::try_from\<close> on a \<open>u64\<close>.\<close>

definition u8_try_from :: "u64 \<Rightarrow> u8 option" where
  "u8_try_from v = (if uint v \<le> 255 then Some (ucast v) else None)"

definition value_as_byte :: "'n json_api \<Rightarrow> 'n json \<Rightarrow> u8 option" where
  "value_as_byte J v = Option.bind (value_as_u64 J v) u8_try_from"

text \<open>A blob as the adapters emit it: an array of byte numbers.\<close>

definition blob_json :: "'n json_api \<Rightarrow> u8 list \<Rightarrow> 'n json" where
  "blob_json J bs = JArray (map (\<lambda>b. JNumber (num_from_u64 J (ucast b))) bs)"

lemma u8_try_from_ucast [simp]: "u8_try_from (ucast b) = Some (b :: u8)"
proof -
  have "uint (ucast b :: u64) = uint b"
    by (simp add: uint_up_ucast is_up)
  moreover have "uint b \<le> 255"
    using uint_lt2p [of b] by simp
  moreover have "ucast (ucast b :: u64) = b"
    by (rule ucast_up_ucast_id) (simp add: is_up)
  ultimately show ?thesis by (simp add: u8_try_from_def)
qed

lemma value_as_byte_blob [simp]:
  "json_laws J \<Longrightarrow> value_as_byte J (JNumber (num_from_u64 J (ucast (b :: u8)))) = Some b"
  by (simp add: value_as_byte_def json_laws_def)

section \<open>An instance of the library's numbers\<close>

text \<open>
  Numbers as non-negative integers, negative integers and floats: a concrete library that
  satisfies the laws, for evaluating the model on closed inputs.
\<close>

datatype ref_num = PosInt u64 | NegInt i64 | Float f64

fun bit_count :: "nat \<Rightarrow> nat" where
  "bit_count n = (if n = 0 then 0 else Suc (bit_count (n div 2)))"

declare bit_count.simps [simp del]

text \<open>The float of a non-negative integer below \<open>2 ^ 53\<close>; larger ones lose their low bits.\<close>

definition f64_of_u64 :: "u64 \<Rightarrow> f64" where
  "f64_of_u64 u =
     (let n = bit_count (unat u) in
      if n = 0 then 0
      else push_bit 52 (of_nat (1022 + n))
        OR take_bit 52 (if n \<le> 53 then push_bit (53 - n) u else drop_bit (n - 53) u))"

fun ref_as_i64 :: "ref_num \<Rightarrow> i64 option" where
  "ref_as_i64 (PosInt u) = (if uint u < 2 ^ 63 then Some u else None)"
| "ref_as_i64 (NegInt i) = Some i"
| "ref_as_i64 (Float f) = None"

fun ref_as_u64 :: "ref_num \<Rightarrow> u64 option" where
  "ref_as_u64 (PosInt u) = Some u"
| "ref_as_u64 (NegInt i) = None"
| "ref_as_u64 (Float f) = None"

fun ref_as_f64 :: "ref_num \<Rightarrow> f64 option" where
  "ref_as_f64 (PosInt u) = Some (f64_of_u64 u)"
| "ref_as_f64 (NegInt i) = Some (f64_of_u64 (- i) OR push_bit 63 1)"
| "ref_as_f64 (Float f) = Some f"

definition ref_json :: "ref_num json_api" where
  "ref_json = \<lparr>as_i64 = ref_as_i64, as_u64 = ref_as_u64, as_f64 = ref_as_f64,
     is_f64 = (\<lambda>n. case n of Float f \<Rightarrow> True | _ \<Rightarrow> False),
     num_from_i64 = (\<lambda>i. if 0 \<le> sint i then PosInt i else NegInt i),
     num_from_u64 = PosInt,
     num_from_f64 = (\<lambda>f. if is_finite f then Some (Float f) else None),
     debug_value = (\<lambda>v. ''value'')\<rparr>"

lemma ref_as_f64_total: "ref_as_f64 n \<noteq> None"
  by (cases n) auto

lemma ref_json_laws: "json_laws ref_json"
  by (auto simp: json_laws_def ref_json_def sint_64_nonneg ref_as_f64_total [simplified]
      split: ref_num.splits)

end
