(* ===== verification/Rows.thy ===== *)
theory Rows
  imports Json Errors
begin

text \<open>
  Rows and parameters, \<open>src/rows.rs\<close>: the row record, parameter conversions and their serde
  encoding, index resolution and the typed getters. The getters share one contract, the
  locale \<open>lenient_getter\<close>, interpreted below on each of them.
\<close>

record 'n row =
  row_columns :: "string list"
  row_values :: "'n json list"

type_synonym 'n rows = "'n row list"

definition rows_len :: "'n rows \<Rightarrow> nat" where
  "rows_len rs = length rs"

definition rows_is_empty :: "'n rows \<Rightarrow> bool" where
  "rows_is_empty rs \<longleftrightarrow> rs = []"

datatype parameter =
    PNull
  | PBool bool
  | PInteger i64
  | PReal f64
  | PText string
  | PBlob "u8 list"

section \<open>Conversions into a parameter\<close>

text \<open>\<open>as i64\<close> sign-extends an \<open>i32\<close>, zero-extends a \<open>u32\<close>, keeps the bits of a \<open>usize\<close>.\<close>

definition param_from_i64 :: "i64 \<Rightarrow> parameter" where
  "param_from_i64 v = PInteger v"

definition param_from_i32 :: "i32 \<Rightarrow> parameter" where
  "param_from_i32 v = PInteger (scast v)"

definition param_from_u32 :: "u32 \<Rightarrow> parameter" where
  "param_from_u32 v = PInteger (ucast v)"

definition param_from_usize :: "u64 \<Rightarrow> parameter" where
  "param_from_usize v = PInteger v"

definition param_from_bool :: "bool \<Rightarrow> parameter" where
  "param_from_bool v = PBool v"

definition param_from_f64 :: "f64 \<Rightarrow> parameter" where
  "param_from_f64 v = PReal v"

definition param_from_string :: "string \<Rightarrow> parameter" where
  "param_from_string v = PText v"

definition param_from_str :: "string \<Rightarrow> parameter" where
  "param_from_str v = PText v"

definition param_from_bytes :: "u8 list \<Rightarrow> parameter" where
  "param_from_bytes v = PBlob v"

definition param_from_option_string :: "string option \<Rightarrow> parameter" where
  "param_from_option_string v = (case v of Some s \<Rightarrow> PText s | None \<Rightarrow> PNull)"

definition param_from_option_str :: "string option \<Rightarrow> parameter" where
  "param_from_option_str v = (case v of Some s \<Rightarrow> PText s | None \<Rightarrow> PNull)"

definition param_from_option_i64 :: "i64 option \<Rightarrow> parameter" where
  "param_from_option_i64 v = (case v of Some i \<Rightarrow> PInteger i | None \<Rightarrow> PNull)"

definition param_from_option_bool :: "bool option \<Rightarrow> parameter" where
  "param_from_option_bool v = (case v of Some b \<Rightarrow> PBool b | None \<Rightarrow> PNull)"

section \<open>Serde encoding of parameters\<close>

text \<open>The serializer call made for a parameter, and the visitor call made by a deserializer.\<close>

datatype ser_call = SUnit | SBool bool | SI64 i64 | SF64 f64 | SStr string | SBytes "u8 list"

datatype de_error = InvalidType | ElementError string | CustomError string

datatype visit_call =
    VNone | VUnit | VBool bool | VI64 i64 | VU64 u64 | VF64 f64 | VStr string | VString string
  | VBytes "u8 list" | VByteBuf "u8 list" | VSeq "(string + u64) list" | VOther

fun serialize_parameter :: "parameter \<Rightarrow> ser_call" where
  "serialize_parameter PNull = SUnit"
| "serialize_parameter (PBool b) = SBool b"
| "serialize_parameter (PInteger i) = SI64 i"
| "serialize_parameter (PReal f) = SF64 f"
| "serialize_parameter (PText s) = SStr s"
| "serialize_parameter (PBlob bs) = SBytes bs"

text \<open>The loop of \<open>visit_seq\<close>: elements decoded as \<open>u64\<close> until the sequence ends or one fails.\<close>

fun visit_seq :: "(string + u64) list \<Rightarrow> u8 list \<Rightarrow> de_error + parameter" where
  "visit_seq [] acc = Inr (PBlob acc)"
| "visit_seq (Inl e # es) acc = Inl (ElementError e)"
| "visit_seq (Inr v # es) acc =
     (case u8_try_from v of
        None \<Rightarrow> Inl (CustomError ''blob parameter values must fit in a byte'')
      | Some b \<Rightarrow> visit_seq es (acc @ [b]))"

fun visit_parameter :: "visit_call \<Rightarrow> de_error + parameter" where
  "visit_parameter VNone = Inr PNull"
| "visit_parameter VUnit = Inr PNull"
| "visit_parameter (VBool v) = Inr (PBool v)"
| "visit_parameter (VI64 v) = Inr (PInteger v)"
| "visit_parameter (VU64 v) = Inr (PInteger v)"
| "visit_parameter (VF64 v) = Inr (PReal v)"
| "visit_parameter (VStr v) = Inr (PText v)"
| "visit_parameter (VString v) = Inr (PText v)"
| "visit_parameter (VBytes v) = Inr (PBlob v)"
| "visit_parameter (VByteBuf v) = Inr (PBlob v)"
| "visit_parameter (VSeq es) = visit_seq es []"
| "visit_parameter VOther = Inl InvalidType"

text \<open>
  The JSON format, a parameter: the value a serializer call produces and the visitor call
  \<open>deserialize_any\<close> makes on a value. The laws are those of \<open>serde_json\<close>: byte strings become
  arrays of numbers, a non-finite float becomes \<open>null\<close>, integers come back as \<open>i64\<close> when
  negative and as \<open>u64\<close> otherwise.
\<close>

record 'n json_format =
  emit :: "ser_call \<Rightarrow> 'n json"
  drive :: "'n json \<Rightarrow> visit_call"

definition json_format_laws :: "'n json_format \<Rightarrow> bool" where
  "json_format_laws F \<longleftrightarrow>
     drive F (emit F SUnit) = VUnit \<and>
     (\<forall>b. drive F (emit F (SBool b)) = VBool b) \<and>
     (\<forall>i. drive F (emit F (SI64 i)) = (if 0 \<le> sint i then VU64 i else VI64 i)) \<and>
     (\<forall>f. drive F (emit F (SF64 f)) = (if is_finite f then VF64 f else VUnit)) \<and>
     (\<forall>s. drive F (emit F (SStr s)) \<in> {VStr s, VString s}) \<and>
     (\<forall>bs. drive F (emit F (SBytes bs)) = VSeq (map (\<lambda>b. Inr (ucast b)) bs))"

definition encode_parameter :: "'n json_format \<Rightarrow> parameter \<Rightarrow> 'n json" where
  "encode_parameter F p = emit F (serialize_parameter p)"

definition decode_parameter :: "'n json_format \<Rightarrow> 'n json \<Rightarrow> de_error + parameter" where
  "decode_parameter F v = visit_parameter (drive F v)"

lemma visit_seq_bytes: "visit_seq (map (\<lambda>b. Inr (ucast b)) bs) acc = Inr (PBlob (acc @ bs))"
  by (induction bs arbitrary: acc) auto

section \<open>Resolving an index\<close>

datatype row_index = ByPos nat | ByName string

fun position :: "('a \<Rightarrow> bool) \<Rightarrow> 'a list \<Rightarrow> nat option" where
  "position P [] = None"
| "position P (x # xs) = (if P x then Some 0 else map_option Suc (position P xs))"

text \<open>The \<open>RowIndex\<close> implementations of \<open>usize\<close>, \<open>&str\<close> and \<open>String\<close>.\<close>

fun index_in :: "row_index \<Rightarrow> 'n row \<Rightarrow> nat option" where
  "index_in (ByPos i) row = Some i"
| "index_in (ByName c) row = position (\<lambda>x. x = c) (row_columns row)"

fun dbg_index :: "row_index \<Rightarrow> frag" where
  "dbg_index (ByPos i) = Num (int i)"
| "dbg_index (ByName c) = Dbg c"

definition row_idx :: "'n row \<Rightarrow> row_index \<Rightarrow> nat result" where
  "row_idx row ix =
     rbind (ok_or (ColumnNotFound [dbg_index ix]) (index_in ix row))
       (\<lambda>i. if i < length (row_values row) then Inr i
            else Inl (ColumnNotFound [Txt ''index '', Num (int i), Txt '' out of bounds'']))"

text \<open>\<open>&self.values[i]\<close> for the resolved index; \<open>row_idx\<close> has checked the bound.\<close>

definition row_cell :: "'n row \<Rightarrow> row_index \<Rightarrow> 'n json result" where
  "row_cell row ix = rmap (\<lambda>i. row_values row ! i) (row_idx row ix)"

definition null_err :: "row_index \<Rightarrow> dactyl_error" where
  "null_err ix = Conversion [Txt ''column '', dbg_index ix,
     Txt '' is NULL; use Option<T> with get for nullable columns'']"

definition cannot_read :: "'n json_api \<Rightarrow> 'n json \<Rightarrow> string \<Rightarrow> row_index \<Rightarrow> dactyl_error" where
  "cannot_read J v ty ix = Conversion [Txt ''cannot read '', Txt (debug_value J v), Txt '' as '',
     Txt ty, Txt '' at column '', dbg_index ix]"

section \<open>The getters\<close>

text \<open>\<open>get\<close> is generic in the target type; \<open>from_value\<close> is its \<open>DeserializeOwned\<close>.\<close>

definition get :: "('n json \<Rightarrow> string + 't) \<Rightarrow> 'n row \<Rightarrow> row_index \<Rightarrow> 't result" where
  "get from_value row ix =
     rbind (row_cell row ix) (\<lambda>v.
       case from_value v of
         Inr x \<Rightarrow> Inr x
       | Inl e \<Rightarrow>
           if is_null v then Inl (null_err ix)
           else Inl (Conversion [Txt ''failed to convert column '', dbg_index ix,
                  Txt '' to target type: '', Txt e]))"

definition try_get :: "('n json \<Rightarrow> string + 't) \<Rightarrow> 'n row \<Rightarrow> row_index \<Rightarrow> 't result" where
  "try_get from_value row ix = get from_value row ix"

definition row_is_null :: "'n row \<Rightarrow> row_index \<Rightarrow> bool result" where
  "row_is_null row ix = rmap is_null (row_cell row ix)"

definition get_bool :: "'n json_api \<Rightarrow> 'n row \<Rightarrow> row_index \<Rightarrow> bool result" where
  "get_bool J row ix =
     rbind (row_cell row ix) (\<lambda>v.
       case v of
         JNull \<Rightarrow> Inl (null_err ix)
       | JBool b \<Rightarrow> Inr b
       | JNumber n \<Rightarrow>
           if as_i64 J n = Some 0 then Inr False
           else if as_i64 J n = Some 1 then Inr True
           else Inl (cannot_read J v ''bool'' ix)
       | _ \<Rightarrow> Inl (cannot_read J v ''bool'' ix))"

definition get_int :: "'n json_api \<Rightarrow> 'n row \<Rightarrow> row_index \<Rightarrow> i64 result" where
  "get_int J row ix =
     rbind (row_cell row ix) (\<lambda>v.
       case v of
         JNull \<Rightarrow> Inl (null_err ix)
       | JNumber n \<Rightarrow>
           ok_or (Conversion [Txt ''value is not i64 at column '', dbg_index ix]) (as_i64 J n)
       | _ \<Rightarrow> Inl (cannot_read J v ''i64'' ix))"

definition get_real :: "'n json_api \<Rightarrow> 'n row \<Rightarrow> row_index \<Rightarrow> f64 result" where
  "get_real J row ix =
     rbind (row_cell row ix) (\<lambda>v.
       case v of
         JNull \<Rightarrow> Inl (null_err ix)
       | JNumber n \<Rightarrow>
           ok_or (Conversion [Txt ''value is not f64 at column '', dbg_index ix]) (as_f64 J n)
       | _ \<Rightarrow> Inl (cannot_read J v ''f64'' ix))"

definition get_str :: "'n json_api \<Rightarrow> 'n row \<Rightarrow> row_index \<Rightarrow> string result" where
  "get_str J row ix =
     rbind (row_cell row ix) (\<lambda>v.
       case v of
         JNull \<Rightarrow> Inl (null_err ix)
       | JString s \<Rightarrow> Inr s
       | _ \<Rightarrow> Inl (cannot_read J v ''str'' ix))"

definition get_json :: "'n row \<Rightarrow> row_index \<Rightarrow> 'n json result" where
  "get_json row ix = row_cell row ix"

definition get_blob :: "'n json_api \<Rightarrow> 'n row \<Rightarrow> row_index \<Rightarrow> u8 list result" where
  "get_blob J row ix =
     rbind (row_cell row ix) (\<lambda>v.
       case v of
         JNull \<Rightarrow> Inl (null_err ix)
       | JArray vs \<Rightarrow>
           traverse (\<lambda>x. ok_or (Conversion [Txt ''blob cell at column '', dbg_index ix,
               Txt '' is not an array of bytes'']) (value_as_byte J x)) vs
       | _ \<Rightarrow> Inl (cannot_read J v ''blob'' ix))"

section \<open>Index resolution\<close>

lemma position_Some_iff:
  "position P xs = Some i \<longleftrightarrow> i < length xs \<and> P (xs ! i) \<and> (\<forall>x \<in> set (take i xs). \<not> P x)"
proof (induction xs arbitrary: i)
  case Nil
  then show ?case by simp
next
  case (Cons x xs)
  then show ?case by (cases i) auto
qed

lemma position_None_iff: "position P xs = None \<longleftrightarrow> (\<forall>x \<in> set xs. \<not> P x)"
  by (induction xs) auto

lemma row_idx_Inr_iff: "row_idx row ix = Inr i \<longleftrightarrow> index_in ix row = Some i \<and> i < length (row_values row)"
  by (auto simp: row_idx_def result_iffs split: if_splits)

lemma row_idx_error: "row_idx row ix = Inl e \<Longrightarrow> \<exists>m. e = ColumnNotFound m"
  by (auto simp: row_idx_def result_iffs split: if_splits)

lemma row_cell_Inr_iff:
  "row_cell row ix = Inr v \<longleftrightarrow>
     (\<exists>i. index_in ix row = Some i \<and> i < length (row_values row) \<and> v = row_values row ! i)"
  by (auto simp: row_cell_def result_iffs row_idx_Inr_iff)

lemma row_cell_error: "row_cell row ix = Inl e \<Longrightarrow> \<exists>m. e = ColumnNotFound m"
  by (auto simp: row_cell_def result_iffs dest: row_idx_error)

section \<open>The contract of the typed getters\<close>

text \<open>
  A getter resolves its index, refuses SQL NULL, and otherwise accepts exactly the cells that
  \<open>accept\<close> reads.
\<close>

locale lenient_getter =
  fixes getter :: "'n row \<Rightarrow> row_index \<Rightarrow> 'a result"
    and accept :: "'n json \<Rightarrow> 'a option"
  assumes missing: "row_cell row ix = Inl e \<Longrightarrow> getter row ix = Inl e"
    and null: "row_cell row ix = Inr JNull \<Longrightarrow> getter row ix = Inl (null_err ix)"
    and accepted: "row_cell row ix = Inr v \<Longrightarrow> accept v = Some x \<Longrightarrow> getter row ix = Inr x"
    and rejected: "row_cell row ix = Inr v \<Longrightarrow> accept v = None \<Longrightarrow> \<exists>m. getter row ix = Inl (Conversion m)"
begin

lemma ok_iff: "getter row ix = Inr x \<longleftrightarrow> (\<exists>v. row_cell row ix = Inr v \<and> accept v = Some x)"
proof (cases "row_cell row ix")
  case (Inl e)
  then show ?thesis by (simp add: missing)
next
  case (Inr v)
  show ?thesis
  proof (cases "accept v")
    case None
    with Inr show ?thesis using rejected by fastforce
  next
    case (Some y)
    with Inr show ?thesis by (auto simp: accepted)
  qed
qed

lemma not_found_iff: "(\<exists>m. getter row ix = Inl (ColumnNotFound m)) \<longleftrightarrow> (\<exists>e. row_idx row ix = Inl e)"
proof (cases "row_cell row ix")
  case (Inl e)
  then show ?thesis
    using row_cell_error [OF Inl] by (auto simp: missing row_cell_def result_iffs)
next
  case (Inr v)
  then have "\<nexists>m. getter row ix = Inl (ColumnNotFound m)"
    by (metis Inl_inject accepted dactyl_error.distinct(15) dactyl_error.distinct(17) dactyl_error.distinct(19)
        not_Some_eq old.sum.distinct(1) rejected)
  with Inr show ?thesis by (auto simp: row_cell_def result_iffs)
qed

lemma error_not_retryable: "getter row ix = Inl e \<Longrightarrow> \<not> is_retryable e"
proof (cases "row_cell row ix")
  case (Inl e')
  assume "getter row ix = Inl e"
  with Inl show ?thesis using row_cell_error [OF Inl] by (auto simp: missing)
next
  case (Inr v)
  assume g: "getter row ix = Inl e"
  show ?thesis
  proof (cases "accept v")
    case None
    with Inr g show ?thesis using rejected by fastforce
  next
    case (Some x)
    with Inr g show ?thesis by (simp add: accepted)
  qed
qed

text \<open>A name reads the same cell as the position of its first occurrence.\<close>

lemma by_name_first:
  "position (\<lambda>x. x = c) (row_columns row) = Some i \<Longrightarrow>
     (getter row (ByName c) = Inr x) = (getter row (ByPos i) = Inr x)"
  by (simp add: ok_iff row_cell_Inr_iff)

end

text \<open>What each getter accepts.\<close>

fun accept_bool :: "'n json_api \<Rightarrow> 'n json \<Rightarrow> bool option" where
  "accept_bool J (JBool b) = Some b"
| "accept_bool J (JNumber n) =
     (if as_i64 J n = Some 0 then Some False else if as_i64 J n = Some 1 then Some True else None)"
| "accept_bool J _ = None"

fun accept_int :: "'n json_api \<Rightarrow> 'n json \<Rightarrow> i64 option" where
  "accept_int J (JNumber n) = as_i64 J n"
| "accept_int J _ = None"

fun accept_real :: "'n json_api \<Rightarrow> 'n json \<Rightarrow> f64 option" where
  "accept_real J (JNumber n) = as_f64 J n"
| "accept_real J _ = None"

fun accept_blob :: "'n json_api \<Rightarrow> 'n json \<Rightarrow> u8 list option" where
  "accept_blob J (JArray vs) = those (map (value_as_byte J) vs)"
| "accept_blob J _ = None"

lemma traverse_those:
  "traverse (\<lambda>x. ok_or e (f x)) xs = (case those (map f xs) of Some ys \<Rightarrow> Inr ys | None \<Rightarrow> Inl e)"
  by (induction xs) (auto split: option.splits)

lemma those_Some_map: "those (map f xs) = Some ys \<longleftrightarrow> map f xs = map Some ys"
  by (induction xs arbitrary: ys) (auto split: option.splits simp: map_eq_Cons_conv)

lemma accept_blob_json: "json_laws J \<Longrightarrow> accept_blob J (blob_json J bs) = Some bs"
proof -
  assume "json_laws J"
  then have "map (value_as_byte J) (map (\<lambda>b. JNumber (num_from_u64 J (ucast b))) bs) = map Some bs"
    by simp
  then show ?thesis by (simp add: blob_json_def those_Some_map del: map_map)
qed

interpretation bool_getter: lenient_getter "get_bool J" "accept_bool J" for J :: "'n json_api"
  by unfold_locales (auto simp: get_bool_def null_err_def cannot_read_def split: json.splits)

interpretation int_getter: lenient_getter "get_int J" "accept_int J" for J :: "'n json_api"
  by unfold_locales (auto simp: get_int_def null_err_def cannot_read_def split: json.splits)

interpretation real_getter: lenient_getter "get_real J" "accept_real J" for J :: "'n json_api"
  by unfold_locales (auto simp: get_real_def null_err_def cannot_read_def split: json.splits)

interpretation str_getter: lenient_getter "get_str J" value_as_str for J :: "'n json_api"
  by unfold_locales (auto simp: get_str_def null_err_def cannot_read_def split: json.splits)

interpretation blob_getter: lenient_getter "get_blob J" "accept_blob J" for J :: "'n json_api"
  by unfold_locales
    (auto simp: get_blob_def null_err_def cannot_read_def traverse_those split: json.splits)

section \<open>Properties\<close>

text \<open>
  C18: a named lookup resolves to the leftmost column of that name, and only when the row has a
  value there: later duplicates are never returned, and no getter indexes out of range.
\<close>

theorem named_lookup_first_match:
  "row_idx row (ByName c) = Inr i \<longleftrightarrow>
     i < length (row_columns row) \<and> i < length (row_values row) \<and>
     row_columns row ! i = c \<and> c \<notin> set (take i (row_columns row))"
  by (auto simp: row_idx_Inr_iff position_Some_iff)

text \<open>
  C17: the error classes of the typed getters. An index that does not resolve is
  \<open>ColumnNotFound\<close> from every getter; a SQL NULL cell is a \<open>Conversion\<close> error carrying the
  NULL hint from every typed getter, and \<open>row_is_null\<close> and \<open>get_json\<close> still return it.
\<close>

theorem getters_null_and_missing:
  assumes "row_cell row ix = Inr JNull" and "row_idx row miss = Inl e"
  shows "get_bool J row ix = Inl (null_err ix) \<and> get_int J row ix = Inl (null_err ix) \<and>
     get_real J row ix = Inl (null_err ix) \<and> get_str J row ix = Inl (null_err ix) \<and>
     get_blob J row ix = Inl (null_err ix) \<and>
     row_is_null row ix = Inr True \<and> get_json row ix = Inr JNull \<and>
     (\<exists>m. get_bool J row miss = Inl (ColumnNotFound m)) \<and>
     (\<exists>m. get_int J row miss = Inl (ColumnNotFound m)) \<and>
     (\<exists>m. get_real J row miss = Inl (ColumnNotFound m)) \<and>
     (\<exists>m. get_str J row miss = Inl (ColumnNotFound m)) \<and>
     (\<exists>m. get_blob J row miss = Inl (ColumnNotFound m)) \<and>
     (\<exists>m. get_json row miss = Inl (ColumnNotFound m))"
  using assms bool_getter.not_found_iff [of J row miss] int_getter.not_found_iff [of J row miss]
    real_getter.not_found_iff [of J row miss] str_getter.not_found_iff [of J row miss]
    blob_getter.not_found_iff [of J row miss] row_idx_error [of row miss e]
  by (auto simp: bool_getter.null int_getter.null real_getter.null str_getter.null blob_getter.null
      row_is_null_def get_json_def row_cell_def)

definition sample_row :: "ref_num row" where
  "sample_row = \<lparr>row_columns = [''id'', ''flag'', ''gone'', ''name'', ''name''],
     row_values = [JNumber (PosInt 42), JNumber (PosInt 1), JNull, JString ''first'', JString ''second'']\<rparr>"

theorem getters_null_and_missing_witness:
  "get_int ref_json sample_row (ByName ''gone'') = Inl (null_err (ByName ''gone'')) \<and>
   (\<exists>m. get_int ref_json sample_row (ByName ''nope'') = Inl (ColumnNotFound m))"
proof -
  have "row_cell sample_row (ByName ''gone'') = Inr JNull"
    by (simp add: sample_row_def row_cell_def row_idx_def)
  moreover have "row_idx sample_row (ByName ''nope'') = Inl (ColumnNotFound [Dbg ''nope''])"
    by (simp add: sample_row_def row_idx_def)
  ultimately show ?thesis
    using getters_null_and_missing [of sample_row "ByName ''gone''" "ByName ''nope''" _ ref_json] by blast
qed

text \<open>
  \<open>get_bool\<close> is lenient exactly as documented: it accepts a JSON boolean and the integers 0
  and 1, as the SQLite adapter stores booleans, and nothing else.
\<close>

theorem get_bool_accepts:
  "get_bool J row ix = Inr b \<longleftrightarrow>
     (\<exists>v. row_cell row ix = Inr v \<and>
       (v = JBool b \<or> (\<exists>n. v = JNumber n \<and> as_i64 J n = Some (if b then 1 else 0))))"
proof -
  have "accept_bool J v = Some b \<longleftrightarrow>
      v = JBool b \<or> (\<exists>n. v = JNumber n \<and> as_i64 J n = Some (if b then 1 else 0))" for v
    by (cases v) auto
  then show ?thesis by (simp add: bool_getter.ok_iff)
qed

text \<open>
  C16: the canonical blob cell round-trips: the array of byte numbers an adapter builds from a
  byte string reads back as that byte string, the empty one included.
\<close>

theorem blob_cell_round_trip:
  assumes "json_laws J" and "row_cell row ix = Inr (blob_json J bs)"
  shows "get_blob J row ix = Inr bs"
  using assms(2) accept_blob_json [OF assms(1)] by (simp add: blob_getter.ok_iff)

theorem blob_cell_round_trip_witness:
  "get_blob ref_json \<lparr>row_columns = [''b''], row_values = [blob_json ref_json [0, 255]]\<rparr> (ByName ''b'')
     = Inr [0, 255]"
  by (rule blob_cell_round_trip [OF ref_json_laws]) (simp add: row_cell_def row_idx_def)

text \<open>
  C15: parameters survive their JSON encoding: every parameter decodes to itself, except a
  non-finite real, which JSON cannot carry and which comes back as NULL.
\<close>

theorem parameter_json_round_trip:
  assumes "json_format_laws F"
  shows "decode_parameter F (encode_parameter F p) =
           Inr (case p of PReal f \<Rightarrow> if is_finite f then p else PNull | _ \<Rightarrow> p)"
proof (cases p)
  case (PText s)
  have "drive F (emit F (SStr s)) \<in> {VStr s, VString s}"
    using assms by (simp add: json_format_laws_def)
  with PText show ?thesis by (auto simp: decode_parameter_def encode_parameter_def)
next
  case (PBlob bs)
  with assms visit_seq_bytes [of bs "[]"] show ?thesis
    by (simp add: decode_parameter_def encode_parameter_def json_format_laws_def)
qed (use assms in \<open>auto simp: decode_parameter_def encode_parameter_def json_format_laws_def\<close>)

fun ref_emit :: "ser_call \<Rightarrow> ref_num json" where
  "ref_emit SUnit = JNull"
| "ref_emit (SBool b) = JBool b"
| "ref_emit (SI64 i) = JNumber (num_from_i64 ref_json i)"
| "ref_emit (SF64 f) = (if is_finite f then JNumber (Float f) else JNull)"
| "ref_emit (SStr s) = JString s"
| "ref_emit (SBytes bs) = blob_json ref_json bs"

fun ref_drive :: "ref_num json \<Rightarrow> visit_call" where
  "ref_drive JNull = VUnit"
| "ref_drive (JBool b) = VBool b"
| "ref_drive (JNumber (PosInt u)) = VU64 u"
| "ref_drive (JNumber (NegInt i)) = VI64 i"
| "ref_drive (JNumber (Float f)) = VF64 f"
| "ref_drive (JString s) = VString s"
| "ref_drive (JArray vs) = VSeq (map (\<lambda>v. case value_as_u64 ref_json v of
     Some u \<Rightarrow> Inr u | None \<Rightarrow> Inl ''expected u64'') vs)"
| "ref_drive (JObject es) = VOther"

definition ref_format :: "ref_num json_format" where
  "ref_format = \<lparr>emit = ref_emit, drive = ref_drive\<rparr>"

lemma ref_format_laws: "json_format_laws ref_format"
  by (auto simp: json_format_laws_def ref_format_def blob_json_def ref_json_def)

theorem parameter_json_round_trip_witness:
  "decode_parameter ref_format (encode_parameter ref_format (PBlob [1, 2, 3])) = Inr (PBlob [1, 2, 3])"
  using parameter_json_round_trip [OF ref_format_laws, of "PBlob [1, 2, 3]"] by simp

text \<open>
  C23: the integer conversions into a bound parameter. From \<open>i32\<close> and \<open>u32\<close> the value is kept;
  from \<open>usize\<close>, and when a parameter is decoded from an unsigned JSON integer, it is kept
  exactly below \<open>2 ^ 63\<close> and becomes the negative number \<open>2 ^ 64\<close> smaller above.
\<close>

theorem integer_parameter_casts:
  "\<exists>a b c d.
     param_from_i32 x = PInteger a \<and> sint a = sint x \<and>
     param_from_u32 y = PInteger b \<and> sint b = uint y \<and>
     param_from_usize z = PInteger c \<and> visit_parameter (VU64 z) = Inr (PInteger d) \<and> d = c \<and>
     sint c = (if uint z < 2 ^ 63 then uint z else uint z - 2 ^ 64)"
proof -
  have "sint (scast x :: i64) = sint x"
    by (simp add: sint_up_scast is_up)
  moreover have "sint (ucast y :: i64) = uint y"
  proof -
    have "uint (ucast y :: i64) = uint y" by (simp add: uint_up_ucast is_up)
    moreover have "uint y < 2 ^ 63" using uint_lt2p [of y] by simp
    ultimately show ?thesis by (simp add: sint_64)
  qed
  ultimately show ?thesis
    by (simp add: param_from_i32_def param_from_u32_def param_from_usize_def sint_64)
qed

end
