(* ===== verification/Contract.thy ===== *)
theory Contract
  imports Rows
begin

text \<open>
  The backend-neutral operations and results of \<open>src/contract.rs\<close> and the schema description
  of \<open>src/schema.rs\<close>: the caller's storage context, operations, write and batch results, open
  options, maintenance reports, and the catalog types with their lookups.
\<close>

section \<open>Storage context\<close>

definition storage_context_version :: u16 where
  "storage_context_version = 1"

record 'n storage_context =
  ctx_version :: u16
  ctx_payload :: "'n json"

definition invalid_context :: "string \<Rightarrow> dactyl_error" where
  "invalid_context msg = adapter_with_code Protocol ''invalid_context'' [Txt msg]"

definition validate_context :: "'n storage_context \<Rightarrow> unit result" where
  "validate_context c =
     (if ctx_version c = 0
      then Inl (invalid_context ''storage context version must be non-zero'')
      else if \<not> is_object (ctx_payload c)
      then Inl (invalid_context ''storage context payload must be a JSON object'')
      else Inr ())"

definition new_context :: "u16 \<Rightarrow> 'n json \<Rightarrow> 'n storage_context result" where
  "new_context version payload =
     (let c = \<lparr>ctx_version = version, ctx_payload = payload\<rparr>
      in rbind (validate_context c) (\<lambda>_. Inr c))"

section \<open>Operations and results\<close>

datatype access_mode = ReadWrite | ReadOnly

datatype operation_kind = ReadOp | WriteOp | SchemaOp

record operation =
  op_kind :: operation_kind
  op_sql :: string
  op_params :: "parameter list"

definition operation_read :: "string \<Rightarrow> parameter list \<Rightarrow> operation" where
  "operation_read sql params = \<lparr>op_kind = ReadOp, op_sql = sql, op_params = params\<rparr>"

definition operation_write :: "string \<Rightarrow> parameter list \<Rightarrow> operation" where
  "operation_write sql params = \<lparr>op_kind = WriteOp, op_sql = sql, op_params = params\<rparr>"

definition operation_schema :: "string \<Rightarrow> parameter list \<Rightarrow> operation" where
  "operation_schema sql params = \<lparr>op_kind = SchemaOp, op_sql = sql, op_params = params\<rparr>"

datatype generated_key = KInteger i64 | KText string

record write_result =
  affected_rows :: u64
  generated_keys :: "generated_key list"

definition default_write_result :: write_result where
  "default_write_result = \<lparr>affected_rows = 0, generated_keys = []\<rparr>"

definition generated_key_of :: "write_result \<Rightarrow> generated_key option" where
  "generated_key_of w = (case generated_keys w of [] \<Rightarrow> None | k # _ \<Rightarrow> Some k)"

datatype 'n operation_result = RowsResult "'n rows" | Written write_result

text \<open>\<open>AtomicResult\<close> holds the list of results; its default is the empty one.\<close>

type_synonym 'n atomic_result = "'n operation_result list"

text \<open>\<open>Duration\<close> in nanoseconds.\<close>

record open_options =
  open_access_mode :: access_mode
  lock_timeout :: nat

definition default_open_options :: open_options where
  "default_open_options = \<lparr>open_access_mode = ReadWrite, lock_timeout = 250 * 1000000\<rparr>"

definition as_millis :: "nat \<Rightarrow> nat" where
  "as_millis d = d div 1000000"

lemma as_millis_code [code]: "as_millis d = nat (int d div 1000000)"
  by (simp add: as_millis_def nat_div_distrib)

datatype recovery_journal_mode = Delete

record recovery_options =
  preserve_original_at :: string
  recovery_mode :: recovery_journal_mode

definition new_recovery_options :: "string \<Rightarrow> recovery_journal_mode \<Rightarrow> recovery_options" where
  "new_recovery_options path mode = \<lparr>preserve_original_at = path, recovery_mode = mode\<rparr>"

record integrity_report =
  report_journal_mode :: string
  report_user_version :: i64
  report_application_id :: i64

record backup_result =
  backup_destination :: string
  source_journal_mode :: string
  destination_journal_mode :: string
  backup_bytes :: nat

record recovery_result =
  active_path :: string
  preserved_original_path :: string
  result_journal_mode :: recovery_journal_mode
  result_user_version :: i64
  result_application_id :: i64

text \<open>An operation and the result it must have: rows for a read, a write result otherwise.\<close>

fun result_fits :: "operation \<Rightarrow> 'n operation_result \<Rightarrow> bool" where
  "result_fits op (RowsResult rs) = (op_kind op = ReadOp)"
| "result_fits op (Written w) = (op_kind op \<noteq> ReadOp)"

definition mutates :: "operation list \<Rightarrow> bool" where
  "mutates ops \<longleftrightarrow> list_ex (\<lambda>op. op_kind op \<noteq> ReadOp) ops"

section \<open>Schema description\<close>

datatype foreign_key_action = NoAction | Restrict | Cascade | SetNull | SetDefault

record foreign_key_schema =
  fk_columns :: "string list"
  fk_ref_table :: string
  fk_ref_columns :: "string list"
  fk_on_delete :: foreign_key_action

record index_schema =
  index_name :: string
  index_table :: string
  index_columns :: "string list"
  index_unique :: bool

record 'n column_schema =
  col_name :: string
  col_primary_key :: bool
  col_unique :: bool
  col_not_null :: bool
  col_default :: "'n json option"

record 'n table_schema =
  table_name :: string
  table_columns :: "'n column_schema list"
  unique_constraints :: "string list list"
  table_foreign_keys :: "foreign_key_schema list"
  table_row_count :: u64

record 'n store_schema =
  format_version :: u32
  tables :: "'n table_schema list"
  indexes :: "index_schema list"

definition schema_table :: "'n store_schema \<Rightarrow> string \<Rightarrow> 'n table_schema option" where
  "schema_table s name =
     (let needle = to_ascii_lowercase name
      in find (\<lambda>t. table_name t = needle \<or> table_name t = name) (tables s))"

text \<open>The sum of \<open>u64\<close> counts, wrapping as it does without overflow checks.\<close>

definition schema_row_count :: "'n store_schema \<Rightarrow> u64" where
  "schema_row_count s = sum_list (map table_row_count (tables s))"

section \<open>Facts\<close>

lemma validate_context_iff:
  "validate_context c = Inr u \<longleftrightarrow> ctx_version c \<noteq> 0 \<and> is_object (ctx_payload c)"
  by (simp add: validate_context_def)

lemma validate_context_error:
  "validate_context c = Inl e \<Longrightarrow> adapter_kind e = Some Protocol \<and> adapter_code e = Some ''invalid_context''"
  by (auto simp: validate_context_def invalid_context_def split: if_splits)

lemma mutates_iff: "mutates ops \<longleftrightarrow> (\<exists>op \<in> set ops. op_kind op \<noteq> ReadOp)"
  by (simp add: mutates_def list_ex_iff)

lemma mutates_Cons [simp]: "mutates (op # ops) \<longleftrightarrow> op_kind op \<noteq> ReadOp \<or> mutates ops"
  by (simp add: mutates_def)

lemma mutates_Nil [simp]: "\<not> mutates []"
  by (simp add: mutates_def)

text \<open>
  C21: a storage context is accepted exactly when its version is non-zero and its payload is a
  JSON object; what is accepted is kept unchanged, and every rejection is the stable
  \<open>invalid_context\<close> protocol error.
\<close>

theorem new_context_accepts:
  "(new_context version payload = Inr c \<longleftrightarrow>
      version \<noteq> 0 \<and> is_object payload \<and> c = \<lparr>ctx_version = version, ctx_payload = payload\<rparr>) \<and>
   (isl (new_context version payload) \<longleftrightarrow>
      adapter_code (projl (new_context version payload)) = Some ''invalid_context'' \<and>
      \<not> (version \<noteq> 0 \<and> is_object payload))"
  by (auto simp: new_context_def validate_context_def invalid_context_def Let_def)

text \<open>
  The table lookup returns the first table whose name is the one asked for or its
  lower-case form, and nothing only when no table has either name.
\<close>

theorem schema_table_lookup:
  "(schema_table s name = Some t \<longleftrightarrow>
      (\<exists>us vs. tables s = us @ t # vs \<and> table_name t \<in> {name, to_ascii_lowercase name} \<and>
         table_name ` set us \<inter> {name, to_ascii_lowercase name} = {})) \<and>
   (schema_table s name = None \<longleftrightarrow>
      table_name ` set (tables s) \<inter> {name, to_ascii_lowercase name} = {})"
proof -
  have names: "table_name ` A \<inter> {name, to_ascii_lowercase name} = {} \<longleftrightarrow>
      (\<forall>u \<in> A. \<not> (table_name u = to_ascii_lowercase name \<or> table_name u = name))" for A
    by blast
  show ?thesis
    unfolding schema_table_def Let_def find_Some_split find_None_iff names by auto
qed

end
