(* ===== verification/Sql_Text.thy ===== *)
theory Sql_Text
  imports Contract
begin

text \<open>
  The small SQL text functions of \<open>src/adapter/sqlite/mod.rs\<close>: statement classification,
  identifier quoting, catalog defaults and foreign-key actions. Each is proved against an
  independent reading of the text: a quote-parity scan, a lexer for quoted identifiers, a
  printer.
\<close>

definition first_word :: "string \<Rightarrow> string option" where
  "first_word sql = map_option (\<lambda>word. to_ascii_lowercase (trim_chars '';'' word)) (first_piece sql)"

definition is_query :: "string option \<Rightarrow> bool" where
  "is_query first \<longleftrightarrow>
     first \<in> {Some ''select'', Some ''with'', Some ''pragma'', Some ''explain'', Some ''values''}"

abbreviation quote_char :: char where
  "quote_char \<equiv> CHR 0x27"

abbreviation dquote_char :: char where
  "dquote_char \<equiv> CHR 0x22"

text \<open>
  The loop of \<open>has_multiple_statements\<close>. It looks at characters; all characters it tests are
  ASCII, so stepping by bytes is the same, and the remainder after a \<open>;\<close> starts a character.
\<close>

fun scan_statements :: "bool \<Rightarrow> string \<Rightarrow> bool" where
  "scan_statements quoted [] = False"
| "scan_statements quoted (c # s) =
     (if c = quote_char then
        (if quoted then
           (case s of
              [] \<Rightarrow> scan_statements False s
            | d # s1 \<Rightarrow> if d = quote_char then scan_statements True s1 else scan_statements False s)
         else scan_statements True s)
      else if c = CHR '';'' \<and> \<not> quoted \<and> trim_start s \<noteq> [] then True
      else scan_statements quoted s)"

definition has_multiple_statements :: "string \<Rightarrow> bool" where
  "has_multiple_statements sql = scan_statements False sql"

definition quote_identifier :: "string \<Rightarrow> string" where
  "quote_identifier value = [dquote_char] @ double_char dquote_char value @ [dquote_char]"

text \<open>\<open>serde_json::from_str\<close> is the parameter \<open>parse\<close>.\<close>

definition default_value :: "(string \<Rightarrow> 'n json option) \<Rightarrow> string \<Rightarrow> 'n json" where
  "default_value parse value =
     (let trimmed = trim value in
      if eq_ignore_ascii_case trimmed ''null'' then JNull
      else if starts_with trimmed [quote_char] \<and> ends_with trimmed [quote_char] \<and> 2 \<le> length trimmed
      then JString (undouble_char quote_char (butlast (tl trimmed)))
      else (case parse trimmed of Some v \<Rightarrow> v | None \<Rightarrow> JString trimmed))"

definition foreign_key_action_of :: "string \<Rightarrow> foreign_key_action" where
  "foreign_key_action_of action =
     (let a = to_ascii_uppercase action in
      if a = ''CASCADE'' then Cascade
      else if a = ''SET NULL'' then SetNull
      else if a = ''SET DEFAULT'' then SetDefault
      else if a = ''NO ACTION'' then NoAction
      else if a = ''RESTRICT'' then Restrict
      else NoAction)"

section \<open>Statement scanning\<close>

text \<open>
  The reference reading: some \<open>;\<close> stands where the quotes before it are balanced, with more
  than white space after it.
\<close>

definition splits_at :: "bool \<Rightarrow> string \<Rightarrow> bool" where
  "splits_at quoted s \<longleftrightarrow>
     (\<exists>pre post. s = pre @ CHR '';'' # post \<and> trim_start post \<noteq> [] \<and>
        odd (count_list pre quote_char) = quoted)"

lemma splits_atI:
  "s = pre @ CHR '';'' # post \<Longrightarrow> trim_start post \<noteq> [] \<Longrightarrow>
     odd (count_list pre quote_char) = q \<Longrightarrow> splits_at q s"
  unfolding splits_at_def by blast

lemma splits_at_Nil [simp]: "\<not> splits_at q []"
  by (simp add: splits_at_def)

lemma splits_at_Cons:
  "splits_at q (c # s) \<longleftrightarrow>
     (c = CHR '';'' \<and> \<not> q \<and> trim_start s \<noteq> []) \<or> splits_at (if c = quote_char then \<not> q else q) s"
  (is "?l \<longleftrightarrow> ?here \<or> ?later")
proof
  assume ?l
  then obtain pre post where p: "c # s = pre @ CHR '';'' # post" "trim_start post \<noteq> []"
    "odd (count_list pre quote_char) = q" by (auto simp: splits_at_def)
  show "?here \<or> ?later"
  proof (cases pre)
    case Nil
    with p show ?thesis by auto
  next
    case (Cons d pre1)
    with p have s: "d = c" "s = pre1 @ CHR '';'' # post" by auto
    with p Cons have "odd (count_list pre1 quote_char) = (if c = quote_char then \<not> q else q)"
      by auto
    with p(2) s(2) have ?later by (intro splits_atI [of _ pre1 post])
    then show ?thesis by blast
  qed
next
  assume "?here \<or> ?later"
  then show ?l
  proof
    assume ?here
    then have "c # s = [] @ CHR '';'' # s \<and> trim_start s \<noteq> [] \<and> odd (count_list [] quote_char) = q"
      by simp
    then show ?l unfolding splits_at_def by blast
  next
    assume ?later
    then obtain pre post where "s = pre @ CHR '';'' # post" "trim_start post \<noteq> []"
      "odd (count_list pre quote_char) = (if c = quote_char then \<not> q else q)"
      by (auto simp: splits_at_def)
    then have "c # s = (c # pre) @ CHR '';'' # post \<and> trim_start post \<noteq> [] \<and>
        odd (count_list (c # pre) quote_char) = q"
      by (auto split: if_splits)
    then show ?l unfolding splits_at_def by blast
  qed
qed

lemma scan_statements_splits_at: "scan_statements q s = splits_at q s"
proof (induction q s rule: scan_statements.induct)
  case (1 q)
  then show ?case by simp
next
  case (2 q c s)
  then show ?case by (cases s) (auto simp: splits_at_Cons)
qed

text \<open>
  C13: statement splitting agrees with its reference reading: text is taken for several
  statements exactly when a semicolon outside single quotes is followed by more than white
  space, doubled quotes inside a literal included.
\<close>

theorem has_multiple_statements_spec:
  "has_multiple_statements sql \<longleftrightarrow>
     (\<exists>pre post. sql = pre @ CHR '';'' # post \<and> trim_start post \<noteq> [] \<and>
        even (count_list pre quote_char))"
  by (simp add: has_multiple_statements_def scan_statements_splits_at splits_at_def)

section \<open>Quoted identifiers\<close>

text \<open>
  How SQL reads a double-quoted identifier: up to the first quote that is not doubled. The
  result is the identifier and the text after it.
\<close>

fun lex_quoted_body :: "string \<Rightarrow> (string \<times> string) option" where
  "lex_quoted_body [] = None"
| "lex_quoted_body [a] = (if a = dquote_char then Some ([], []) else None)"
| "lex_quoted_body (a # b # s) =
     (if a = dquote_char then
        (if b = dquote_char then map_option (apfst (Cons a)) (lex_quoted_body s) else Some ([], b # s))
      else map_option (apfst (Cons a)) (lex_quoted_body (b # s)))"

fun lex_identifier :: "string \<Rightarrow> (string \<times> string) option" where
  "lex_identifier (c # s) = (if c = dquote_char then lex_quoted_body s else None)"
| "lex_identifier [] = None"

lemma lex_quoted_body_double:
  "rest = [] \<or> hd rest \<noteq> dquote_char \<Longrightarrow>
     lex_quoted_body (double_char dquote_char s @ dquote_char # rest) = Some (s, rest)"
proof (induction s)
  case Nil
  then show ?case by (cases rest) auto
next
  case (Cons c s)
  show ?case
  proof (cases "c = dquote_char")
    case True
    with Cons show ?thesis by simp
  next
    case False
    obtain b t where t: "double_char dquote_char s @ dquote_char # rest = b # t"
      by (cases "double_char dquote_char s") auto
    with False Cons show ?thesis by simp
  qed
qed

text \<open>
  C14: identifier quoting cannot be escaped: wherever the quoted name is spliced into SQL, the
  reader recovers exactly the name and resumes exactly at the following text, whatever quotes,
  semicolons or keywords the name contains.
\<close>

theorem quote_identifier_round_trip:
  assumes "rest = [] \<or> hd rest \<noteq> dquote_char"
  shows "lex_identifier (quote_identifier name @ rest) = Some (name, rest)"
  using lex_quoted_body_double [OF assms, of name] by (simp add: quote_identifier_def)

theorem quote_identifier_round_trip_witness:
  "lex_identifier (quote_identifier (''a'' @ [dquote_char] @ ''; drop table t'') @ '' (x)'')
     = Some (''a'' @ [dquote_char] @ ''; drop table t'', '' (x)'')"
  by (rule quote_identifier_round_trip) simp

section \<open>Catalog defaults and actions\<close>

lemma last_quote_no_ws: "ws_suffix_len (s @ [quote_char]) = 0"
proof -
  have one: "ws_len (bytes (drop (length (s @ [quote_char]) - 1) (s @ [quote_char]))) \<noteq> 1"
    by simp
  have two: "ws_len (bytes (drop (length (s @ [quote_char]) - 2) (s @ [quote_char]))) \<noteq> 2"
  proof (cases s rule: rev_cases)
    case (snoc t a)
    then have "drop (length (s @ [quote_char]) - 2) (s @ [quote_char]) = [a, quote_char]" by simp
    then show ?thesis by auto
  qed simp
  have three: "ws_len (bytes (drop (length (s @ [quote_char]) - 3) (s @ [quote_char]))) \<noteq> 3"
  proof (cases s rule: rev_cases)
    case (snoc t b)
    then show ?thesis
    proof (cases t rule: rev_cases)
      case (snoc u a)
      with \<open>s = t @ [b]\<close>
      have "drop (length (s @ [quote_char]) - 3) (s @ [quote_char]) = [a, b, quote_char]" by simp
      then show ?thesis by auto
    qed auto
  qed simp
  from one two three show ?thesis unfolding ws_suffix_len_def by simp
qed

lemma ws_len_quote: "ws_len (bytes (quote_char # s)) = 0"
  by (cases "bytes (quote_char # s)" rule: ws_len.cases) auto

lemma trim_quoted: "trim (quote_char # s @ [quote_char]) = quote_char # s @ [quote_char]"
  using last_quote_no_ws [of "quote_char # s"] ws_len_quote [of "s @ [quote_char]"]
  by (simp add: trim_def trim_start_id trim_end_id)

definition print_text_literal :: "string \<Rightarrow> string" where
  "print_text_literal s = [quote_char] @ double_char quote_char s @ [quote_char]"

text \<open>
  C22: a text default recorded in the catalog is read back as the text it denotes: parsing the
  SQL literal of any string, its quotes doubled, yields that string.
\<close>

theorem default_value_text_round_trip:
  "default_value parse (print_text_literal s) = JString s"
proof -
  let ?q = "quote_char # double_char quote_char s @ [quote_char]"
  have "trim ?q = ?q" by (rule trim_quoted)
  moreover have "\<not> eq_ignore_ascii_case ?q ''null''"
    by (simp add: eq_ignore_ascii_case_def to_ascii_lowercase_def ascii_lower_def)
  moreover have "starts_with ?q [quote_char] \<and> ends_with ?q [quote_char]"
    by (simp add: ends_with_def)
  moreover have "butlast (tl ?q) = double_char quote_char s" by simp
  ultimately show ?thesis
    by (simp add: default_value_def print_text_literal_def undouble_double)
qed

fun print_action :: "foreign_key_action \<Rightarrow> string" where
  "print_action NoAction = ''NO ACTION''"
| "print_action Restrict = ''RESTRICT''"
| "print_action Cascade = ''CASCADE''"
| "print_action SetNull = ''SET NULL''"
| "print_action SetDefault = ''SET DEFAULT''"

lemma foreign_key_action_print:
  "to_ascii_uppercase s = print_action a \<Longrightarrow> foreign_key_action_of s = a"
  by (cases a) (simp_all add: foreign_key_action_of_def)

end
