(* ===== verification/Sqlite_Api.thy ===== *)
theory Sqlite_Api
  imports Sql_Text
begin

text \<open>
  The host SQLite library as the driver uses it, \<open>src/adapter/sqlite/ffi.rs\<close>. SQLite is not
  part of the repository: its functions are the fields of \<open>'w sqlite_api\<close>, each taking and
  returning a world. Handles are numbers, 0 the null pointer; C strings are their (lossily
  decoded) text; memory behind a returned pointer is \<open>None\<close> for a null pointer. The rest of
  the file (loading the library, candidate names, reading a failure) is modelled in full, with
  the mapping of failures to typed errors from \<open>src/adapter/sqlite/mod.rs\<close>.
\<close>

record 'w sqlite_api =
  open_v2 :: "string \<Rightarrow> int \<Rightarrow> 'w \<Rightarrow> (int \<times> nat) \<times> 'w"
  close_db :: "nat \<Rightarrow> 'w \<Rightarrow> int \<times> 'w"
  errmsg :: "nat \<Rightarrow> 'w \<Rightarrow> string option"
  errcode :: "nat \<Rightarrow> 'w \<Rightarrow> int"
  extended_errcode :: "nat \<Rightarrow> 'w \<Rightarrow> int"
  busy_timeout :: "nat \<Rightarrow> int \<Rightarrow> 'w \<Rightarrow> int \<times> 'w"
  exec :: "nat \<Rightarrow> string \<Rightarrow> 'w \<Rightarrow> int \<times> 'w"
  prepare_v2 :: "nat \<Rightarrow> string \<Rightarrow> 'w \<Rightarrow> (int \<times> nat) \<times> 'w"
  finalize :: "nat \<Rightarrow> 'w \<Rightarrow> int \<times> 'w"
  bind_null :: "nat \<Rightarrow> int \<Rightarrow> 'w \<Rightarrow> int \<times> 'w"
  bind_int64 :: "nat \<Rightarrow> int \<Rightarrow> i64 \<Rightarrow> 'w \<Rightarrow> int \<times> 'w"
  bind_double :: "nat \<Rightarrow> int \<Rightarrow> f64 \<Rightarrow> 'w \<Rightarrow> int \<times> 'w"
  bind_text :: "nat \<Rightarrow> int \<Rightarrow> string \<Rightarrow> 'w \<Rightarrow> int \<times> 'w"
  bind_blob :: "nat \<Rightarrow> int \<Rightarrow> u8 list \<Rightarrow> 'w \<Rightarrow> int \<times> 'w"
  step :: "nat \<Rightarrow> 'w \<Rightarrow> int \<times> 'w"
  column_count :: "nat \<Rightarrow> 'w \<Rightarrow> int"
  column_name :: "nat \<Rightarrow> int \<Rightarrow> 'w \<Rightarrow> string option"
  column_type :: "nat \<Rightarrow> int \<Rightarrow> 'w \<Rightarrow> int"
  column_int64 :: "nat \<Rightarrow> int \<Rightarrow> 'w \<Rightarrow> i64"
  column_double :: "nat \<Rightarrow> int \<Rightarrow> 'w \<Rightarrow> f64"
  column_text :: "nat \<Rightarrow> int \<Rightarrow> 'w \<Rightarrow> u8 list option"
  column_bytes :: "nat \<Rightarrow> int \<Rightarrow> 'w \<Rightarrow> int"
  column_blob :: "nat \<Rightarrow> int \<Rightarrow> 'w \<Rightarrow> u8 list option"
  changes64 :: "nat \<Rightarrow> 'w \<Rightarrow> i64"
  last_insert_rowid :: "nat \<Rightarrow> 'w \<Rightarrow> i64"
  backup_init :: "nat \<Rightarrow> string \<Rightarrow> nat \<Rightarrow> string \<Rightarrow> 'w \<Rightarrow> nat \<times> 'w"
  backup_step :: "nat \<Rightarrow> int \<Rightarrow> 'w \<Rightarrow> int \<times> 'w"
  backup_finish :: "nat \<Rightarrow> 'w \<Rightarrow> int \<times> 'w"

section \<open>Result codes\<close>

abbreviation SQLITE_OK :: int where "SQLITE_OK \<equiv> 0"
abbreviation SQLITE_ERROR :: int where "SQLITE_ERROR \<equiv> 1"
abbreviation SQLITE_BUSY :: int where "SQLITE_BUSY \<equiv> 5"
abbreviation SQLITE_LOCKED :: int where "SQLITE_LOCKED \<equiv> 6"
abbreviation SQLITE_READONLY :: int where "SQLITE_READONLY \<equiv> 8"
abbreviation SQLITE_IOERR :: int where "SQLITE_IOERR \<equiv> 10"
abbreviation SQLITE_CORRUPT :: int where "SQLITE_CORRUPT \<equiv> 11"
abbreviation SQLITE_CANTOPEN :: int where "SQLITE_CANTOPEN \<equiv> 14"
abbreviation SQLITE_CONSTRAINT :: int where "SQLITE_CONSTRAINT \<equiv> 19"
abbreviation SQLITE_RANGE :: int where "SQLITE_RANGE \<equiv> 25"
abbreviation SQLITE_NOTADB :: int where "SQLITE_NOTADB \<equiv> 26"
abbreviation SQLITE_ROW :: int where "SQLITE_ROW \<equiv> 100"
abbreviation SQLITE_DONE :: int where "SQLITE_DONE \<equiv> 101"

abbreviation SQLITE_OPEN_READONLY :: int where "SQLITE_OPEN_READONLY \<equiv> 1"
abbreviation SQLITE_OPEN_READWRITE :: int where "SQLITE_OPEN_READWRITE \<equiv> 2"
abbreviation SQLITE_OPEN_CREATE :: int where "SQLITE_OPEN_CREATE \<equiv> 4"
abbreviation SQLITE_OPEN_FULLMUTEX :: int where "SQLITE_OPEN_FULLMUTEX \<equiv> 65536"

abbreviation SQLITE_INTEGER :: int where "SQLITE_INTEGER \<equiv> 1"
abbreviation SQLITE_FLOAT :: int where "SQLITE_FLOAT \<equiv> 2"
abbreviation SQLITE_TEXT :: int where "SQLITE_TEXT \<equiv> 3"
abbreviation SQLITE_BLOB :: int where "SQLITE_BLOB \<equiv> 4"
abbreviation SQLITE_NULL :: int where "SQLITE_NULL \<equiv> 5"

section \<open>Loading the library\<close>

datatype platform = Windows | Macos | Ios | Android | OtherUnix | OtherPlatform

fun platform_library_names :: "platform \<Rightarrow> string list" where
  "platform_library_names Windows = [''sqlite3.dll'']"
| "platform_library_names Macos = [''/usr/lib/libsqlite3.dylib'', ''libsqlite3.dylib'']"
| "platform_library_names Ios = [''/usr/lib/libsqlite3.dylib'', ''libsqlite3.dylib'']"
| "platform_library_names Android = [''libsqlite.so'', ''libsqlite.so.0'']"
| "platform_library_names OtherUnix = [''libsqlite3.so.0'', ''libsqlite3.so'', ''libsqlite3.dylib'']"
| "platform_library_names OtherPlatform = [''sqlite3'']"

text \<open>The loop over the platform names: a name already among the candidates is skipped.\<close>

fun add_candidates :: "string list \<Rightarrow> string list \<Rightarrow> string list" where
  "add_candidates candidates [] = candidates"
| "add_candidates candidates (name # names) =
     add_candidates (if name \<in> set candidates then candidates else candidates @ [name]) names"

definition library_candidates :: "platform \<Rightarrow> string option \<Rightarrow> string list" where
  "library_candidates plat explicit_path =
     add_candidates
       (case explicit_path of
          Some path \<Rightarrow> if trim path \<noteq> [] then [path] else []
        | None \<Rightarrow> [])
       (platform_library_names plat)"

definition symbol_names :: "string list" where
  "symbol_names =
     [''sqlite3_open_v2'', ''sqlite3_close'', ''sqlite3_errmsg'', ''sqlite3_errcode'',
      ''sqlite3_extended_errcode'', ''sqlite3_busy_timeout'', ''sqlite3_exec'',
      ''sqlite3_prepare_v2'', ''sqlite3_finalize'', ''sqlite3_bind_null'', ''sqlite3_bind_int64'',
      ''sqlite3_bind_double'', ''sqlite3_bind_text'', ''sqlite3_bind_blob'', ''sqlite3_step'',
      ''sqlite3_column_count'', ''sqlite3_column_name'', ''sqlite3_column_type'',
      ''sqlite3_column_int64'', ''sqlite3_column_double'', ''sqlite3_column_text'',
      ''sqlite3_column_bytes'', ''sqlite3_column_blob'', ''sqlite3_changes64'',
      ''sqlite3_last_insert_rowid'', ''sqlite3_backup_init'', ''sqlite3_backup_step'',
      ''sqlite3_backup_finish'']"

text \<open>
  \<open>find_map\<close> over the candidates, keeping the failures; \<open>open_lib\<close> is the loader's
  \<open>Library::new\<close> and \<open>get_symbol\<close> its \<open>Library::get\<close>.
\<close>

fun find_library :: "(string \<Rightarrow> string + 'l) \<Rightarrow> string list \<Rightarrow> message list \<Rightarrow> message list + 'l" where
  "find_library open_lib [] failures = Inl failures"
| "find_library open_lib (name # names) failures =
     (case open_lib name of
        Inr l \<Rightarrow> Inr l
      | Inl error \<Rightarrow>
          find_library open_lib names (failures @ [[Txt name, Txt '': '', Txt error]]))"

fun join_messages :: "message list \<Rightarrow> message" where
  "join_messages [] = []"
| "join_messages [m] = m"
| "join_messages (m # n # ms) = m @ [Txt ''; ''] @ join_messages (n # ms)"

definition load_symbol :: "('l \<Rightarrow> string \<Rightarrow> string + 'p) \<Rightarrow> 'l \<Rightarrow> string \<Rightarrow> 'p result" where
  "load_symbol get_symbol lib display_name =
     (case get_symbol lib display_name of
        Inr p \<Rightarrow> Inr p
      | Inl error \<Rightarrow> Inl (adapter_with_code Unavailable ''sqlite_runtime_incompatible''
          [Txt ''host SQLite library is missing '', Txt display_name, Txt '': '', Txt error]))"

definition api_load ::
  "(string \<Rightarrow> string + 'l) \<Rightarrow> ('l \<Rightarrow> string \<Rightarrow> string + 'p) \<Rightarrow> platform \<Rightarrow> string option \<Rightarrow> ('l \<times> 'p list) result"
where
  "api_load open_lib get_symbol plat explicit_path =
     (let candidates = library_candidates plat explicit_path in
      case find_library open_lib candidates [] of
        Inl failures \<Rightarrow> Inl (adapter_with_code Unavailable ''sqlite_runtime_unavailable''
          ([Txt ''could not load a host SQLite shared library; tried '',
            Txt (join '', '' candidates), Txt '' (''] @ join_messages failures @ [Txt '')'']))
      | Inr lib \<Rightarrow>
          rbind (traverse (load_symbol get_symbol lib) symbol_names) (\<lambda>ps. Inr (lib, ps)))"

section \<open>Failures\<close>

record sqlite_failure =
  failure_code :: int
  failure_extended :: int
  failure_message :: string

definition failure_of :: "'w sqlite_api \<Rightarrow> nat \<Rightarrow> 'w \<Rightarrow> sqlite_failure" where
  "failure_of S db w =
     \<lparr>failure_code = errcode S db w,
      failure_extended = extended_errcode S db w,
      failure_message = (case errmsg S db w of None \<Rightarrow> ''SQLite operation failed'' | Some m \<Rightarrow> m)\<rparr>"

definition constraint_code :: "string \<Rightarrow> string" where
  "constraint_code text =
     (if contains_text text ''foreign key'' then ''foreign_key_violation''
      else if contains_text text ''not null'' then ''not_null_violation''
      else if contains_text text ''unique'' then ''unique_violation''
      else ''constraint_failed'')"

definition failure_class :: "sqlite_failure \<Rightarrow> adapter_error_kind \<times> string" where
  "failure_class f =
     (let text = to_ascii_lowercase (failure_message f); code = failure_code f in
      if code = SQLITE_BUSY then (Busy, ''busy'')
      else if code = SQLITE_LOCKED then (Locked, ''locked'')
      else if code = SQLITE_READONLY then (ReadOnlyKind, ''read_only'')
      else if code = SQLITE_CONSTRAINT then (Constraint, constraint_code text)
      else if code = SQLITE_NOTADB \<or> code = SQLITE_CORRUPT then (Corrupt, ''corrupt_database'')
      else if code = SQLITE_CANTOPEN then (Unavailable, ''cannot_open'')
      else if code = SQLITE_IOERR then (Storage, ''storage_failure'')
      else if code = SQLITE_RANGE then (InvalidOperation, ''invalid_parameters'')
      else (Query, ''sqlite_error''))"

definition map_sqlite_failure :: "string \<Rightarrow> sqlite_failure \<Rightarrow> dactyl_error" where
  "map_sqlite_failure operation f =
     (case failure_class f of (kind, code) \<Rightarrow>
        adapter_with_code kind code
          [Txt operation, Txt '': '', Txt (failure_message f), Txt '' (extended code '',
           Num (failure_extended f), Txt '')''])"

text \<open>\<open>SqliteConnection::error\<close>.\<close>

definition conn_error :: "'w sqlite_api \<Rightarrow> nat \<Rightarrow> string \<Rightarrow> int \<Rightarrow> 'w \<Rightarrow> dactyl_error" where
  "conn_error S db operation code w =
     map_sqlite_failure operation
       \<lparr>failure_code = code,
        failure_extended = extended_errcode S db w,
        failure_message = failure_message (failure_of S db w)\<rparr>"

section \<open>Facts\<close>

lemma map_sqlite_failure_kind [simp]:
  "adapter_kind (map_sqlite_failure op f) = Some (fst (failure_class f))"
  "adapter_code (map_sqlite_failure op f) = Some (snd (failure_class f))"
  by (simp_all add: map_sqlite_failure_def split: prod.splits)

lemma load_symbol_error:
  "load_symbol get_symbol l n = Inl e \<Longrightarrow>
     adapter_kind e = Some Unavailable \<and> adapter_code e = Some ''sqlite_runtime_incompatible''"
  by (cases "get_symbol l n") (auto simp: load_symbol_def)

lemma distinct_add_candidates:
  "distinct candidates \<Longrightarrow> distinct (add_candidates candidates names)"
  by (induction names arbitrary: candidates) auto

lemma set_add_candidates: "set (add_candidates candidates names) = set candidates \<union> set names"
  by (induction names arbitrary: candidates) auto

lemma prefix_add_candidates: "\<exists>t. add_candidates candidates names = candidates @ t"
proof (induction names arbitrary: candidates)
  case (Cons n ns)
  then show ?case by (auto split: if_splits) (metis append_assoc)+
qed simp

lemma find_library_Inr:
  "find_library open_lib names fs = Inr lib \<longleftrightarrow>
     (\<exists>us n vs. names = us @ n # vs \<and> open_lib n = Inr lib \<and> (\<forall>u \<in> set us. isl (open_lib u)))"
proof (induction names arbitrary: fs)
  case Nil
  then show ?case by simp
next
  case (Cons n ns)
  show ?case
  proof (cases "open_lib n")
    case (Inl e)
    have "(\<exists>us m vs. n # ns = us @ m # vs \<and> open_lib m = Inr lib \<and> (\<forall>u \<in> set us. isl (open_lib u))) \<longleftrightarrow>
        (\<exists>us m vs. ns = us @ m # vs \<and> open_lib m = Inr lib \<and> (\<forall>u \<in> set us. isl (open_lib u)))"
      (is "?l \<longleftrightarrow> ?r")
    proof
      assume ?l
      then obtain us m vs where "n # ns = us @ m # vs" "open_lib m = Inr lib"
        "\<forall>u \<in> set us. isl (open_lib u)" by blast
      with Inl show ?r by (cases us) auto
    next
      assume ?r
      then obtain us m vs where "ns = us @ m # vs" "open_lib m = Inr lib"
        "\<forall>u \<in> set us. isl (open_lib u)" by blast
      with Inl have "n # ns = (n # us) @ m # vs \<and> open_lib m = Inr lib \<and>
          (\<forall>u \<in> set (n # us). isl (open_lib u))" by simp
      then show ?l by blast
    qed
    with Inl Cons.IH show ?thesis by simp
  next
    case (Inr l)
    have "(\<exists>us m vs. n # ns = us @ m # vs \<and> open_lib m = Inr lib \<and> (\<forall>u \<in> set us. isl (open_lib u))) \<longleftrightarrow>
        l = lib"
      (is "?l \<longleftrightarrow> _")
    proof
      assume ?l
      then obtain us m vs where "n # ns = us @ m # vs" "open_lib m = Inr lib"
        "\<forall>u \<in> set us. isl (open_lib u)" by blast
      with Inr show "l = lib" by (cases us) auto
    next
      assume "l = lib"
      with Inr have "n # ns = [] @ n # ns \<and> open_lib n = Inr lib \<and> (\<forall>u \<in> set []. isl (open_lib u))"
        by simp
      then show ?l by blast
    qed
    with Inr show ?thesis by simp
  qed
qed

section \<open>Properties\<close>

text \<open>
  The candidate list tries a non-blank explicit path first, then exactly the platform's
  names, without trying any name twice.
\<close>

theorem library_candidates_order:
  "distinct (library_candidates plat explicit_path) \<and>
   set (library_candidates plat explicit_path) =
     set (platform_library_names plat) \<union> {p. explicit_path = Some p \<and> trim p \<noteq> []} \<and>
   (\<exists>t. library_candidates plat (Some p) = (if trim p = [] then t else p # t))"
proof -
  have "\<exists>t. library_candidates plat (Some p) = (if trim p = [] then t else p # t)"
    using prefix_add_candidates [of "[p]" "platform_library_names plat"]
    by (auto simp: library_candidates_def)
  then show ?thesis
    by (auto simp: library_candidates_def set_add_candidates split: option.splits
        intro!: distinct_add_candidates)
qed

text \<open>
  C20: loading binds every symbol from the first candidate that opens, and an error is always
  the typed \<open>Unavailable\<close> one with a code telling a missing library from an incompatible one.
\<close>

theorem api_load_binds:
  "(api_load open_lib get_symbol plat ep = Inr (lib, ps) \<longleftrightarrow>
     (\<exists>us n vs. library_candidates plat ep = us @ n # vs \<and> open_lib n = Inr lib \<and>
        us = filter (\<lambda>u. isl (open_lib u)) us) \<and>
     map (get_symbol lib) symbol_names = map Inr ps) \<and>
   api_load open_lib get_symbol plat ep \<in> range Inr \<union>
     Inl ` {e. adapter_kind e = Some Unavailable \<and> adapter_code e
        \<in> {Some ''sqlite_runtime_unavailable'', Some ''sqlite_runtime_incompatible''}}"
proof -
  have all: "us = filter P us \<longleftrightarrow> (\<forall>u \<in> set us. P u)" for us and P :: "string \<Rightarrow> bool"
    by (metis filter_True filter_id_conv)
  have syms: "traverse (load_symbol get_symbol l) ns = Inr qs \<longleftrightarrow> map (get_symbol l) ns = map Inr qs"
    for l ns qs
  proof -
    have "traverse (load_symbol get_symbol l) ns = Inr qs \<longleftrightarrow>
        list_all2 (\<lambda>n q. get_symbol l n = Inr q) ns qs"
      unfolding traverse_Inr_iff load_symbol_def by (rule list.rel_cong) (auto split: sum.splits)
    also have "\<dots> \<longleftrightarrow> map (get_symbol l) ns = map Inr qs"
      by (auto simp: list_eq_iff_nth_eq list_all2_conv_all_nth)
    finally show ?thesis .
  qed
  have err: "traverse (load_symbol get_symbol l) ns = Inl e \<Longrightarrow>
      adapter_kind e = Some Unavailable \<and> adapter_code e = Some ''sqlite_runtime_incompatible''"
    for l ns e
    by (drule traverse_Inl) (auto dest: load_symbol_error)
  have "api_load open_lib get_symbol plat ep \<in> range Inr \<union>
     Inl ` {e. adapter_kind e = Some Unavailable \<and> adapter_code e
        \<in> {Some ''sqlite_runtime_unavailable'', Some ''sqlite_runtime_incompatible''}}"
  proof (cases "find_library open_lib (library_candidates plat ep) []")
    case (Inl failures)
    then show ?thesis by (simp add: api_load_def Let_def)
  next
    case (Inr l)
    then show ?thesis
      by (cases "traverse (load_symbol get_symbol l) symbol_names") (auto simp: api_load_def Let_def dest: err)
  qed
  moreover have "api_load open_lib get_symbol plat ep = Inr (lib, ps) \<longleftrightarrow>
      (\<exists>us n vs. library_candidates plat ep = us @ n # vs \<and> open_lib n = Inr lib \<and>
        us = filter (\<lambda>u. isl (open_lib u)) us) \<and>
      map (get_symbol lib) symbol_names = map Inr ps"
    unfolding api_load_def Let_def all
    unfolding find_library_Inr [of open_lib "library_candidates plat ep" "[]" lib, symmetric]
    by (auto simp: result_iffs syms split: sum.splits)
  ultimately show ?thesis by blast
qed


end
