(* ===== verification/Host.thy ===== *)
theory Host
  imports Errors Paths Sqlite_Api
begin

text \<open>
  The host as the SQLite driver sees it: the calls it makes on \<open>std::fs\<close>, \<open>std::time\<close> and
  \<open>rustix\<close> as the fields of \<open>'w host_api\<close>, over the same world as SQLite, and the file
  helpers of \<open>src/adapter/sqlite/mod.rs\<close> written on them. Any call may fail; none is assumed
  to give the same answer twice.
\<close>

section \<open>The calls\<close>

datatype io_error_kind = NotFoundKind | AlreadyExistsKind | OtherKind

record io_error =
  io_kind :: io_error_kind
  io_text :: string

datatype errno = EXIST | XDEV | NOSYS | OPNOTSUPP | INVAL | RANGE | OtherErrno

record metadata =
  md_dev :: nat
  md_ino :: nat
  md_is_file :: bool
  md_is_dir :: bool
  md_is_symlink :: bool
  md_nlink :: nat
  md_mode :: u32
  md_uid :: nat
  md_gid :: nat
  md_len :: nat

text \<open>
  \<open>stat\<close> follows symbolic links (\<open>fs::metadata\<close>), \<open>lstat\<close> does not (\<open>fs::symlink_metadata\<close>).
  Open files are numbers. \<open>renameat2\<close> is the rename that never replaces its target.
\<close>

record 'w host_api =
  canonicalize :: "string \<Rightarrow> 'w \<Rightarrow> string option \<times> 'w"
  current_dir :: "'w \<Rightarrow> string option \<times> 'w"
  path_exists :: "string \<Rightarrow> 'w \<Rightarrow> bool \<times> 'w"
  stat :: "string \<Rightarrow> 'w \<Rightarrow> (io_error + metadata) \<times> 'w"
  lstat :: "string \<Rightarrow> 'w \<Rightarrow> (io_error + metadata) \<times> 'w"
  create_dir_all :: "string \<Rightarrow> 'w \<Rightarrow> (io_error + unit) \<times> 'w"
  create_dir :: "string \<Rightarrow> u32 \<Rightarrow> 'w \<Rightarrow> (io_error + unit) \<times> 'w"
  create_new :: "string \<Rightarrow> u32 \<Rightarrow> 'w \<Rightarrow> (io_error + nat) \<times> 'w"
  open_read :: "string \<Rightarrow> 'w \<Rightarrow> (io_error + nat) \<times> 'w"
  read_exact :: "nat \<Rightarrow> nat \<Rightarrow> 'w \<Rightarrow> (io_error + u8 list) \<times> 'w"
  sync_all :: "nat \<Rightarrow> 'w \<Rightarrow> (io_error + unit) \<times> 'w"
  fstat :: "nat \<Rightarrow> 'w \<Rightarrow> (io_error + metadata) \<times> 'w"
  set_mode :: "nat \<Rightarrow> u32 \<Rightarrow> 'w \<Rightarrow> (io_error + unit) \<times> 'w"
  fchown :: "nat \<Rightarrow> nat \<Rightarrow> nat \<Rightarrow> 'w \<Rightarrow> (io_error + unit) \<times> 'w"
  listxattr :: "string \<Rightarrow> 'w \<Rightarrow> (errno + u8 list) \<times> 'w"
  rename :: "string \<Rightarrow> string \<Rightarrow> 'w \<Rightarrow> (io_error + unit) \<times> 'w"
  renameat2 :: "string \<Rightarrow> string \<Rightarrow> 'w \<Rightarrow> (errno + unit) \<times> 'w"
  remove_file :: "string \<Rightarrow> 'w \<Rightarrow> (io_error + unit) \<times> 'w"
  remove_dir :: "string \<Rightarrow> 'w \<Rightarrow> (io_error + unit) \<times> 'w"
  now_nanos :: "'w \<Rightarrow> nat \<times> 'w"
  instant_nanos :: "'w \<Rightarrow> nat \<times> 'w"
  sleep_millis :: "nat \<Rightarrow> 'w \<Rightarrow> 'w"
  process_id :: nat
  errno_error :: "errno \<Rightarrow> io_error"
  host_platform :: platform
  library_override :: "string option"
  open_library :: "string \<Rightarrow> string + nat"
  library_symbol :: "nat \<Rightarrow> string \<Rightarrow> string + nat"

text \<open>A fallible call, and one that only answers.\<close>

definition call :: "('w \<Rightarrow> ('e + 'a) \<times> 'w) \<Rightarrow> ('w, 'e, 'a) io" where
  "call m = (\<lambda>w. Some (m w))"

definition ask :: "('w \<Rightarrow> 'a \<times> 'w) \<Rightarrow> ('w, 'e, 'a) io" where
  "ask m = (\<lambda>w. case m w of (x, w1) \<Rightarrow> Some (Inr x, w1))"

lemmas call_code [code] = call_def [THEN fun_cong] ask_def [THEN fun_cong]

definition storage_io :: "string \<Rightarrow> io_error \<Rightarrow> dactyl_error" where
  "storage_io operation error = adapter_with_code Storage ''filesystem_failure''
     [Txt operation, Txt '': '', Txt (io_text error)]"

section \<open>File helpers\<close>

definition file_identity :: "'w host_api \<Rightarrow> string \<Rightarrow> ('w, 'e, (nat \<times> nat) option) io" where
  "file_identity H path =
     io_bind (io_result (call (stat H path))) (\<lambda>r. io_return
       (case r of Inl _ \<Rightarrow> None | Inr md \<Rightarrow> Some (md_dev md, md_ino md)))"

definition perform_file_sync :: "'w host_api \<Rightarrow> string \<Rightarrow> ('w, dactyl_error, unit) io" where
  "perform_file_sync H path =
     io_map_err (storage_io ''sync SQLite file'')
       (io_bind (call (open_read H path)) (\<lambda>file. call (sync_all H file)))"

definition sync_parent :: "'w host_api \<Rightarrow> string \<Rightarrow> ('w, dactyl_error, unit) io" where
  "sync_parent H path =
     io_map_err (storage_io ''sync SQLite database directory'')
       (io_bind (call (open_read H (parent_or_dot path))) (\<lambda>directory. call (sync_all H directory)))"

definition sync_database_files :: "'w host_api \<Rightarrow> string \<Rightarrow> bool \<Rightarrow> ('w, dactyl_error, unit) io" where
  "sync_database_files H path include_sidecars =
     io_bind (perform_file_sync H path) (\<lambda>_.
     io_bind (if include_sidecars
              then io_traverse (\<lambda>suffix.
                     io_bind (ask (path_exists H (sidecar_path path suffix))) (\<lambda>exists.
                       if exists then perform_file_sync H (sidecar_path path suffix) else io_return ()))
                   [''-wal'', ''-shm'', ''-journal'']
              else io_return []) (\<lambda>_.
     sync_parent H path))"

definition recovery_rollback_error :: "dactyl_error \<Rightarrow> dactyl_error \<Rightarrow> dactyl_error" where
  "recovery_rollback_error original rollback =
     adapter_with_code Storage ''recovery_rollback_failed''
       ([Txt ''SQLite recovery failed: ''] @ display original @ [Txt ''; rollback failed: ''] @ display rollback)"

definition publish_temp_file :: "'w host_api \<Rightarrow> string \<Rightarrow> string \<Rightarrow> ('w, dactyl_error, unit) io" where
  "publish_temp_file H temporary destination =
     io_bind (io_map_err (storage_io ''publish SQLite backup'') (call (rename H temporary destination))) (\<lambda>_.
     io_bind (io_result (sync_parent H destination)) (\<lambda>synced.
       case synced of
         Inr _ \<Rightarrow> io_return ()
       | Inl error \<Rightarrow>
           io_bind (io_result (call (rename H destination temporary))) (\<lambda>back.
             case back of
               Inr _ \<Rightarrow> io_fail error
             | Inl e \<Rightarrow> io_fail (recovery_rollback_error error
                 (storage_io ''rollback SQLite backup publication'' e)))))"

definition ensure_parent :: "'w host_api \<Rightarrow> string \<Rightarrow> ('w, dactyl_error, unit) io" where
  "ensure_parent H path =
     (case parent path of
        Some p \<Rightarrow>
          if p \<noteq> [] then io_map_err (storage_io ''create SQLite maintenance directory'') (call (create_dir_all H p))
          else io_return ()
      | None \<Rightarrow> io_return ())"

definition ensure_absent :: "'w host_api \<Rightarrow> string \<Rightarrow> string \<Rightarrow> ('w, dactyl_error, unit) io" where
  "ensure_absent H path description =
     io_bind (ask (path_exists H path)) (\<lambda>exists.
       if exists then io_fail (adapter_with_code Conflict ''path_exists''
              [Txt description, Txt '' already exists: '', Txt path])
       else io_return ())"

definition remove_file_if_exists :: "'w host_api \<Rightarrow> string \<Rightarrow> ('w, dactyl_error, unit) io" where
  "remove_file_if_exists H path =
     io_bind (io_result (call (remove_file H path))) (\<lambda>r.
       case r of
         Inr _ \<Rightarrow> io_return ()
       | Inl error \<Rightarrow>
           if io_kind error = NotFoundKind then io_return ()
           else io_fail (storage_io ''remove SQLite maintenance file'' error))"

text \<open>Decimal digits, as \<open>format!\<close> prints an unsigned number.\<close>

fun decimal :: "nat \<Rightarrow> string" where
  "decimal n = (if n < 10 then [char_of (48 + n)] else decimal (n div 10) @ [char_of (48 + n mod 10)])"

declare decimal.simps [simp del]

definition u128_saturating_add :: "nat \<Rightarrow> nat \<Rightarrow> nat" where
  "u128_saturating_add a b = nat (min (int a + int b) (2 ^ 128 - 1))"

text \<open>\<open>create_new\<close> without a mode: the default 0666.\<close>

fun try_temporary :: "'w host_api \<Rightarrow> (nat \<Rightarrow> string) \<Rightarrow> nat list \<Rightarrow> ('w, dactyl_error, string) io" where
  "try_temporary H candidate [] = io_fail (adapter Storage
     [Txt ''could not allocate a unique SQLite maintenance temporary file''])"
| "try_temporary H candidate (attempt # attempts) =
     io_bind (io_result (call (create_new H (candidate attempt) 0x1B6))) (\<lambda>r.
       case r of
         Inr _ \<Rightarrow> io_return (candidate attempt)
       | Inl error \<Rightarrow>
           if io_kind error = AlreadyExistsKind then try_temporary H candidate attempts
           else io_fail (storage_io ''create SQLite maintenance temporary file'' error))"

definition temporary_path :: "'w host_api \<Rightarrow> string \<Rightarrow> string \<Rightarrow> ('w, dactyl_error, string) io" where
  "temporary_path H base label =
     (let dir = (case parent base of Some p \<Rightarrow> p | None \<Rightarrow> ''.'') in
      io_bind (io_lift (ok_or (adapter InvalidOperation [Txt ''SQLite path is not valid UTF-8'']) (file_name base)))
        (\<lambda>name.
      io_bind (ask (now_nanos H)) (\<lambda>now.
        try_temporary H (\<lambda>attempt. path_join dir
            (''.'' @ name @ ''.dactyl-'' @ label @ ''-'' @ decimal (process_id H) @ ''-'' @
             decimal (u128_saturating_add now attempt))) [0..<32])))"

section \<open>Facts\<close>

lemma total_calls [total_intros]: "total (call m)" "total (ask q)"
  by (simp_all add: total_def call_def ask_def split: prod.splits)

lemma call_Some_iff: "call m w = Some (r, w') \<longleftrightarrow> m w = (r, w')"
  by (simp add: call_def)

lemma ask_Some_iff: "ask m w = Some (r, w') \<longleftrightarrow> (\<exists>x. m w = (x, w') \<and> r = Inr x)"
  by (auto simp: ask_def split: prod.splits)

lemmas host_iffs = io_iffs call_Some_iff ask_Some_iff

lemma file_identity_ok [simp]: "file_identity H path w \<noteq> Some (Inl e, w')"
  by (auto simp: file_identity_def host_iffs)

text \<open>A predicate that a call leaves true, whatever it answers.\<close>

definition call_keeps :: "('w \<Rightarrow> bool) \<Rightarrow> ('w \<Rightarrow> 'r \<times> 'w) \<Rightarrow> bool" where
  "call_keeps P m \<longleftrightarrow> (\<forall>w. P w \<longrightarrow> P (snd (m w)))"

lemma keeps_call [keeps_intros]: "call_keeps P m \<Longrightarrow> keeps P (call m)"
  by (auto simp: call_keeps_def keeps_def call_Some_iff)

lemma keeps_ask [keeps_intros]: "call_keeps P m \<Longrightarrow> keeps P (ask m)"
  by (auto simp: call_keeps_def keeps_def ask_Some_iff)

text \<open>
  \<open>host_keeps P H\<close>: \<open>P\<close> survives every call except the ones that take a name away: the two
  renames and \<open>remove_file\<close>.
\<close>

definition host_keeps :: "('w \<Rightarrow> bool) \<Rightarrow> 'w host_api \<Rightarrow> bool" where
  "host_keeps P H \<longleftrightarrow>
     (\<forall>p. call_keeps P (canonicalize H p)) \<and> call_keeps P (current_dir H) \<and>
     (\<forall>p. call_keeps P (path_exists H p)) \<and> (\<forall>p. call_keeps P (stat H p)) \<and>
     (\<forall>p. call_keeps P (lstat H p)) \<and> (\<forall>p. call_keeps P (create_dir_all H p)) \<and>
     (\<forall>p m. call_keeps P (create_dir H p m)) \<and> (\<forall>p m. call_keeps P (create_new H p m)) \<and>
     (\<forall>p. call_keeps P (open_read H p)) \<and> (\<forall>f n. call_keeps P (read_exact H f n)) \<and>
     (\<forall>f. call_keeps P (sync_all H f)) \<and> (\<forall>f. call_keeps P (fstat H f)) \<and>
     (\<forall>f m. call_keeps P (set_mode H f m)) \<and> (\<forall>f u g. call_keeps P (fchown H f u g)) \<and>
     (\<forall>p. call_keeps P (listxattr H p)) \<and> (\<forall>p. call_keeps P (remove_dir H p)) \<and>
     call_keeps P (now_nanos H) \<and> call_keeps P (instant_nanos H) \<and>
     (\<forall>n w. P w \<longrightarrow> P (sleep_millis H n w))"

lemma host_keepsD:
  assumes "host_keeps P H"
  shows "call_keeps P (canonicalize H p)" "call_keeps P (current_dir H)" "call_keeps P (path_exists H p)"
    "call_keeps P (stat H p)" "call_keeps P (lstat H p)" "call_keeps P (create_dir_all H p)"
    "call_keeps P (create_dir H p m)" "call_keeps P (create_new H p m)" "call_keeps P (open_read H p)"
    "call_keeps P (read_exact H f n)" "call_keeps P (sync_all H f)" "call_keeps P (fstat H f)"
    "call_keeps P (set_mode H f m)" "call_keeps P (fchown H f u g)" "call_keeps P (listxattr H p)"
    "call_keeps P (remove_dir H p)" "call_keeps P (now_nanos H)" "call_keeps P (instant_nanos H)"
    "P w \<Longrightarrow> P (sleep_millis H n w)"
  using assms by (simp_all add: host_keeps_def)

lemma file_helpers_keep:
  assumes "host_keeps P H"
  shows keeps_file_identity: "keeps P (file_identity H p :: ('w, 'e, (nat \<times> nat) option) io)"
    and keeps_file_sync: "keeps P (perform_file_sync H p)"
    and keeps_sync_parent: "keeps P (sync_parent H p)"
    and keeps_sync_files: "keeps P (sync_database_files H p b)"
    and keeps_ensure_parent: "keeps P (ensure_parent H p)"
    and keeps_ensure_absent: "keeps P (ensure_absent H p d)"
proof -
  note h = host_keepsD [OF assms]
  show "keeps P (file_identity H p :: ('w, 'e, (nat \<times> nat) option) io)"
    unfolding file_identity_def by (intro keeps_intros h)
  show fs: "keeps P (perform_file_sync H p)" for p
    unfolding perform_file_sync_def by (intro keeps_intros h)
  show sp: "keeps P (sync_parent H p)" for p
    unfolding sync_parent_def by (intro keeps_intros h)
  show "keeps P (sync_database_files H p b)"
    unfolding sync_database_files_def by (intro keeps_intros h fs sp)
  show "keeps P (ensure_parent H p)"
    unfolding ensure_parent_def by (intro keeps_intros h)
  show "keeps P (ensure_absent H p d)"
    unfolding ensure_absent_def by (intro keeps_intros h)
qed

end
