(* ===== verification/Recovery_Stage.thy ===== *)
theory Recovery_Stage
  imports Host
begin

unbundle bit_operations_syntax

text \<open>
  File custody of recovery, \<open>src/adapter/sqlite/recovery.rs\<close>: inode identities and the checks
  on them, the move that never replaces a name, and the private staging directory in which the
  replacement database is built. The checkpoints of the source return \<open>Ok(())\<close> in every build
  but the unit tests' and have no counterpart here.
\<close>

section \<open>Identities\<close>

type_synonym identity = "nat \<times> nat"

definition sidecars :: "string list" where
  "sidecars = [''-wal'', ''-shm'', ''-journal'']"

definition identity_of :: "metadata \<Rightarrow> identity" where
  "identity_of md = (md_dev md, md_ino md)"

definition conflict :: "string \<Rightarrow> string \<Rightarrow> dactyl_error" where
  "conflict code path = adapter_with_code Conflict code
     [Txt ''SQLite recovery path is unsafe or changed: '', Txt path]"

definition identity_check :: "'w host_api \<Rightarrow> identity \<Rightarrow> string \<Rightarrow> ('w, dactyl_error, unit) io" where
  "identity_check H i path =
     io_bind (io_map_err (storage_io ''inspect recovery path'') (call (lstat H path))) (\<lambda>md.
       if md_is_symlink md \<or> identity_of md \<noteq> i
       then io_fail (conflict ''recovery_path_changed'' path) else io_return ())"

definition regular :: "'w host_api \<Rightarrow> string \<Rightarrow> ('w, dactyl_error, metadata) io" where
  "regular H path =
     io_bind (io_map_err (storage_io ''inspect recovery file'') (call (lstat H path))) (\<lambda>md.
       if \<not> md_is_file md \<or> md_nlink md \<noteq> 1
       then io_fail (conflict ''unsafe_recovery_file'' path) else io_return md)"

definition absent :: "'w host_api \<Rightarrow> string \<Rightarrow> ('w, dactyl_error, unit) io" where
  "absent H path =
     io_bind (io_result (call (lstat H path))) (\<lambda>r.
       case r of
         Inr _ \<Rightarrow> io_fail (conflict ''path_exists'' path)
       | Inl error \<Rightarrow>
           if io_kind error = NotFoundKind then io_return ()
           else io_fail (storage_io ''inspect recovery destination'' error))"

section \<open>Extended metadata\<close>

text \<open>The names of extended attributes come as one buffer, each ended by a zero byte.\<close>

fun split_zero :: "u8 list \<Rightarrow> u8 list list" where
  "split_zero [] = [[]]"
| "split_zero (b # bs) =
     (if b = 0 then [] # split_zero bs
      else (case split_zero bs of [] \<Rightarrow> [[b]] | p # ps \<Rightarrow> (b # p) # ps))"

definition bytes_start_with :: "u8 list \<Rightarrow> string \<Rightarrow> bool" where
  "bytes_start_with bs p \<longleftrightarrow> take (length (to_utf8 p)) bs = to_utf8 p"

definition unsupported_attribute :: "bool \<Rightarrow> u8 list \<Rightarrow> bool" where
  "unsupported_attribute directory name \<longleftrightarrow>
     bytes_start_with name ''security.'' \<or> bytes_start_with name ''trusted.'' \<or>
     bytes_start_with name ''system.'' \<and> \<not> (directory \<and> name = to_utf8 ''system.posix_acl_access'')"

definition reject_extended_metadata :: "'w host_api \<Rightarrow> string \<Rightarrow> bool \<Rightarrow> ('w, dactyl_error, unit) io" where
  "reject_extended_metadata H path directory =
     io_bind (io_result (call (listxattr H path))) (\<lambda>r.
       case r of
         Inr names \<Rightarrow>
           if list_ex (unsupported_attribute directory) (split_zero names)
           then io_fail (adapter_with_code Capability ''recovery_metadata_unsupported''
             [Txt ''SQLite recovery cannot preserve source ACLs/MAC labels or inherited directory access policy''])
           else io_return ()
       | Inl error \<Rightarrow>
           if error = OPNOTSUPP then io_return ()
           else if error = RANGE
           then io_fail (adapter_with_code Capability ''recovery_metadata_unsupported''
             [Txt ''SQLite recovery extended metadata exceeds the bounded policy inspection''])
           else io_fail (storage_io ''inspect SQLite recovery extended metadata'' (errno_error H error)))"

section \<open>Directories and moves\<close>

text \<open>Every ancestor but the empty one must be a directory itself, not a link to one.\<close>

definition check_directory :: "'w host_api \<Rightarrow> string \<Rightarrow> ('w, dactyl_error, identity) io" where
  "check_directory H path =
     io_bind (io_traverse (\<lambda>ancestor.
         io_bind (io_map_err (storage_io ''inspect recovery directory'') (call (lstat H ancestor))) (\<lambda>md.
           if \<not> md_is_dir md then io_fail (conflict ''unsafe_recovery_directory'' ancestor) else io_return ()))
       (filter (\<lambda>ancestor. ancestor \<noteq> []) (ancestors path))) (\<lambda>_.
     io_bind (io_map_err (storage_io ''inspect recovery directory'') (call (lstat H path))) (\<lambda>md.
       io_return (identity_of md)))"

definition move_error :: "'w host_api \<Rightarrow> string \<Rightarrow> errno \<Rightarrow> dactyl_error" where
  "move_error H to error =
     (if error = EXIST then conflict ''path_exists'' to
      else if error = XDEV then adapter_with_code InvalidOperation ''recovery_cross_filesystem''
        [Txt ''SQLite recovery must remain on one filesystem'']
      else if error \<in> {NOSYS, OPNOTSUPP, INVAL}
      then adapter_with_code Capability ''secure_recovery_unsupported''
        [Txt ''filesystem lacks atomic no-replace recovery rename'']
      else storage_io ''move SQLite recovery file without replacement'' (errno_error H error))"

definition move_noreplace :: "'w host_api \<Rightarrow> string \<Rightarrow> string \<Rightarrow> identity \<Rightarrow> ('w, dactyl_error, unit) io" where
  "move_noreplace H from to i =
     io_bind (identity_check H i from) (\<lambda>_.
     io_bind (io_map_err (move_error H to) (call (renameat2 H from to))) (\<lambda>_.
     identity_check H i to))"

section \<open>The staging directory\<close>

record stage =
  st_path :: string
  st_identity :: identity
  st_parent :: string
  st_parent_identity :: identity
  st_file :: nat
  st_file_identity :: identity
  st_retain :: bool
  st_journal_identity :: "identity option"
  st_quarantined :: bool

definition rebuilt :: "stage \<Rightarrow> string" where
  "rebuilt st = path_join (st_path st) ''rebuilt.db''"

definition private_file :: "'w host_api \<Rightarrow> string \<Rightarrow> ('w, dactyl_error, nat) io" where
  "private_file H path =
     io_map_err (storage_io ''create private SQLite recovery file'') (call (create_new H path 0x180))"

definition stage_check :: "'w host_api \<Rightarrow> stage \<Rightarrow> ('w, dactyl_error, unit) io" where
  "stage_check H st =
     io_bind (identity_check H (st_parent_identity st) (st_parent st)) (\<lambda>_.
     io_bind (identity_check H (st_identity st) (st_path st)) (\<lambda>_.
     io_bind (io_map_err (storage_io ''inspect recovery staging'') (call (lstat H (st_path st)))) (\<lambda>md.
       if md_mode md AND 0x1FF \<noteq> 0x1C0
       then io_fail (conflict ''unsafe_recovery_staging'' (st_path st)) else io_return ())))"

definition apply_mode :: "'w host_api \<Rightarrow> stage \<Rightarrow> metadata \<Rightarrow> ('w, dactyl_error, unit) io" where
  "apply_mode H st source =
     io_bind (identity_check H (st_file_identity st) (rebuilt st)) (\<lambda>_.
     io_bind (io_map_err (storage_io ''preserve recovered SQLite mode'')
       (call (set_mode H (st_file st) (md_mode source AND 0x1B6)))) (\<lambda>_.
     io_map_err (storage_io ''sync recovered SQLite metadata'') (call (sync_all H (st_file st)))))"

definition stage_sync :: "'w host_api \<Rightarrow> stage \<Rightarrow> ('w, dactyl_error, unit) io" where
  "stage_sync H st =
     io_bind (stage_check H st) (\<lambda>_.
     io_bind (sync_parent H (rebuilt st)) (\<lambda>_. sync_parent H (st_path st)))"

text \<open>\<open>Stage::drop\<close>; results of its calls are ignored, it cannot fail.\<close>

definition drop_files :: "'w host_api \<Rightarrow> stage \<Rightarrow> ('w, 'e, unit) io" where
  "drop_files H st =
     io_bind (case st_journal_identity st of
         None \<Rightarrow> io_return ()
       | Some i \<Rightarrow>
           io_bind (io_result (identity_check H i (sidecar_path (rebuilt st) ''-journal''))) (\<lambda>r.
             if isl r then io_return ()
             else io_bind (io_result (call (remove_file H (sidecar_path (rebuilt st) ''-journal''))))
               (\<lambda>_. io_return ()))) (\<lambda>_.
     io_bind (io_result (call (remove_dir H (st_path st)))) (\<lambda>_.
     io_bind (io_result (sync_parent H (st_path st))) (\<lambda>_. io_return ())))"

definition stage_drop :: "'w host_api \<Rightarrow> stage \<Rightarrow> ('w, 'e, unit) io" where
  "stage_drop H st =
     (if st_retain st then io_return ()
      else io_bind (io_result (stage_check H st)) (\<lambda>c.
        if isl c then io_return ()
        else io_bind (io_result (call (lstat H (rebuilt st)))) (\<lambda>m.
          case m of
            Inl _ \<Rightarrow> drop_files H st
          | Inr md \<Rightarrow>
              if identity_of md \<noteq> st_file_identity st then io_return ()
              else io_bind (io_result (call (remove_file H (rebuilt st)))) (\<lambda>_. drop_files H st))))"

text \<open>An early return while the stage is alive drops it.\<close>

definition or_drop :: "'w host_api \<Rightarrow> stage \<Rightarrow> ('w, dactyl_error, 'a) io \<Rightarrow> ('w, dactyl_error, 'a) io" where
  "or_drop H st m =
     io_bind (io_result m) (\<lambda>r.
       case r of
         Inr x \<Rightarrow> io_return x
       | Inl e \<Rightarrow> io_bind (stage_drop H st) (\<lambda>_. io_fail e))"

section \<open>Creating the stage\<close>

text \<open>The loop over 32 candidate names: a name that exists is skipped.\<close>

fun fresh_directory :: "'w host_api \<Rightarrow> (nat \<Rightarrow> string) \<Rightarrow> nat list \<Rightarrow> ('w, dactyl_error, string) io" where
  "fresh_directory H candidate [] = io_fail (adapter_with_code Conflict ''recovery_staging_exhausted''
     [Txt ''could not allocate fresh private SQLite recovery staging''])"
| "fresh_directory H candidate (attempt # attempts) =
     io_bind (io_result (call (create_dir H (candidate attempt) 0x1C0))) (\<lambda>r.
       case r of
         Inr _ \<Rightarrow> io_return (candidate attempt)
       | Inl error \<Rightarrow>
           if io_kind error = AlreadyExistsKind then fresh_directory H candidate attempts
           else io_fail (storage_io ''create private SQLite recovery directory'' error))"

definition take_ownership :: "'w host_api \<Rightarrow> stage \<Rightarrow> metadata \<Rightarrow> ('w, dactyl_error, unit) io" where
  "take_ownership H st md =
     io_bind (io_map_err (storage_io ''inspect recovery owner'') (call (fstat H (st_file st)))) (\<lambda>current.
       if md_uid current \<noteq> md_uid md \<or> md_gid current \<noteq> md_gid md
       then io_map_err (\<lambda>e. adapter_with_code Authorization ''recovery_ownership_unavailable''
              [Txt ''cannot preserve SQLite recovery ownership: '', Txt (io_text e)])
            (call (fchown H (st_file st) (md_uid md) (md_gid md)))
       else io_return ())"

definition stage_journal :: "'w host_api \<Rightarrow> stage \<Rightarrow> ('w, dactyl_error, identity) io" where
  "stage_journal H st =
     io_bind (private_file H (sidecar_path (rebuilt st) ''-journal'')) (\<lambda>journal.
     io_bind (io_map_err (storage_io ''inspect private recovery journal'') (call (fstat H journal))) (\<lambda>md.
       io_return (identity_of md)))"

text \<open>
  From the fresh directory on. Before the \<open>Stage\<close> value exists nothing is cleaned up; after
  that every failure drops it.
\<close>

definition stage_in ::
  "'w host_api \<Rightarrow> string \<Rightarrow> identity \<Rightarrow> metadata \<Rightarrow> string \<Rightarrow> ('w, dactyl_error, stage) io" where
  "stage_in H parent_path parent_identity metadata path =
     io_bind (io_map_err (storage_io ''inspect private recovery directory'') (call (lstat H path))) (\<lambda>directory.
     if \<not> md_is_dir directory \<or> md_mode directory AND 0x1FF \<noteq> 0x1C0 \<or> md_dev directory \<noteq> md_dev metadata
     then io_fail (conflict ''unsafe_recovery_staging'' path)
     else
       io_bind (private_file H (path_join path ''rebuilt.db'')) (\<lambda>file.
       io_bind (io_map_err (storage_io ''inspect recovery inode'') (call (fstat H file))) (\<lambda>md.
       let st = \<lparr>st_path = path, st_identity = identity_of directory, st_parent = parent_path,
                 st_parent_identity = parent_identity, st_file = file, st_file_identity = identity_of md,
                 st_retain = False, st_journal_identity = None, st_quarantined = False\<rparr>
       in
         io_bind (or_drop H st (io_bind (take_ownership H st metadata) (\<lambda>_. stage_journal H st))) (\<lambda>journal.
         let st' = st\<lparr>st_journal_identity := Some journal\<rparr>
         in or_drop H st' (io_bind (stage_check H st') (\<lambda>_.
              io_bind (sync_parent H (st_path st')) (\<lambda>_. io_return st')))))))"

definition stage_create_with_nonce ::
  "'w host_api \<Rightarrow> string \<Rightarrow> metadata \<Rightarrow> nat \<Rightarrow> ('w, dactyl_error, stage) io" where
  "stage_create_with_nonce H source metadata now =
     (let parent_path = parent_or_dot source in
      io_bind (check_directory H parent_path) (\<lambda>parent_identity.
        if fst parent_identity \<noteq> md_dev metadata
        then io_fail (adapter_with_code InvalidOperation ''recovery_cross_filesystem''
          [Txt ''SQLite recovery staging parent and active file must share a filesystem''])
        else
          io_bind (fresh_directory H (\<lambda>attempt. path_join parent_path
              (''.dactyl-recovery-'' @ decimal (process_id H) @ ''-'' @ decimal (u128_saturating_add now attempt)))
            [0..<32])
          (stage_in H parent_path parent_identity metadata)))"

definition stage_create :: "'w host_api \<Rightarrow> string \<Rightarrow> metadata \<Rightarrow> ('w, dactyl_error, stage) io" where
  "stage_create H source metadata =
     io_bind (ask (now_nanos H)) (\<lambda>now. stage_create_with_nonce H source metadata now)"

end
