(* ===== verification/Sqlite_Statement.thy ===== *)
theory Sqlite_Statement
  imports Sqlite_Api
begin

text \<open>
  Prepared statements, \<open>src/adapter/sqlite/mod.rs\<close>: preparing, binding, stepping, reading
  columns, and the two loops over rows (\<open>execute_write\<close>, \<open>query_rows\<close>). A statement is
  finalized on every way out, as its \<open>Drop\<close> does. The loops are \<open>partial_function (option)\<close>:
  a statement that keeps returning rows never returns.
\<close>

section \<open>Preparing, binding, stepping\<close>

definition prepare :: "'w sqlite_api \<Rightarrow> nat \<Rightarrow> string \<Rightarrow> ('w, dactyl_error, nat) io" where
  "prepare S db sql = (\<lambda>w.
     if has_nul sql
     then Some (Inl (adapter InvalidOperation [Txt ''SQL contains an interior NUL byte'']), w)
     else case prepare_v2 S db sql w of ((code, st), w1) \<Rightarrow>
       if code \<noteq> SQLITE_OK then Some (Inl (conn_error S db ''prepare SQLite statement'' code w1), w1)
       else if st = 0 then Some (Inl (adapter Query [Txt ''SQLite returned an empty statement handle'']), w1)
       else Some (Inr st, w1))"

text \<open>The call for one parameter; a length that does not fit a C \<open>int\<close> is refused before it.\<close>

definition bind_one ::
  "'w sqlite_api \<Rightarrow> nat \<Rightarrow> int \<Rightarrow> parameter \<Rightarrow> 'w \<Rightarrow> dactyl_error + (int \<times> 'w)"
where
  "bind_one S st i p w =
     (case p of
        PNull \<Rightarrow> Inr (bind_null S st i w)
      | PBool b \<Rightarrow> Inr (bind_int64 S st i (if b then 1 else 0) w)
      | PInteger v \<Rightarrow> Inr (bind_int64 S st i v w)
      | PReal v \<Rightarrow> Inr (bind_double S st i v w)
      | PText v \<Rightarrow>
          if int (length v) \<le> c_int_max then Inr (bind_text S st i v w)
          else Inl (adapter ValueKind [Txt ''SQLite text parameter is too large''])
      | PBlob v \<Rightarrow>
          if int (length v) \<le> c_int_max then Inr (bind_blob S st i v w)
          else Inl (adapter ValueKind [Txt ''SQLite blob parameter is too large'']))"

fun bind_from :: "'w sqlite_api \<Rightarrow> nat \<Rightarrow> nat \<Rightarrow> int \<Rightarrow> parameter list \<Rightarrow> ('w, dactyl_error, unit) io" where
  "bind_from S db st i [] w = Some (Inr (), w)"
| "bind_from S db st i (p # ps) w =
     (if i > c_int_max
      then Some (Inl (adapter InvalidOperation [Txt ''too many SQLite parameters'']), w)
      else case bind_one S st i p w of
        Inl e \<Rightarrow> Some (Inl e, w)
      | Inr (code, w1) \<Rightarrow>
          if code \<noteq> SQLITE_OK then Some (Inl (conn_error S db ''bind SQLite parameter'' code w1), w1)
          else bind_from S db st (i + 1) ps w1)"

definition bind_all :: "'w sqlite_api \<Rightarrow> nat \<Rightarrow> nat \<Rightarrow> parameter list \<Rightarrow> ('w, dactyl_error, unit) io" where
  "bind_all S db st params = bind_from S db st 1 params"

definition stmt_step :: "'w sqlite_api \<Rightarrow> nat \<Rightarrow> nat \<Rightarrow> ('w, dactyl_error, int) io" where
  "stmt_step S db st = (\<lambda>w.
     case step S st w of (code, w1) \<Rightarrow>
       if code = SQLITE_ROW \<or> code = SQLITE_DONE then Some (Inr code, w1)
       else Some (Inl (conn_error S db ''step SQLite statement'' code w1), w1))"

text \<open>\<open>prepare\<close>, the body, and the \<open>finalize\<close> of the statement's \<open>Drop\<close>, its code ignored.\<close>

definition with_statement ::
  "'w sqlite_api \<Rightarrow> nat \<Rightarrow> string \<Rightarrow> (nat \<Rightarrow> ('w, dactyl_error, 'a) io) \<Rightarrow> ('w, dactyl_error, 'a) io"
where
  "with_statement S db sql body =
     io_bind (prepare S db sql) (\<lambda>st w.
       case body st w of
         None \<Rightarrow> None
       | Some (r, w1) \<Rightarrow> Some (r, snd (finalize S st w1)))"

section \<open>Reading columns\<close>

definition stmt_column_name :: "'w sqlite_api \<Rightarrow> nat \<Rightarrow> 'w \<Rightarrow> int \<Rightarrow> string result" where
  "stmt_column_name S st w i =
     ok_or (adapter ValueKind [Txt ''SQLite returned a null column name'']) (column_name S st i w)"

text \<open>
  \<open>slice::from_raw_parts\<close>: the bytes behind the pointer. A null pointer is undefined behaviour
  even for length 0, so there is no result.
\<close>

definition raw_slice :: "u8 list option \<Rightarrow> int \<Rightarrow> u8 list option" where
  "raw_slice mem len = map_option (take (nat (max len 0))) mem"

definition column_value ::
  "'w sqlite_api \<Rightarrow> 'n json_api \<Rightarrow> nat \<Rightarrow> 'w \<Rightarrow> int \<Rightarrow> 'n json result option"
where
  "column_value S J st w i =
     (let kind = column_type S st i w in
      if kind = SQLITE_NULL then Some (Inr JNull)
      else if kind = SQLITE_INTEGER
      then Some (Inr (JNumber (num_from_i64 J (column_int64 S st i w))))
      else if kind = SQLITE_FLOAT
      then Some (ok_or (adapter ValueKind [Txt ''SQLite returned a non-finite REAL''])
             (map_option JNumber (num_from_f64 J (column_double S st i w))))
      else if kind = SQLITE_TEXT then
        (let pointer = column_text S st i w; len = column_bytes S st i w in
         if pointer = None \<and> len \<noteq> 0
         then Some (Inl (adapter ValueKind [Txt ''SQLite returned a null text pointer'']))
         else map_option (\<lambda>bs.
           ok_or (adapter ValueKind [Txt ''SQLite returned invalid UTF-8 text: '', Utf8Error bs])
             (map_option JString (from_utf8 bs))) (raw_slice pointer len))
      else if kind = SQLITE_BLOB then
        (let pointer = column_blob S st i w; len = column_bytes S st i w in
         if pointer = None \<and> len \<noteq> 0
         then Some (Inl (adapter ValueKind [Txt ''SQLite returned a null blob pointer'']))
         else map_option (\<lambda>bs. Inr (blob_json J bs)) (raw_slice pointer len))
      else Some (Inl (adapter ValueKind [Txt ''SQLite returned an unknown value type''])))"

definition column_indices :: "int \<Rightarrow> int list" where
  "column_indices n = map int [0..<nat n]"

section \<open>Writes\<close>

text \<open>The loop of \<open>execute_write\<close>: step until done, rows discarded.\<close>

partial_function (option) step_to_done ::
  "'w sqlite_api \<Rightarrow> nat \<Rightarrow> nat \<Rightarrow> 'w \<Rightarrow> (unit result \<times> 'w) option"
where
  "step_to_done S db st w =
     (case step S st w of (code, w1) \<Rightarrow>
        if code = SQLITE_ROW then step_to_done S db st w1
        else if code = SQLITE_DONE then Some (Inr (), w1)
        else Some (Inl (conn_error S db ''step SQLite statement'' code w1), w1))"

text \<open>\<open>i64\<close> to \<open>u64\<close> with \<open>try_into().unwrap_or_default()\<close>.\<close>

definition u64_or_default :: "i64 \<Rightarrow> u64" where
  "u64_or_default v = (if 0 \<le> sint v then v else 0)"

definition write_keys :: "'w sqlite_api \<Rightarrow> nat \<Rightarrow> string \<Rightarrow> 'w \<Rightarrow> generated_key list" where
  "write_keys S db sql w =
     (if first_word sql = Some ''insert'' then
        (let rowid = last_insert_rowid S db w in if rowid \<noteq> 0 then [KInteger rowid] else [])
      else [])"

definition execute_write ::
  "'w sqlite_api \<Rightarrow> nat \<Rightarrow> string \<Rightarrow> parameter list \<Rightarrow> ('w, dactyl_error, write_result) io"
where
  "execute_write S db sql params =
     with_statement S db sql (\<lambda>st.
       io_bind (bind_all S db st params) (\<lambda>_.
       io_bind (step_to_done S db st) (\<lambda>_ w.
         Some (Inr \<lparr>affected_rows = u64_or_default (changes64 S db w),
                    generated_keys = write_keys S db sql w\<rparr>, w))))"

section \<open>Queries\<close>

text \<open>The loop of \<open>query_rows\<close>, with the rows read so far.\<close>

partial_function (option) fetch_rows ::
  "'w sqlite_api \<Rightarrow> 'n json_api \<Rightarrow> nat \<Rightarrow> nat \<Rightarrow> string list \<Rightarrow> int \<Rightarrow> 'n rows \<Rightarrow> 'w \<Rightarrow> ('n rows result \<times> 'w) option"
where
  "fetch_rows S J db st cols n acc w =
     (case step S st w of (code, w1) \<Rightarrow>
        if code = SQLITE_ROW then
          (case partial_traverse (column_value S J st w1) (column_indices n) of
             None \<Rightarrow> None
           | Some (Inl e) \<Rightarrow> Some (Inl e, w1)
           | Some (Inr vs) \<Rightarrow>
               fetch_rows S J db st cols n (acc @ [\<lparr>row_columns = cols, row_values = vs\<rparr>]) w1)
        else if code = SQLITE_DONE then Some (Inr acc, w1)
        else Some (Inl (conn_error S db ''step SQLite statement'' code w1), w1))"

definition query_rows ::
  "'w sqlite_api \<Rightarrow> 'n json_api \<Rightarrow> nat \<Rightarrow> string \<Rightarrow> parameter list \<Rightarrow> ('w, dactyl_error, 'n rows) io"
where
  "query_rows S J db sql params =
     with_statement S db sql (\<lambda>st.
       io_bind (bind_all S db st params) (\<lambda>_ w.
         (let n = column_count S st w in
          case traverse (stmt_column_name S st w) (column_indices n) of
            Inl e \<Rightarrow> Some (Inl e, w)
          | Inr cols \<Rightarrow> fetch_rows S J db st cols n [] w)))"

section \<open>Unprepared execution\<close>

definition exec_sql :: "'w sqlite_api \<Rightarrow> nat \<Rightarrow> string \<Rightarrow> ('w, sqlite_failure, unit) io" where
  "exec_sql S db sql = (\<lambda>w.
     if has_nul sql
     then Some (Inl \<lparr>failure_code = SQLITE_ERROR, failure_extended = SQLITE_ERROR,
                     failure_message = ''SQL contains an interior NUL byte''\<rparr>, w)
     else case exec S db sql w of (code, w1) \<Rightarrow>
       if code = SQLITE_OK then Some (Inr (), w1) else Some (Inl (failure_of S db w1), w1))"

section \<open>Facts\<close>

declare step_to_done.simps [code] fetch_rows.simps [code]

lemma with_statement_Some_iff:
  "with_statement S db sql body w = Some (r, w') \<longleftrightarrow>
     (\<exists>e. prepare S db sql w = Some (Inl e, w') \<and> r = Inl e) \<or>
     (\<exists>st w1 w2. prepare S db sql w = Some (Inr st, w1) \<and> body st w1 = Some (r, w2) \<and>
        w' = snd (finalize S st w2))"
proof -
  have "(case body st w1 of None \<Rightarrow> None | Some (r, w2) \<Rightarrow> Some (r, snd (finalize S st w2))) = Some (r, w') \<longleftrightarrow>
      (\<exists>w2. body st w1 = Some (r, w2) \<and> w' = snd (finalize S st w2))" for st w1
    by (cases "body st w1") auto
  then show ?thesis by (auto simp: with_statement_def io_bind_Some_iff)
qed

text \<open>
  What a fetch returns: the rows it had, then rows that all carry the statement's column names
  and one value for each.
\<close>

definition well_shaped :: "string list \<Rightarrow> int \<Rightarrow> 'n row \<Rightarrow> bool" where
  "well_shaped cols n row \<longleftrightarrow> row_columns row = cols \<and> length (row_values row) = nat n"

lemma fetch_rows_shape:
  fixes acc :: "'n rows" and w :: 'w
  assumes "fetch_rows S J db st cols n acc w = Some (Inr rows, w')"
  shows "\<exists>more. rows = acc @ more \<and> list_all (well_shaped cols n) more"
proof -
  let ?P = "\<lambda>(acc :: 'n rows) (y :: 'n rows result \<times> 'w). \<forall>rows. fst y = Inr rows \<longrightarrow>
      (\<exists>more. rows = acc @ more \<and> list_all (well_shaped cols n) more)"
  have "cols = cols \<longrightarrow> n = n \<longrightarrow> ?P acc (Inr rows, w')"
  proof (rule fetch_rows.raw_induct [where
        P = "\<lambda>S J db st cols' n' acc w y. cols' = cols \<longrightarrow> n' = n \<longrightarrow> ?P acc y", OF _ assms],
      intro impI)
    fix f and S :: "'w sqlite_api" and J :: "'n json_api" and db st cols' n' acc w y
    assume IH: "\<And>S J db st cols' n' acc w y. f S J db st cols' n' acc w = Some y \<Longrightarrow>
        cols' = cols \<longrightarrow> n' = n \<longrightarrow> ?P acc y"
      and eq: "(case step S st w of (code, w1) \<Rightarrow>
        if code = SQLITE_ROW then
          (case partial_traverse (column_value S J st w1) (column_indices n') of
             None \<Rightarrow> None
           | Some (Inl e) \<Rightarrow> Some (Inl e, w1)
           | Some (Inr vs) \<Rightarrow>
               f S J db st cols' n' (acc @ [\<lparr>row_columns = cols', row_values = vs\<rparr>]) w1)
        else if code = SQLITE_DONE then Some (Inr acc, w1)
        else Some (Inl (conn_error S db ''step SQLite statement'' code w1), w1)) = Some y"
      and same: "cols' = cols" "n' = n"
    obtain code w1 where st: "step S st w = (code, w1)" by (cases "step S st w")
    show "?P acc y"
    proof (cases "code = SQLITE_ROW")
      case False
      with eq st show ?thesis by (auto split: if_splits)
    next
      case True
      with eq st obtain q where q: "partial_traverse (column_value S J st w1) (column_indices n') = Some q"
        by (auto split: option.splits)
      show ?thesis
      proof (cases q)
        case (Inl e)
        with eq st True q show ?thesis by auto
      next
        case (Inr vs)
        let ?row = "\<lparr>row_columns = cols', row_values = vs\<rparr>"
        from eq st True q Inr have "f S J db st cols' n' (acc @ [?row]) w1 = Some y" by simp
        from IH [OF this] same have "?P (acc @ [?row]) y" by simp
        moreover from q Inr have "length vs = nat n'"
          by (auto dest!: partial_traverse_length simp: column_indices_def)
        with same have "well_shaped cols n ?row" by (simp add: well_shaped_def)
        ultimately show ?thesis by fastforce
      qed
    qed
  qed
  then show ?thesis by simp
qed

section \<open>Invariants of a statement's life\<close>

text \<open>
  What a claim about the world needs from SQLite for one statement text: \<open>P\<close> before
  preparing, \<open>R st\<close> while the statement runs, \<open>P\<close> again after it is finalized, and \<open>E\<close> after
  any failure. The lemmas lift such laws to whole writes and queries.
\<close>

definition bind_keeps :: "'w sqlite_api \<Rightarrow> nat \<Rightarrow> ('w \<Rightarrow> bool) \<Rightarrow> ('w \<Rightarrow> bool) \<Rightarrow> bool" where
  "bind_keeps S st R E \<longleftrightarrow>
     (\<forall>i p w code w1. R w \<longrightarrow> bind_one S st i p w = Inr (code, w1) \<longrightarrow>
        (if code = SQLITE_OK then R w1 else E w1))"

definition step_keeps :: "'w sqlite_api \<Rightarrow> nat \<Rightarrow> ('w \<Rightarrow> bool) \<Rightarrow> ('w \<Rightarrow> bool) \<Rightarrow> bool" where
  "step_keeps S st R E \<longleftrightarrow>
     (\<forall>w code w1. R w \<longrightarrow> step S st w = (code, w1) \<longrightarrow>
        (if code = SQLITE_ROW \<or> code = SQLITE_DONE then R w1 else E w1))"

definition statement_laws ::
  "'w sqlite_api \<Rightarrow> nat \<Rightarrow> string \<Rightarrow> ('w \<Rightarrow> bool) \<Rightarrow> (nat \<Rightarrow> 'w \<Rightarrow> bool) \<Rightarrow> ('w \<Rightarrow> bool) \<Rightarrow> bool"
where
  "statement_laws S db sql P R E \<longleftrightarrow>
     (\<forall>w. P w \<longrightarrow> E w) \<and> (\<forall>st w. R st w \<longrightarrow> E w) \<and>
     (\<forall>w code st w1. P w \<longrightarrow> prepare_v2 S db sql w = ((code, st), w1) \<longrightarrow>
        (if code = SQLITE_OK \<and> st \<noteq> 0 then R st w1 else E w1)) \<and>
     (\<forall>st. bind_keeps S st (R st) E \<and> step_keeps S st (R st) E) \<and>
     (\<forall>st w. R st w \<longrightarrow> P (snd (finalize S st w))) \<and>
     (\<forall>st w. E w \<longrightarrow> E (snd (finalize S st w)))"

lemma bind_from_triple:
  assumes "bind_keeps S st R E" and "\<And>w. R w \<Longrightarrow> E w"
  shows "triple R (bind_from S db st i ps) (\<lambda>_. R) (\<lambda>_. E)"
proof (induction ps arbitrary: i)
  case Nil
  then show ?case by (auto simp: triple_def)
next
  case (Cons p ps)
  show ?case
  proof (rule tripleI)
    fix w x w'
    assume R: "R w" and r: "bind_from S db st i (p # ps) w = Some (Inr x, w')"
    then obtain w1 where "bind_one S st i p w = Inr (SQLITE_OK, w1)"
      and "bind_from S db st (i + 1) ps w1 = Some (Inr x, w')"
      by (auto split: if_splits sum.splits)
    moreover from calculation R assms(1) have "R w1" by (fastforce simp: bind_keeps_def)
    ultimately show "R w'" using Cons by (blast dest: triple_ok)
  next
    fix w e w'
    assume R: "R w" and r: "bind_from S db st i (p # ps) w = Some (Inl e, w')"
    show "E w'"
    proof (cases "i > c_int_max \<or> isl (bind_one S st i p w)")
      case True
      with r R assms(2) show ?thesis by (auto split: if_splits sum.splits)
    next
      case False
      then obtain code w1 where b: "bind_one S st i p w = Inr (code, w1)"
        by (cases "bind_one S st i p w") auto
      show ?thesis
      proof (cases "code = SQLITE_OK")
        case True
        with b R assms(1) have "R w1" by (fastforce simp: bind_keeps_def)
        moreover from b True r False have "bind_from S db st (i + 1) ps w1 = Some (Inl e, w')" by simp
        ultimately show ?thesis using Cons by (blast dest: triple_err)
      next
        case code: False
        with b R assms(1) have "E w1" by (fastforce simp: bind_keeps_def)
        moreover from b code r False have "w' = w1" by simp
        ultimately show ?thesis by simp
      qed
    qed
  qed
qed

lemma step_to_done_triple:
  fixes S :: "'w sqlite_api"
  assumes "step_keeps S st R E"
  shows "triple R (step_to_done S db st) (\<lambda>_. R) (\<lambda>_. E)"
proof -
  let ?G = "\<lambda>(y :: unit result \<times> 'w). if isl (fst y) then E (snd y) else R (snd y)"
  have "S = S \<longrightarrow> st = st \<longrightarrow> R w \<longrightarrow> ?G y" if y: "step_to_done S db st w = Some y" for w y
  proof (rule step_to_done.raw_induct [where
        P = "\<lambda>S' db st' w y. S' = S \<longrightarrow> st' = st \<longrightarrow> R w \<longrightarrow> ?G y", OF _ y], intro impI)
    fix f and S' :: "'w sqlite_api" and db st' w y
    assume IH: "\<And>S' db st' w y. f S' db st' w = Some y \<Longrightarrow> S' = S \<longrightarrow> st' = st \<longrightarrow> R w \<longrightarrow> ?G y"
      and eq: "(case step S' st' w of (code, w1) \<Rightarrow>
        if code = SQLITE_ROW then f S' db st' w1
        else if code = SQLITE_DONE then Some (Inr (), w1)
        else Some (Inl (conn_error S' db ''step SQLite statement'' code w1), w1)) = Some y"
      and same: "S' = S" "st' = st" and R: "R w"
    obtain code w1 where s: "step S st w = (code, w1)" by (cases "step S st w")
    with assms R have k: "if code = SQLITE_ROW \<or> code = SQLITE_DONE then R w1 else E w1"
      by (simp add: step_keeps_def)
    show "?G y"
    proof (cases "code = SQLITE_ROW")
      case True
      with eq s same have "f S db st w1 = Some y" by simp
      from IH [OF this] k True show ?thesis by simp
    next
      case False
      with eq s same k show ?thesis by (auto split: if_splits)
    qed
  qed
  then show ?thesis by (intro tripleI) fastforce+
qed

lemma fetch_rows_triple:
  fixes S :: "'w sqlite_api" and acc :: "'n rows"
  assumes "step_keeps S st R E" and "\<And>w. R w \<Longrightarrow> E w"
  shows "triple R (fetch_rows S J db st cols n acc) (\<lambda>_. R) (\<lambda>_. E)"
proof -
  let ?G = "\<lambda>(y :: 'n rows result \<times> 'w). if isl (fst y) then E (snd y) else R (snd y)"
  have "S = S \<longrightarrow> st = st \<longrightarrow> R w \<longrightarrow> ?G y" if y: "fetch_rows S J db st cols n acc w = Some y" for w y
  proof (rule fetch_rows.raw_induct [where
        P = "\<lambda>S' J db st' cols n acc w y. S' = S \<longrightarrow> st' = st \<longrightarrow> R w \<longrightarrow> ?G y", OF _ y], intro impI)
    fix f and S' :: "'w sqlite_api" and J :: "'n json_api" and db st' cols n acc w y
    assume IH: "\<And>S' J db st' cols n acc w y. f S' J db st' cols n acc w = Some y \<Longrightarrow>
        S' = S \<longrightarrow> st' = st \<longrightarrow> R w \<longrightarrow> ?G y"
      and eq: "(case step S' st' w of (code, w1) \<Rightarrow>
        if code = SQLITE_ROW then
          (case partial_traverse (column_value S' J st' w1) (column_indices n) of
             None \<Rightarrow> None
           | Some (Inl e) \<Rightarrow> Some (Inl e, w1)
           | Some (Inr vs) \<Rightarrow>
               f S' J db st' cols n (acc @ [\<lparr>row_columns = cols, row_values = vs\<rparr>]) w1)
        else if code = SQLITE_DONE then Some (Inr acc, w1)
        else Some (Inl (conn_error S' db ''step SQLite statement'' code w1), w1)) = Some y"
      and same: "S' = S" "st' = st" and R: "R w"
    obtain code w1 where s: "step S st w = (code, w1)" by (cases "step S st w")
    with assms(1) R have k: "if code = SQLITE_ROW \<or> code = SQLITE_DONE then R w1 else E w1"
      by (simp add: step_keeps_def)
    show "?G y"
    proof (cases "code = SQLITE_ROW")
      case False
      with eq s same k show ?thesis by (auto split: if_splits)
    next
      case True
      with k have R1: "R w1" by simp
      from True eq s same obtain q
        where q: "partial_traverse (column_value S J st w1) (column_indices n) = Some q"
        by (auto split: option.splits)
      show ?thesis
      proof (cases q)
        case (Inl e)
        with eq s same True q R1 assms(2) show ?thesis by auto
      next
        case (Inr vs)
        with eq s same True q
        have "f S J db st cols n (acc @ [\<lparr>row_columns = cols, row_values = vs\<rparr>]) w1 = Some y" by simp
        from IH [OF this] R1 show ?thesis by simp
      qed
    qed
  qed
  then show ?thesis by (intro tripleI) fastforce+
qed

lemma with_statement_triple:
  assumes laws: "statement_laws S db sql P R E"
    and body: "\<And>st. triple (R st) (body st) (\<lambda>_. R st) (\<lambda>_. E)"
  shows "triple P (with_statement S db sql body) (\<lambda>_. P) (\<lambda>_. E)"
proof (rule tripleI)
  fix w x w'
  assume "P w" and "with_statement S db sql body w = Some (Inr x, w')"
  then obtain st w1 w2 where p: "prepare S db sql w = Some (Inr st, w1)"
    and b: "body st w1 = Some (Inr x, w2)" and w': "w' = snd (finalize S st w2)"
    by (auto simp: with_statement_Some_iff)
  from p have "prepare_v2 S db sql w = ((SQLITE_OK, st), w1)" "st \<noteq> 0"
    by (auto simp: prepare_def split: prod.splits if_splits)
  with laws \<open>P w\<close> have "R st w1" unfolding statement_laws_def by fastforce
  with body b have "R st w2" by (blast dest: triple_ok)
  with laws w' show "P w'" by (simp add: statement_laws_def)
next
  fix w e w'
  assume "P w" and "with_statement S db sql body w = Some (Inl e, w')"
  then consider (prep) "prepare S db sql w = Some (Inl e, w')"
    | (body) st w1 w2 where "prepare S db sql w = Some (Inr st, w1)" "body st w1 = Some (Inl e, w2)"
        "w' = snd (finalize S st w2)"
    by (auto simp: with_statement_Some_iff)
  then show "E w'"
  proof cases
    case prep
    show ?thesis
    proof (cases "has_nul sql")
      case True
      with prep \<open>P w\<close> laws show ?thesis by (auto simp: prepare_def statement_laws_def)
    next
      case False
      obtain code st w1 where p: "prepare_v2 S db sql w = ((code, st), w1)" by (metis surj_pair)
      with prep False have "w' = w1" "\<not> (code = SQLITE_OK \<and> st \<noteq> 0)"
        by (auto simp: prepare_def split: if_splits)
      moreover have "if code = SQLITE_OK \<and> st \<noteq> 0 then R st w1 else E w1"
        using laws p \<open>P w\<close> unfolding statement_laws_def by blast
      ultimately show ?thesis by simp
    qed
  next
    case body
    then have "prepare_v2 S db sql w = ((SQLITE_OK, st), w1)" "st \<noteq> 0"
      by (auto simp: prepare_def split: prod.splits if_splits)
    with laws \<open>P w\<close> have "R st w1" unfolding statement_laws_def by fastforce
    with assms(2) body(2) have "E w2" by (blast dest: triple_err)
    with laws body(3) show ?thesis by (simp add: statement_laws_def)
  qed
qed

lemma statement_lawsD:
  assumes "statement_laws S db sql P R E"
  shows "bind_keeps S st (R st) E" "step_keeps S st (R st) E" "\<And>st w. R st w \<Longrightarrow> E w"
  using assms by (auto simp: statement_laws_def)

lemma execute_write_triple:
  assumes laws: "statement_laws S db sql P R E"
  shows "triple P (execute_write S db sql params) (\<lambda>_. P) (\<lambda>_. E)"
  unfolding execute_write_def
proof (rule with_statement_triple [OF laws])
  fix st
  note L = statement_lawsD [OF laws, where st = st]
  show "triple (R st) (io_bind (bind_all S db st params) (\<lambda>_. io_bind (step_to_done S db st) (\<lambda>_ w.
      Some (Inr \<lparr>affected_rows = u64_or_default (changes64 S db w),
                 generated_keys = write_keys S db sql w\<rparr>, w)))) (\<lambda>_. R st) (\<lambda>_. E)"
    unfolding bind_all_def
    by (rule triple_bind [OF bind_from_triple [OF L(1) L(3)]],
        assumption, rule triple_bind [OF step_to_done_triple [OF L(2)]]) (simp add: triple_def)
qed

lemma query_rows_triple:
  assumes laws: "statement_laws S db sql P R E"
  shows "triple P (query_rows S J db sql params) (\<lambda>_. P) (\<lambda>_. E)"
  unfolding query_rows_def
proof (rule with_statement_triple [OF laws])
  fix st
  note L = statement_lawsD [OF laws, where st = st]
  show "triple (R st) (io_bind (bind_all S db st params) (\<lambda>_ w. let n = column_count S st w in
      case traverse (stmt_column_name S st w) (column_indices n) of
        Inl e \<Rightarrow> Some (Inl e, w)
      | Inr cols \<Rightarrow> fetch_rows S J db st cols n [] w)) (\<lambda>_. R st) (\<lambda>_. E)"
    unfolding bind_all_def
  proof (rule triple_bind [OF bind_from_triple [OF L(1) L(3)]], assumption, rule tripleI)
    fix w x w'
    assume "R st w" and "(let n = column_count S st w in
      case traverse (stmt_column_name S st w) (column_indices n) of
        Inl e \<Rightarrow> Some (Inl e, w)
      | Inr cols \<Rightarrow> fetch_rows S J db st cols n [] w) = Some (Inr x, w')"
    then obtain cols where "fetch_rows S J db st cols (column_count S st w) [] w = Some (Inr x, w')"
      by (auto simp: Let_def split: sum.splits)
    from triple_ok [OF fetch_rows_triple [OF L(2) L(3)] \<open>R st w\<close> this] show "R st w'" .
  next
    fix w e w'
    assume R: "R st w" and "(let n = column_count S st w in
      case traverse (stmt_column_name S st w) (column_indices n) of
        Inl e \<Rightarrow> Some (Inl e, w)
      | Inr cols \<Rightarrow> fetch_rows S J db st cols n [] w) = Some (Inl e, w')"
    then consider "w' = w"
      | cols where "fetch_rows S J db st cols (column_count S st w) [] w = Some (Inl e, w')"
      by (auto simp: Let_def split: sum.splits)
    then show "E w'"
    proof cases
      case 1
      with R show ?thesis by (simp add: L(3))
    next
      case 2
      from triple_err [OF fetch_rows_triple [OF L(2) L(3)] R this] show ?thesis .
    qed
  qed
qed

end
