(* ===== verification/Mini_Sqlite.thy ===== *)
theory Mini_Sqlite
  imports Sqlite_Statement
begin

text \<open>
  A small SQLite to evaluate the model on: an instance of \<open>'w sqlite_api\<close> whose database is the
  list of statements applied to it. It has one transaction at a time, prepared statements, the
  two counters of \<open>changes64\<close> and \<open>last_insert_rowid\<close> with SQLite's documented update rules,
  statements that violate a constraint, and queries of one row. Closed examples and witnesses
  run on it; no lemma about the driver assumes it.
\<close>

record mini =
  mini_disk :: "string list"
  mini_work :: "string list option"
  mini_stmts :: "(nat \<times> (string \<times> nat)) list"
  mini_next :: nat
  mini_changes :: i64
  mini_rowid :: i64

definition mini_empty :: mini where
  "mini_empty = \<lparr>mini_disk = [], mini_work = None, mini_stmts = [], mini_next = 1,
     mini_changes = 0, mini_rowid = 0\<rparr>"

definition mini_is_control :: "string \<Rightarrow> bool" where
  "mini_is_control sql \<longleftrightarrow> first_word sql \<in> {Some ''begin'', Some ''commit'', Some ''rollback''}"

definition mini_control :: "string \<Rightarrow> mini \<Rightarrow> int \<times> mini" where
  "mini_control sql w =
     (if first_word sql = Some ''begin'' then
        (case mini_work w of
           None \<Rightarrow> (SQLITE_OK, w\<lparr>mini_work := Some (mini_disk w)\<rparr>)
         | Some d \<Rightarrow> (SQLITE_ERROR, w))
      else case mini_work w of
        None \<Rightarrow> (SQLITE_ERROR, w)
      | Some d \<Rightarrow>
          (SQLITE_OK, (if first_word sql = Some ''commit'' then w\<lparr>mini_disk := d, mini_work := None\<rparr>
             else w\<lparr>mini_work := None\<rparr>)))"

definition mini_apply :: "string \<Rightarrow> mini \<Rightarrow> mini" where
  "mini_apply sql w =
     (case mini_work w of
        None \<Rightarrow> w\<lparr>mini_disk := mini_disk w @ [sql]\<rparr>
      | Some d \<Rightarrow> w\<lparr>mini_work := Some (d @ [sql])\<rparr>)"

text \<open>
  One statement run to its end. The word \<open>bad\<close> violates a constraint. An \<open>INSERT\<close> that is
  ignored (\<open>insert or ignore ...\<close>) changes no row and leaves the last rowid alone; statements
  that are not \<open>INSERT\<close>, \<open>UPDATE\<close> or \<open>DELETE\<close> leave both counters alone.
\<close>

definition mini_run :: "string \<Rightarrow> mini \<Rightarrow> int \<times> mini" where
  "mini_run sql w =
     (if mini_is_control sql then mini_control sql w
      else if first_word sql = Some ''bad'' then (SQLITE_CONSTRAINT, w)
      else if starts_with sql ''insert or ignore'' then (SQLITE_OK, w\<lparr>mini_changes := 0\<rparr>)
      else if first_word sql = Some ''insert''
      then (SQLITE_OK, mini_apply sql (w\<lparr>mini_changes := 1, mini_rowid := mini_rowid w + 1\<rparr>))
      else (SQLITE_OK, mini_apply sql w))"

definition mini_prepare :: "nat \<Rightarrow> string \<Rightarrow> mini \<Rightarrow> (int \<times> nat) \<times> mini" where
  "mini_prepare db sql w =
     (if trim sql = [] then ((SQLITE_OK, 0), w)
      else ((SQLITE_OK, mini_next w),
        w\<lparr>mini_stmts := (mini_next w, (sql, 0)) # mini_stmts w, mini_next := mini_next w + 1\<rparr>))"

definition mini_step :: "nat \<Rightarrow> mini \<Rightarrow> int \<times> mini" where
  "mini_step st w =
     (case map_of (mini_stmts w) st of
        None \<Rightarrow> (21, w)
      | Some (sql, k) \<Rightarrow>
          if is_query (first_word sql) then
            (if k = 0 then (SQLITE_ROW, w\<lparr>mini_stmts := (st, (sql, 1)) # mini_stmts w\<rparr>)
             else (SQLITE_DONE, w))
          else (case mini_run sql w of (code, w1) \<Rightarrow> (if code = SQLITE_OK then SQLITE_DONE else code, w1)))"

text \<open>The text of a prepared statement (\<open>sqlite3_sql\<close>).\<close>

definition mini_sql :: "nat \<Rightarrow> mini \<Rightarrow> string option" where
  "mini_sql st w = map_option fst (map_of (mini_stmts w) st)"

text \<open>
  Queries have one column \<open>x\<close>: the number 1, or for \<open>select x''''\<close> the empty blob, which
  SQLite documents to come back as a null pointer.
\<close>

definition mini_is_blob :: "nat \<Rightarrow> mini \<Rightarrow> bool" where
  "mini_is_blob st w \<longleftrightarrow> mini_sql st w = Some ''select zeroblob(0)''"

definition mini_sqlite :: "mini sqlite_api" where
  "mini_sqlite =
     \<lparr>open_v2 = (\<lambda>path flags w. ((SQLITE_OK, 1), w)),
      close_db = (\<lambda>db w. (SQLITE_OK, w)),
      errmsg = (\<lambda>db w. Some ''constraint failed''),
      errcode = (\<lambda>db w. SQLITE_CONSTRAINT),
      extended_errcode = (\<lambda>db w. SQLITE_CONSTRAINT),
      busy_timeout = (\<lambda>db ms w. (SQLITE_OK, w)),
      exec = (\<lambda>db sql w. mini_run sql w),
      prepare_v2 = mini_prepare,
      finalize = (\<lambda>st w. (SQLITE_OK, w)),
      bind_null = (\<lambda>st i w. (SQLITE_OK, w)),
      bind_int64 = (\<lambda>st i v w. (SQLITE_OK, w)),
      bind_double = (\<lambda>st i v w. (SQLITE_OK, w)),
      bind_text = (\<lambda>st i v w. (SQLITE_OK, w)),
      bind_blob = (\<lambda>st i v w. (SQLITE_OK, w)),
      step = mini_step,
      column_count = (\<lambda>st w. 1),
      column_name = (\<lambda>st i w. Some ''x''),
      column_type = (\<lambda>st i w. if mini_is_blob st w then SQLITE_BLOB else SQLITE_INTEGER),
      column_int64 = (\<lambda>st i w. 1),
      column_double = (\<lambda>st i w. 0),
      column_text = (\<lambda>st i w. None),
      column_bytes = (\<lambda>st i w. 0),
      column_blob = (\<lambda>st i w. None),
      changes64 = (\<lambda>db w. mini_changes w),
      last_insert_rowid = (\<lambda>db w. mini_rowid w),
      backup_init = (\<lambda>d s1 s s2 w. (0, w)),
      backup_step = (\<lambda>b n w. (SQLITE_DONE, w)),
      backup_finish = (\<lambda>b w. (SQLITE_OK, w))\<rparr>"

lemma mini_sqlite_simps [simp]:
  "open_v2 mini_sqlite path flags w = ((SQLITE_OK, 1), w)"
  "exec mini_sqlite db sql w = mini_run sql w"
  "prepare_v2 mini_sqlite db sql w = mini_prepare db sql w"
  "finalize mini_sqlite st w = (SQLITE_OK, w)"
  "step mini_sqlite st w = mini_step st w"
  "column_count mini_sqlite st w = 1"
  "column_name mini_sqlite st i w = Some ''x''"
  "column_type mini_sqlite st i w = (if mini_is_blob st w then SQLITE_BLOB else SQLITE_INTEGER)"
  "column_int64 mini_sqlite st i w = 1"
  "column_bytes mini_sqlite st i w = 0"
  "column_blob mini_sqlite st i w = None"
  "changes64 mini_sqlite db w = mini_changes w"
  "last_insert_rowid mini_sqlite db w = mini_rowid w"
  by (simp_all add: mini_sqlite_def)

lemma mini_bind_one: "bind_one mini_sqlite st i p w = Inr (code, w1) \<Longrightarrow> code = SQLITE_OK \<and> w1 = w"
  by (cases p) (auto simp: bind_one_def mini_sqlite_def split: if_splits)

end
