(* ===== verification/Sqlite_Queries.thy ===== *)
theory Sqlite_Queries
  imports Mini_Sqlite
begin

text \<open>
  What a query of the SQLite driver returns: the shape of its rows, values read back through
  the typed getters of \<open>src/rows.rs\<close>, and the case that has no defined result.
\<close>

section \<open>Facts\<close>

lemma query_rows_shape:
  fixes rows :: "'n rows"
  assumes "query_rows S J db sql params w = Some (Inr rows, w')"
  shows "\<exists>cols n. length cols = nat n \<and> list_all (well_shaped cols n) rows"
proof -
  let ?cols = "\<lambda>st w. traverse (stmt_column_name S st w) (column_indices (column_count S st w))"
  from assms obtain st w1 w2
    where k: "(case ?cols st w1 of Inl e \<Rightarrow> Some (Inl e, w1)
        | Inr cols \<Rightarrow> fetch_rows S J db st cols (column_count S st w1) [] w1) = Some (Inr rows, w2)"
    by (auto simp: query_rows_def with_statement_Some_iff io_bind_Some_iff Let_def)
  then obtain cols where c: "?cols st w1 = Inr cols"
      and f: "\<exists>w2. fetch_rows S J db st cols (column_count S st w1) [] w1 = Some (Inr rows, w2)"
    by (cases "?cols st w1") auto
  from f obtain w2 where "fetch_rows S J db st cols (column_count S st w1) [] w1 = Some (Inr rows, w2)" ..
  from fetch_rows_shape [OF this] have "list_all (well_shaped cols (column_count S st w1)) rows" by simp
  moreover from c have "length cols = nat (column_count S st w1)"
    by (auto dest!: traverse_length simp: column_indices_def)
  ultimately show ?thesis by blast
qed

lemma partial_traverse_None:
  "(\<And>u. u \<in> set us \<Longrightarrow> \<exists>y. f u = Some (Inr y)) \<Longrightarrow> f x = None \<Longrightarrow>
     partial_traverse f (us @ x # vs) = None"
  by (induction us) (fastforce split: option.splits sum.splits)+

section \<open>Properties\<close>

text \<open>
  C12: every row of a query has the same column names, in the order of the statement, and as
  many values as names, so every resolvable name or position below that count is in range.
\<close>

theorem query_rows_uniform:
  fixes rows :: "'n rows"
  assumes "query_rows S J db sql params w = Some (Inr rows, w')"
  shows "\<exists>cols. \<forall>row \<in> set rows. row_columns row = cols \<and> length (row_values row) = length cols \<and>
     (\<forall>c \<in> set cols. \<exists>v. get_json row (ByName c) = Inr v)"
proof -
  from query_rows_shape [OF assms] obtain cols n
    where n: "length cols = nat n" and all: "list_all (well_shaped cols n) rows" by blast
  have "\<exists>v. get_json row (ByName c) = Inr v" if "well_shaped cols n row" "c \<in> set cols" for row c
  proof -
    have "position (\<lambda>x. x = c) cols \<noteq> None" using that(2) by (simp add: position_None_iff)
    then obtain i where "position (\<lambda>x. x = c) cols = Some i" by blast
    with that(1) n show ?thesis
      by (auto simp: get_json_def row_cell_Inr_iff well_shaped_def position_Some_iff)
  qed
  with n all show ?thesis by (intro exI [of _ cols]) (auto simp: list_all_iff well_shaped_def)
qed

theorem query_rows_uniform_witness:
  "\<exists>cols rows w'. query_rows mini_sqlite ref_json 1 ''select 1'' [] mini_empty = Some (Inr rows, w') \<and>
     rows \<noteq> [] \<and> (\<forall>row \<in> set rows. row_columns row = cols \<and> length (row_values row) = length cols)"
proof -
  let ?r = "query_rows mini_sqlite ref_json 1 ''select 1'' [] mini_empty"
  have "returns ?r (\<lambda>rows w'. rows \<noteq> [])" by code_simp
  then obtain rows w' where r: "?r = Some (Inr rows, w')" "rows \<noteq> []" by (rule returnsE)
  with query_rows_uniform [OF r(1)] show ?thesis by blast
qed

text \<open>
  C11: values survive the trip from a SQLite column to the caller: an INTEGER cell reads back
  as its \<open>i64\<close>, a REAL as its \<open>f64\<close>, TEXT as its characters, a BLOB as its bytes, NULL as
  NULL, each through the getter of its type and with nothing lost.
\<close>

theorem column_values_read_back:
  assumes "json_laws J" and "column_value S J st w i = Some (Inr v)" and "row_cell row ix = Inr v"
  shows "(column_type S st i w = SQLITE_INTEGER \<longrightarrow> get_int J row ix = Inr (column_int64 S st i w)) \<and>
     (column_type S st i w = SQLITE_FLOAT \<longrightarrow> get_real J row ix = Inr (column_double S st i w)) \<and>
     (column_type S st i w = SQLITE_TEXT \<longrightarrow> (\<exists>mem s. column_text S st i w = Some mem \<and>
        from_utf8 (take (nat (max (column_bytes S st i w) 0)) mem) = Some s \<and> get_str J row ix = Inr s)) \<and>
     (column_type S st i w = SQLITE_BLOB \<longrightarrow> (\<exists>mem. column_blob S st i w = Some mem \<and>
        get_blob J row ix = Inr (take (nat (max (column_bytes S st i w) 0)) mem))) \<and>
     (column_type S st i w = SQLITE_NULL \<longrightarrow> row_is_null row ix = Inr True)"
proof (intro conjI impI)
  note v = assms(2) [unfolded column_value_def Let_def]
  show "get_int J row ix = Inr (column_int64 S st i w)" if "column_type S st i w = SQLITE_INTEGER"
    using v that assms(1,3) by (auto simp: int_getter.ok_iff json_laws_def)
  show "get_real J row ix = Inr (column_double S st i w)" if "column_type S st i w = SQLITE_FLOAT"
    using v that assms(1,3) by (auto simp: real_getter.ok_iff json_laws_def ok_or_Inr_iff)
  show "\<exists>mem s. column_text S st i w = Some mem \<and>
        from_utf8 (take (nat (max (column_bytes S st i w) 0)) mem) = Some s \<and> get_str J row ix = Inr s"
    if "column_type S st i w = SQLITE_TEXT"
    using v that assms(3) by (auto simp: str_getter.ok_iff raw_slice_def ok_or_Inr_iff split: if_splits)
  show "\<exists>mem. column_blob S st i w = Some mem \<and>
        get_blob J row ix = Inr (take (nat (max (column_bytes S st i w) 0)) mem)"
    if "column_type S st i w = SQLITE_BLOB"
    using v that assms(3)
    by (auto simp: blob_getter.ok_iff raw_slice_def accept_blob_json [OF assms(1)] split: if_splits)
  show "row_is_null row ix = Inr True" if "column_type S st i w = SQLITE_NULL"
    using v that assms(3) by (auto simp: row_is_null_def)
qed

theorem column_values_read_back_witness:
  "get_int ref_json \<lparr>row_columns = [''x''], row_values = [JNumber (num_from_i64 ref_json 1)]\<rparr> (ByName ''x'')
     = Inr (1 :: i64)"
proof -
  let ?row = "\<lparr>row_columns = [''x''], row_values = [JNumber (num_from_i64 ref_json 1)]\<rparr>"
  have t: "column_type mini_sqlite 0 0 mini_empty = SQLITE_INTEGER"
    by (simp add: mini_is_blob_def mini_sql_def mini_empty_def)
  have "column_value mini_sqlite ref_json 0 mini_empty 0 = Some (Inr (JNumber (num_from_i64 ref_json 1)))"
    by (simp add: column_value_def mini_is_blob_def mini_sql_def mini_empty_def)
  from column_values_read_back [OF ref_json_laws this, of ?row "ByName ''x''"] t
  show ?thesis by (simp add: row_cell_def row_idx_def)
qed

text \<open>
  C24: a zero-length BLOB has no defined result. SQLite returns a null pointer for it, which
  the guard lets through because the length is zero, and \<open>slice::from_raw_parts\<close> on a null
  pointer is undefined behaviour whatever the length.
\<close>

theorem empty_blob_has_no_result:
  assumes "step S st w = (SQLITE_ROW, w1)"
    and "column_indices n = us @ i # vs" and "\<forall>u \<in> set us. \<exists>v. column_value S J st w1 u = Some (Inr v)"
    and "column_type S st i w1 = SQLITE_BLOB" "column_blob S st i w1 = None" "column_bytes S st i w1 = 0"
  shows "fetch_rows S J db st cols n acc w = None"
proof -
  have "column_value S J st w1 i = None"
    using assms(4-6) by (simp add: column_value_def raw_slice_def)
  with assms(3) have "partial_traverse (column_value S J st w1) (us @ i # vs) = None"
    by (intro partial_traverse_None) auto
  with assms(1,2) show ?thesis by (simp add: fetch_rows.simps)
qed

theorem empty_blob_has_no_result_witness:
  "fetch_rows mini_sqlite ref_json 1 1 [''x''] 1 []
     (snd (mini_prepare 1 ''select zeroblob(0)'' mini_empty)) = None"
proof -
  let ?w = "snd (mini_prepare 1 ''select zeroblob(0)'' mini_empty)"
  obtain w1 where s: "mini_step 1 ?w = (SQLITE_ROW, w1)"
    and t: "mini_is_blob 1 w1"
  proof -
    have "case mini_step 1 ?w of (code, w1) \<Rightarrow> code = SQLITE_ROW \<and> mini_is_blob 1 w1" by code_simp
    then show ?thesis using that by (cases "mini_step 1 ?w") auto
  qed
  show ?thesis
    by (rule empty_blob_has_no_result [where us = "[]" and vs = "[]" and ?w1.0 = w1 and i = 0])
      (use s t in \<open>simp_all add: column_indices_def\<close>)
qed

end
