(* ===== verification/Driver.thy ===== *)
theory Driver
  imports Contract
begin

text \<open>
  The seam between the facade and its backends, \<open>src/adapter/mod.rs\<close>: the results of the
  trait's default methods, and the contract that every backend keeps, as a locale. The
  backends interpret it in their own theories; the facade's properties come out of it.
\<close>

section \<open>Default methods\<close>

definition default_inspect_schema :: "('w, dactyl_error, 'n store_schema) io" where
  "default_inspect_schema = io_fail (adapter_with_code Capability ''unsupported_schema_inspection''
     [Txt ''schema inspection is a local-store operation''])"

definition default_verify_integrity :: "('w, dactyl_error, integrity_report) io" where
  "default_verify_integrity = io_fail (adapter_with_code Capability ''unsupported_integrity_verification''
     [Txt ''integrity verification is a local SQLite operation''])"

definition default_backup :: "string \<Rightarrow> ('w, dactyl_error, backup_result) io" where
  "default_backup destination = io_fail (adapter_with_code Capability ''unsupported_backup''
     [Txt ''SQLite backup is unavailable for this datastore''])"

definition default_recover :: "recovery_options \<Rightarrow> ('w, dactyl_error, recovery_result) io" where
  "default_recover options = io_fail (adapter_with_code Capability ''unsupported_recovery''
     [Txt ''SQLite dump-reload recovery is unavailable for this datastore''])"

section \<open>The contract\<close>

text \<open>
  What a caller may rely on whatever the backend: a read-only connection refuses writes and
  mutating batches before anything reaches the store; the empty batch succeeds without
  touching it; the results of a batch are one per operation, in order, each of the right kind.
\<close>

locale driver =
  fixes wr :: "string \<Rightarrow> parameter list \<Rightarrow> ('w, dactyl_error, write_result) io"
    and at :: "operation list \<Rightarrow> ('w, dactyl_error, 'n operation_result list) io"
    and mode :: access_mode
  assumes write_refused: "mode = ReadOnly \<Longrightarrow>
      \<exists>e. wr sql params w = Some (Inl e, w) \<and> adapter_kind e = Some ReadOnlyKind"
    and atomic_refused: "mode = ReadOnly \<Longrightarrow> mutates ops \<Longrightarrow>
      \<exists>e. at ops w = Some (Inl e, w) \<and> adapter_kind e = Some ReadOnlyKind"
    and atomic_empty: "at [] w = Some (Inr [], w)"
    and atomic_fits: "at ops w = Some (Inr rs, w') \<Longrightarrow> list_all2 result_fits ops rs"
begin

lemma read_only_writes_nothing:
  assumes "mode = ReadOnly" and "mutates ops"
  shows "wr sql params w = Some (r, w1) \<Longrightarrow> w1 = w \<and> isl r"
    and "at ops w = Some (q, w2) \<Longrightarrow> w2 = w \<and> isl q"
  using write_refused [OF assms(1), of sql params w] atomic_refused [OF assms, of w] by auto

lemma never_retryable:
  assumes "mode = ReadOnly" and "wr sql params w = Some (Inl e, w1)"
  shows "\<not> is_retryable e"
  using write_refused [OF assms(1), of sql params w] assms(2) by (auto simp: is_retryable_iff)

lemma batch_shape:
  assumes "at ops w = Some (Inr rs, w')"
  shows "length rs = length ops"
    and "i < length ops \<Longrightarrow> op_kind (ops ! i) = ReadOp \<longleftrightarrow> (\<exists>rows. rs ! i = RowsResult rows)"
proof -
  note fits = atomic_fits [OF assms]
  then show "length rs = length ops" by (simp add: list_all2_lengthD)
  assume "i < length ops"
  with fits have "result_fits (ops ! i) (rs ! i)" by (simp add: list_all2_nthD)
  then show "op_kind (ops ! i) = ReadOp \<longleftrightarrow> (\<exists>rows. rs ! i = RowsResult rows)"
    by (cases "rs ! i") auto
qed

end

text \<open>A batch of reads only is never refused for its access mode: it does not mutate.\<close>

lemma mutates_append [simp]: "mutates (xs @ ys) \<longleftrightarrow> mutates xs \<or> mutates ys"
  by (auto simp: mutates_iff)

text \<open>Results computed operation by operation, each of the right kind, fit the batch.\<close>

lemma io_traverse_fits:
  assumes "\<And>op w r w'. op \<in> set ops \<Longrightarrow> f op w = Some (Inr r, w') \<Longrightarrow> P op r"
    and "io_traverse f ops w = Some (Inr rs, w')"
  shows "list_all2 P ops rs"
  using assms
proof (induction ops arbitrary: w rs)
  case Nil
  then show ?case by (auto simp: io_iffs)
next
  case (Cons op ops)
  from Cons.prems(2) obtain r rs' w1 where "rs = r # rs'"
    and "f op w = Some (Inr r, w1)" "io_traverse f ops w1 = Some (Inr rs', w')"
    by (auto simp: io_iffs)
  then show ?case using Cons.IH [of w1 rs'] Cons.prems(1) by auto
qed

lemma traverse_zip_fits:
  assumes "\<And>op r q. f (op, r) = Inr q \<Longrightarrow> P op q" and "length rs = length ops"
    and "traverse f (zip ops rs) = Inr qs"
  shows "list_all2 P ops qs"
proof -
  from assms(3) have all: "list_all2 (\<lambda>x y. f x = Inr y) (zip ops rs) qs" by (simp add: traverse_Inr_iff)
  then have "length qs = length ops" using assms(2) by (auto dest: list_all2_lengthD)
  moreover have "P (ops ! i) (qs ! i)" if "i < length ops" for i
    using list_all2_nthD [OF all, of i] that assms(1,2) by simp
  ultimately show ?thesis by (simp add: list_all2_conv_all_nth)
qed

end
