(* ===== verification/Sqlite_Adapter.thy ===== *)
theory Sqlite_Adapter
  imports Sqlite_Queries Driver
begin

text \<open>
  The SQLite adapter's reads, writes and atomic batches, \<open>src/adapter/sqlite/mod.rs\<close>: access
  checks, the dispatch on operation kinds, and the transaction protocol of \<open>atomic\<close>. Its
  specification is the all-or-nothing law: seen through the committed contents of the
  database, a failed batch leaves no trace.
\<close>

section \<open>The adapter\<close>

text \<open>
  \<open>adp_database\<close> is the connection's raw handle (0 once closed), \<open>adp_poisoned\<close> whether its
  mutex is poisoned, \<open>adp_identity\<close> the device and inode recorded at opening.
\<close>

record sqlite_adapter =
  adp_database :: nat
  adp_path :: string
  adp_options :: open_options
  adp_identity :: "(nat \<times> nat) option"
  adp_poisoned :: bool

definition lock_connection :: "sqlite_adapter \<Rightarrow> nat result" where
  "lock_connection a =
     (if adp_poisoned a then Inl (adapter Storage [Txt ''SQLite connection lock poisoned''])
      else Inr (adp_database a))"

definition ensure_writable :: "access_mode \<Rightarrow> unit result" where
  "ensure_writable mode =
     (if mode = ReadOnly then Inl (adapter ReadOnlyKind [Txt ''route is read-only'']) else Inr ())"

section \<open>One operation\<close>

definition execute_operation ::
  "'w sqlite_api \<Rightarrow> 'n json_api \<Rightarrow> nat \<Rightarrow> operation \<Rightarrow> ('w, dactyl_error, 'n operation_result) io"
where
  "execute_operation S J db op =
     (let first = first_word (op_sql op) in
      case op_kind op of
        ReadOp \<Rightarrow>
          if \<not> is_query first
          then io_fail (adapter InvalidOperation [Txt ''read operation requires a query statement''])
          else io_bind (query_rows S J db (op_sql op) (op_params op)) (\<lambda>rs. io_return (RowsResult rs))
      | WriteOp \<Rightarrow>
          io_bind (execute_write S db (op_sql op) (op_params op)) (\<lambda>r. io_return (Written r))
      | SchemaOp \<Rightarrow>
          if first \<notin> {Some ''create'', Some ''alter'', Some ''drop''}
          then io_fail (adapter InvalidOperation
                 [Txt ''schema operation requires CREATE, ALTER, or DROP SQL''])
          else if has_multiple_statements (op_sql op) then
            (if op_params op \<noteq> []
             then io_fail (adapter Capability
                    [Txt ''multi-statement schema SQL cannot bind parameters''])
             else io_bind (io_map_err (map_sqlite_failure ''execute SQLite schema batch'')
                    (exec_sql S db (op_sql op))) (\<lambda>_. io_return (Written default_write_result)))
          else io_bind (execute_write S db (op_sql op) (op_params op)) (\<lambda>r. io_return (Written r)))"

section \<open>The adapter's operations\<close>

definition sqlite_read ::
  "'w sqlite_api \<Rightarrow> 'n json_api \<Rightarrow> sqlite_adapter \<Rightarrow> string \<Rightarrow> parameter list \<Rightarrow> ('w, dactyl_error, 'n rows) io"
where
  "sqlite_read S J a sql params =
     io_bind (io_lift (lock_connection a)) (\<lambda>db. query_rows S J db sql params)"

definition sqlite_write ::
  "'w sqlite_api \<Rightarrow> sqlite_adapter \<Rightarrow> string \<Rightarrow> parameter list \<Rightarrow> ('w, dactyl_error, write_result) io"
where
  "sqlite_write S a sql params =
     io_bind (io_lift (ensure_writable (open_access_mode (adp_options a)))) (\<lambda>_.
     io_bind (io_lift (lock_connection a)) (\<lambda>db. execute_write S db sql params))"

definition sqlite_atomic ::
  "'w sqlite_api \<Rightarrow> 'n json_api \<Rightarrow> sqlite_adapter \<Rightarrow> operation list \<Rightarrow> ('w, dactyl_error, 'n atomic_result) io"
where
  "sqlite_atomic S J a ops =
     (if ops = [] then io_return []
      else
        io_bind (if mutates ops then io_lift (ensure_writable (open_access_mode (adp_options a)))
                 else io_return ()) (\<lambda>_.
        io_bind (io_lift (lock_connection a)) (\<lambda>db.
        io_bind (if mutates ops
                 then io_map_err (map_sqlite_failure ''begin SQLite transaction'')
                        (exec_sql S db ''BEGIN IMMEDIATE'')
                 else io_return ()) (\<lambda>_.
        io_bind (io_result (io_traverse (execute_operation S J db) ops)) (\<lambda>result.
          if \<not> mutates ops then io_lift result
          else case result of
            Inr value \<Rightarrow>
              io_bind (io_result (exec_sql S db ''COMMIT'')) (\<lambda>committed.
                case committed of
                  Inl error \<Rightarrow>
                    io_bind (io_result (exec_sql S db ''ROLLBACK'')) (\<lambda>_.
                      io_fail (map_sqlite_failure ''commit SQLite transaction'' error))
                | Inr _ \<Rightarrow> io_return value)
          | Inl error \<Rightarrow>
              io_bind (io_result (exec_sql S db ''ROLLBACK'')) (\<lambda>_. io_fail error))))))"

definition sqlite_access_mode :: "sqlite_adapter \<Rightarrow> access_mode" where
  "sqlite_access_mode a = open_access_mode (adp_options a)"

section \<open>Transactions\<close>

text \<open>
  What the all-or-nothing law needs from SQLite, seen through three views: \<open>committed w\<close>, the
  contents other connections see; \<open>in_tx w\<close>, whether this connection has a transaction open;
  \<open>stmt_sql st w\<close>, the text a statement was prepared from (\<open>sqlite3_sql\<close>). \<open>tame\<close> selects the
  statements that do not end the transaction they run in. Inside a transaction a tame statement
  changes nothing committed, whether it succeeds or fails; \<open>ROLLBACK\<close>, and a \<open>BEGIN\<close> or
  \<open>COMMIT\<close> that fails, never do.
\<close>

definition bind_pure :: "'w sqlite_api \<Rightarrow> nat \<Rightarrow> ('w \<Rightarrow> 'a) \<Rightarrow> bool" where
  "bind_pure S st view \<longleftrightarrow>
     (\<forall>i p w code w1. bind_one S st i p w = Inr (code, w1) \<longrightarrow> view w1 = view w)"

definition tx_laws ::
  "'w sqlite_api \<Rightarrow> nat \<Rightarrow> ('w \<Rightarrow> 'd) \<Rightarrow> ('w \<Rightarrow> bool) \<Rightarrow> (nat \<Rightarrow> 'w \<Rightarrow> string option) \<Rightarrow> (string \<Rightarrow> bool) \<Rightarrow> bool"
where
  "tx_laws S db committed in_tx stmt_sql tame \<longleftrightarrow>
     (\<forall>w code w1. exec S db ''BEGIN IMMEDIATE'' w = (code, w1) \<longrightarrow>
        committed w1 = committed w \<and> (code = SQLITE_OK \<longrightarrow> in_tx w1)) \<and>
     (\<forall>w code w1. exec S db ''ROLLBACK'' w = (code, w1) \<longrightarrow> committed w1 = committed w) \<and>
     (\<forall>w code w1. exec S db ''COMMIT'' w = (code, w1) \<longrightarrow> code \<noteq> SQLITE_OK \<longrightarrow>
        committed w1 = committed w) \<and>
     (\<forall>sql w code w1. tame sql \<longrightarrow> in_tx w \<longrightarrow> exec S db sql w = (code, w1) \<longrightarrow>
        committed w1 = committed w \<and> (code = SQLITE_OK \<longrightarrow> in_tx w1)) \<and>
     (\<forall>sql w code st w1. prepare_v2 S db sql w = ((code, st), w1) \<longrightarrow>
        committed w1 = committed w \<and> in_tx w1 = in_tx w \<and>
        (code = SQLITE_OK \<longrightarrow> st \<noteq> 0 \<longrightarrow> stmt_sql st w1 = Some sql)) \<and>
     (\<forall>st. bind_pure S st (\<lambda>w. (committed w, in_tx w, stmt_sql st w))) \<and>
     (\<forall>st sql w code w1. stmt_sql st w = Some sql \<longrightarrow> tame sql \<longrightarrow> in_tx w \<longrightarrow>
        step S st w = (code, w1) \<longrightarrow>
        committed w1 = committed w \<and> stmt_sql st w1 = stmt_sql st w \<and>
        (code = SQLITE_ROW \<or> code = SQLITE_DONE \<longrightarrow> in_tx w1)) \<and>
     (\<forall>st w. committed (snd (finalize S st w)) = committed w \<and>
        in_tx (snd (finalize S st w)) = in_tx w)"

lemma tx_lawsD:
  assumes laws: "tx_laws S db committed in_tx stmt_sql tame"
  shows tx_begin: "exec S db ''BEGIN IMMEDIATE'' w = (code, w1) \<Longrightarrow>
      committed w1 = committed w \<and> (code = SQLITE_OK \<longrightarrow> in_tx w1)"
    and tx_rollback: "exec S db ''ROLLBACK'' w = (code, w1) \<Longrightarrow> committed w1 = committed w"
    and tx_commit: "exec S db ''COMMIT'' w = (code, w1) \<Longrightarrow> code \<noteq> SQLITE_OK \<Longrightarrow>
      committed w1 = committed w"
    and tx_exec: "tame sql \<Longrightarrow> in_tx w \<Longrightarrow> exec S db sql w = (code, w1) \<Longrightarrow>
      committed w1 = committed w \<and> (code = SQLITE_OK \<longrightarrow> in_tx w1)"
    and tx_prepare: "prepare_v2 S db sql w = ((code, st), w1) \<Longrightarrow>
      committed w1 = committed w \<and> in_tx w1 = in_tx w \<and>
      (code = SQLITE_OK \<longrightarrow> st \<noteq> 0 \<longrightarrow> stmt_sql st w1 = Some sql)"
    and tx_bind: "bind_pure S st (\<lambda>w. (committed w, in_tx w, stmt_sql st w))"
    and tx_step: "stmt_sql st w = Some sql \<Longrightarrow> tame sql \<Longrightarrow> in_tx w \<Longrightarrow>
      step S st w = (code, w1) \<Longrightarrow>
      committed w1 = committed w \<and> stmt_sql st w1 = stmt_sql st w \<and>
      (code = SQLITE_ROW \<or> code = SQLITE_DONE \<longrightarrow> in_tx w1)"
    and tx_finalize: "committed (snd (finalize S st w)) = committed w"
      "in_tx (snd (finalize S st w)) = in_tx w"
proof -
  note c2 = conjunct2
  note L = laws [unfolded tx_laws_def]
  note l1 = L [THEN conjunct1] and l2 = L [THEN c2, THEN conjunct1]
    and l3 = L [THEN c2, THEN c2, THEN conjunct1]
    and l4 = L [THEN c2, THEN c2, THEN c2, THEN conjunct1]
    and l5 = L [THEN c2, THEN c2, THEN c2, THEN c2, THEN conjunct1]
    and l6 = L [THEN c2, THEN c2, THEN c2, THEN c2, THEN c2, THEN conjunct1]
    and l7 = L [THEN c2, THEN c2, THEN c2, THEN c2, THEN c2, THEN c2, THEN conjunct1]
    and l8 = L [THEN c2, THEN c2, THEN c2, THEN c2, THEN c2, THEN c2, THEN c2]
  show "exec S db ''BEGIN IMMEDIATE'' w = (code, w1) \<Longrightarrow>
      committed w1 = committed w \<and> (code = SQLITE_OK \<longrightarrow> in_tx w1)"
    using l1 by blast
  show "exec S db ''ROLLBACK'' w = (code, w1) \<Longrightarrow> committed w1 = committed w"
    using l2 by blast
  show "exec S db ''COMMIT'' w = (code, w1) \<Longrightarrow> code \<noteq> SQLITE_OK \<Longrightarrow>
      committed w1 = committed w"
    using l3 by blast
  show "tame sql \<Longrightarrow> in_tx w \<Longrightarrow> exec S db sql w = (code, w1) \<Longrightarrow>
      committed w1 = committed w \<and> (code = SQLITE_OK \<longrightarrow> in_tx w1)"
    using l4 by blast
  show "prepare_v2 S db sql w = ((code, st), w1) \<Longrightarrow>
      committed w1 = committed w \<and> in_tx w1 = in_tx w \<and>
      (code = SQLITE_OK \<longrightarrow> st \<noteq> 0 \<longrightarrow> stmt_sql st w1 = Some sql)"
    using l5 by blast
  show "bind_pure S st (\<lambda>w. (committed w, in_tx w, stmt_sql st w))"
    using l6 by blast
  show "stmt_sql st w = Some sql \<Longrightarrow> tame sql \<Longrightarrow> in_tx w \<Longrightarrow>
      step S st w = (code, w1) \<Longrightarrow>
      committed w1 = committed w \<and> stmt_sql st w1 = stmt_sql st w \<and>
      (code = SQLITE_ROW \<or> code = SQLITE_DONE \<longrightarrow> in_tx w1)"
    using l7 by blast
  show "committed (snd (finalize S st w)) = committed w"
    using l8 by blast
  show "in_tx (snd (finalize S st w)) = in_tx w"
    using l8 by blast
qed

text \<open>A tame statement keeps the transaction open and nothing committed; a failure commits nothing.\<close>

lemma tx_statement_laws:
  assumes laws: "tx_laws S db committed in_tx stmt_sql tame" and "tame sql"
  shows "statement_laws S db sql (\<lambda>w. in_tx w \<and> committed w = c)
     (\<lambda>st w. in_tx w \<and> committed w = c \<and> stmt_sql st w = Some sql) (\<lambda>w. committed w = c)"
proof -
  have bind: "bind_keeps S st (\<lambda>w. in_tx w \<and> committed w = c \<and> stmt_sql st w = Some sql)
      (\<lambda>w. committed w = c)" for st
    using tx_bind [OF laws, of st] by (simp add: bind_keeps_def bind_pure_def)
  have step: "step_keeps S st (\<lambda>w. in_tx w \<and> committed w = c \<and> stmt_sql st w = Some sql)
      (\<lambda>w. committed w = c)" for st
    unfolding step_keeps_def using tx_step [OF laws, of st _ sql] \<open>tame sql\<close>
    by (metis (no_types, lifting))
  have prep: "prepare_v2 S db sql w = ((code, st), w1) \<Longrightarrow> in_tx w \<and> committed w = c \<Longrightarrow>
      (if code = SQLITE_OK \<and> st \<noteq> 0 then in_tx w1 \<and> committed w1 = c \<and> stmt_sql st w1 = Some sql
       else committed w1 = c)" for w code st w1
    using tx_prepare [OF laws, of sql w code st w1] by simp
  show ?thesis
    unfolding statement_laws_def
    by (intro conjI allI impI bind step prep) (auto simp: tx_finalize [OF laws])
qed

lemma exec_sql_cases:
  assumes "exec_sql S db sql w = Some (r, w')"
  obtains (nul) e where "has_nul sql" "r = Inl e" "w' = w"
    | (ok) "exec S db sql w = (SQLITE_OK, w')" "r = Inr ()"
    | (err) code e where "exec S db sql w = (code, w')" "code \<noteq> SQLITE_OK" "r = Inl e"
  using assms by (cases "exec S db sql w") (auto simp: exec_sql_def split: if_splits)

lemma has_nul_keywords [simp]:
  "\<not> has_nul ''BEGIN IMMEDIATE''" "\<not> has_nul ''COMMIT''" "\<not> has_nul ''ROLLBACK''"
  by (simp_all add: has_nul_def)

lemma exec_sql_tx:
  assumes laws: "tx_laws S db committed in_tx stmt_sql tame" and tame: "tame sql"
  shows "triple (\<lambda>w. in_tx w \<and> committed w = c) (exec_sql S db sql)
     (\<lambda>_ w. in_tx w \<and> committed w = c) (\<lambda>_ w. committed w = c)"
proof (rule tripleI)
  fix w x w'
  assume "in_tx w \<and> committed w = c" "exec_sql S db sql w = Some (Inr x, w')"
  then show "in_tx w' \<and> committed w' = c"
    using tx_exec [OF laws tame, of w] by (elim exec_sql_cases) simp_all
next
  fix w e w'
  assume "in_tx w \<and> committed w = c" "exec_sql S db sql w = Some (Inl e, w')"
  then show "committed w' = c"
    using tx_exec [OF laws tame, of w] by (elim exec_sql_cases) simp_all
qed

lemma execute_operation_tx:
  assumes laws: "tx_laws S db committed in_tx stmt_sql tame" and tame: "tame (op_sql op)"
  shows "triple (\<lambda>w. in_tx w \<and> committed w = c) (execute_operation S J db op)
     (\<lambda>_ w. in_tx w \<and> committed w = c) (\<lambda>_ w. committed w = c)"
proof -
  note st = tx_statement_laws [OF laws tame, of c]
  have q: "triple (\<lambda>w. in_tx w \<and> committed w = c)
      (io_bind (query_rows S J db (op_sql op) (op_params op)) (\<lambda>rs. io_return (RowsResult rs)))
      (\<lambda>_ w. in_tx w \<and> committed w = c) (\<lambda>_ w. committed w = c)"
    by (rule triple_bind [OF query_rows_triple [OF st]]) (simp add: triple_return)
  have x: "triple (\<lambda>w. in_tx w \<and> committed w = c)
      (io_bind (execute_write S db (op_sql op) (op_params op)) (\<lambda>r. io_return (Written r)))
      (\<lambda>_ w. in_tx w \<and> committed w = c) (\<lambda>_ w. committed w = c)"
    by (rule triple_bind [OF execute_write_triple [OF st]]) (simp add: triple_return)
  have e: "triple (\<lambda>w. in_tx w \<and> committed w = c)
      (io_bind (io_map_err (map_sqlite_failure ''execute SQLite schema batch'')
        (exec_sql S db (op_sql op))) (\<lambda>_. io_return (Written default_write_result)))
      (\<lambda>_ w. in_tx w \<and> committed w = c) (\<lambda>_ w. committed w = c)"
    by (rule triple_bind [OF triple_map_err [OF exec_sql_tx [OF laws tame]]]) (simp add: triple_return)
  have f: "triple (\<lambda>w. in_tx w \<and> committed w = c) (io_fail z)
      (\<lambda>_ w. in_tx w \<and> committed w = c) (\<lambda>_ w. committed w = c)" for z
    by (rule triple_fail) simp
  show ?thesis
    unfolding execute_operation_def Let_def
    by (cases "op_kind op") (simp_all add: q x e f)
qed

lemma exec_keyword:
  assumes laws: "tx_laws S db committed in_tx stmt_sql tame"
  shows exec_begin: "exec_sql S db ''BEGIN IMMEDIATE'' w = Some (r, w1) \<Longrightarrow>
           committed w1 = committed w \<and> (r = Inr () \<longrightarrow> in_tx w1)"
    and exec_rollback: "exec_sql S db ''ROLLBACK'' w = Some (r, w1) \<Longrightarrow> committed w1 = committed w"
    and exec_commit: "exec_sql S db ''COMMIT'' w = Some (Inl e, w1) \<Longrightarrow> committed w1 = committed w"
proof -
  show "exec_sql S db ''BEGIN IMMEDIATE'' w = Some (r, w1) \<Longrightarrow>
           committed w1 = committed w \<and> (r = Inr () \<longrightarrow> in_tx w1)"
    using tx_begin [OF laws, of w] by (elim exec_sql_cases) simp_all
  show "exec_sql S db ''ROLLBACK'' w = Some (r, w1) \<Longrightarrow> committed w1 = committed w"
    using tx_rollback [OF laws, of w] by (elim exec_sql_cases) simp_all
  show "exec_sql S db ''COMMIT'' w = Some (Inl e, w1) \<Longrightarrow> committed w1 = committed w"
    using tx_commit [OF laws, of w] by (elim exec_sql_cases) simp_all
qed

section \<open>All or nothing\<close>

lemma sqlite_atomic_tx:
  assumes laws: "tx_laws S (adp_database a) committed in_tx stmt_sql tame"
    and tame: "\<forall>op \<in> set ops. tame (op_sql op)" and "mutates ops"
  shows "triple (\<lambda>w. committed w = c) (sqlite_atomic S J a ops) (\<lambda>_ _. True) (\<lambda>_ w. committed w = c)"
proof -
  let ?db = "adp_database a" and ?C = "\<lambda>w. committed w = c"
  have ops: "ops \<noteq> []" using \<open>mutates ops\<close> by auto
  have start: "triple ?C (io_map_err g (exec_sql S ?db ''BEGIN IMMEDIATE''))
      (\<lambda>_ w. in_tx w \<and> ?C w) (\<lambda>_. ?C)" for g :: "sqlite_failure \<Rightarrow> dactyl_error"
    by (rule triple_map_err, rule tripleI) (auto dest!: exec_begin [OF laws])
  have rollback: "triple ?C (exec_sql S ?db ''ROLLBACK'') (\<lambda>_. ?C) (\<lambda>_. ?C)"
    by (rule tripleI) (auto dest!: exec_rollback [OF laws])
  have fail: "triple ?C (io_bind (io_result (exec_sql S ?db ''ROLLBACK'')) (\<lambda>_. io_fail e))
      (\<lambda>_ _. True) (\<lambda>_. ?C)" for e :: dactyl_error
    by (rule triple_bind [where R = "\<lambda>_. ?C"]) (auto intro: triple_intros rollback)
  have commit: "triple (\<lambda>w. in_tx w \<and> ?C w)
      (io_bind (io_result (exec_sql S ?db ''COMMIT'')) (\<lambda>committed. case committed of
          Inl error \<Rightarrow> io_bind (io_result (exec_sql S ?db ''ROLLBACK''))
             (\<lambda>_. io_fail (map_sqlite_failure ''commit SQLite transaction'' error))
        | Inr _ \<Rightarrow> io_return v)) (\<lambda>_ _. True) (\<lambda>_. ?C)" for v :: "'c atomic_result"
  proof (rule triple_bind [where R = "\<lambda>r w. isl r \<longrightarrow> ?C w"])
    show "triple (\<lambda>w. in_tx w \<and> ?C w) (io_result (exec_sql S ?db ''COMMIT'')) (\<lambda>r w. isl r \<longrightarrow> ?C w) (\<lambda>_. ?C)"
      by (rule triple_result, rule tripleI) (auto dest!: exec_commit [OF laws])
  next
    fix r :: "sqlite_failure + unit"
    show "triple (\<lambda>w. isl r \<longrightarrow> ?C w) (case r of
          Inl error \<Rightarrow> io_bind (io_result (exec_sql S ?db ''ROLLBACK''))
             (\<lambda>_. io_fail (map_sqlite_failure ''commit SQLite transaction'' error))
        | Inr _ \<Rightarrow> io_return v) (\<lambda>_ _. True) (\<lambda>_. ?C)"
      by (cases r) (auto intro: fail triple_return)
  qed
  have ops_run: "triple (\<lambda>w. in_tx w \<and> ?C w) (io_result (io_traverse (execute_operation S J ?db) ops))
      (\<lambda>r w. ?C w \<and> (\<not> isl r \<longrightarrow> in_tx w)) (\<lambda>_. ?C)"
    by (rule triple_result, rule triple_conseq, rule triple_traverse,
        rule execute_operation_tx [OF laws]) (use tame in auto)
  have finish: "triple (\<lambda>w. ?C w \<and> (\<not> isl r \<longrightarrow> in_tx w)) (case r of
            Inr value \<Rightarrow>
              io_bind (io_result (exec_sql S ?db ''COMMIT'')) (\<lambda>committed.
                case committed of
                  Inl error \<Rightarrow>
                    io_bind (io_result (exec_sql S ?db ''ROLLBACK'')) (\<lambda>_.
                      io_fail (map_sqlite_failure ''commit SQLite transaction'' error))
                | Inr _ \<Rightarrow> io_return value)
          | Inl error \<Rightarrow>
              io_bind (io_result (exec_sql S ?db ''ROLLBACK'')) (\<lambda>_. io_fail error))
      (\<lambda>_ _. True) (\<lambda>_. ?C)" for r :: "'c operation_result list result"
    by (cases r) (auto intro: triple_pre [OF fail] triple_pre [OF commit])
  have lock: "lock_connection a = Inr db \<Longrightarrow> db = ?db" for db
    by (auto simp: lock_connection_def split: if_splits)
  show ?thesis
    unfolding sqlite_atomic_def
    by (simp only: ops \<open>mutates ops\<close> if_False if_True not_True_eq_False)
      (rule triple_lift_bind triple_bind [OF start] triple_bind [OF ops_run] finish
        | (drule lock, hypsubst) | assumption)+
qed


text \<open>The small SQLite satisfies the transaction laws, with every statement but the three keywords tame.\<close>

lemma mini_tx_laws:
  "tx_laws mini_sqlite db mini_disk (\<lambda>w. mini_work w \<noteq> None) mini_sql (\<lambda>sql. \<not> mini_is_control sql)"
proof -
  have word: "mini_is_control ''BEGIN IMMEDIATE''" "mini_is_control ''ROLLBACK''" "mini_is_control ''COMMIT''"
    "first_word ''BEGIN IMMEDIATE'' = Some ''begin''" "first_word ''ROLLBACK'' = Some ''rollback''"
    "first_word ''COMMIT'' = Some ''commit''"
    by code_simp+
  have run: "\<not> mini_is_control sql \<Longrightarrow> mini_work w = Some d \<Longrightarrow> mini_run sql w = (code, w1) \<Longrightarrow>
      mini_disk w1 = mini_disk w \<and> mini_work w1 \<noteq> None \<and> mini_stmts w1 = mini_stmts w" for sql w d code w1
    by (auto simp: mini_run_def mini_apply_def split: if_splits option.splits)
  have step: "mini_sql st w = Some sql \<Longrightarrow> \<not> mini_is_control sql \<Longrightarrow> mini_work w = Some d \<Longrightarrow>
      mini_step st w = (code, w1) \<Longrightarrow>
      mini_disk w1 = mini_disk w \<and> mini_sql st w1 = mini_sql st w \<and> mini_work w1 \<noteq> None"
    for st w sql d code w1
    by (auto simp: mini_step_def mini_sql_def split: option.splits prod.splits if_splits dest!: run)
  have l1: "\<forall>w code w1. exec mini_sqlite db ''BEGIN IMMEDIATE'' w = (code, w1) \<longrightarrow>
      mini_disk w1 = mini_disk w \<and> (code = SQLITE_OK \<longrightarrow> mini_work w1 \<noteq> None)"
    by (auto simp: mini_run_def word mini_control_def split: option.splits)
  have l2: "\<forall>w code w1. exec mini_sqlite db ''ROLLBACK'' w = (code, w1) \<longrightarrow> mini_disk w1 = mini_disk w"
    by (auto simp: mini_run_def word mini_control_def split: option.splits)
  have l3: "\<forall>w code w1. exec mini_sqlite db ''COMMIT'' w = (code, w1) \<longrightarrow> code \<noteq> SQLITE_OK \<longrightarrow>
      mini_disk w1 = mini_disk w"
    by (auto simp: mini_run_def word mini_control_def split: option.splits)
  have l4: "\<forall>sql w code w1. \<not> mini_is_control sql \<longrightarrow> mini_work w \<noteq> None \<longrightarrow>
      exec mini_sqlite db sql w = (code, w1) \<longrightarrow>
      mini_disk w1 = mini_disk w \<and> (code = SQLITE_OK \<longrightarrow> mini_work w1 \<noteq> None)"
    using run by (metis mini_sqlite_simps(2) not_Some_eq)
  have l5: "\<forall>sql w code st w1. prepare_v2 mini_sqlite db sql w = ((code, st), w1) \<longrightarrow>
      mini_disk w1 = mini_disk w \<and> (mini_work w1 \<noteq> None) = (mini_work w \<noteq> None) \<and>
      (code = SQLITE_OK \<longrightarrow> st \<noteq> 0 \<longrightarrow> mini_sql st w1 = Some sql)"
    by (auto simp: mini_prepare_def mini_sql_def)
  have l6: "\<forall>st. bind_pure mini_sqlite st (\<lambda>w. (mini_disk w, mini_work w \<noteq> None, mini_sql st w))"
    by (auto simp: bind_pure_def dest: mini_bind_one)
  have l7: "\<forall>st sql w code w1. mini_sql st w = Some sql \<longrightarrow> \<not> mini_is_control sql \<longrightarrow>
      mini_work w \<noteq> None \<longrightarrow> step mini_sqlite st w = (code, w1) \<longrightarrow>
      mini_disk w1 = mini_disk w \<and> mini_sql st w1 = mini_sql st w \<and>
      (code = SQLITE_ROW \<or> code = SQLITE_DONE \<longrightarrow> mini_work w1 \<noteq> None)"
    using step by (metis mini_sqlite_simps(5) not_Some_eq)
  have l8: "\<forall>st w. mini_disk (snd (finalize mini_sqlite st w)) = mini_disk w \<and>
      (mini_work (snd (finalize mini_sqlite st w)) \<noteq> None) = (mini_work w \<noteq> None)"
    by simp
  show ?thesis
    unfolding tx_laws_def by (intro conjI l1 l2 l3 l4 l5 l6 l7 l8)
qed

definition mini_adapter :: "access_mode \<Rightarrow> sqlite_adapter" where
  "mini_adapter mode = \<lparr>adp_database = 1, adp_path = ''app.db'',
     adp_options = \<lparr>open_access_mode = mode, lock_timeout = 0\<rparr>, adp_identity = None, adp_poisoned = False\<rparr>"

definition failed_batch :: "operation list" where
  "failed_batch = [operation_write ''insert a'' [PBool True], operation_read ''select 1'' [], operation_write ''bad'' []]"


section \<open>The contract of the driver\<close>

lemma execute_operation_fits:
  "execute_operation S J db op w = Some (Inr r, w') \<Longrightarrow> result_fits op r"
  by (cases "op_kind op") (auto simp: execute_operation_def Let_def io_iffs split: if_splits)

lemma sqlite_atomic_fits:
  assumes "sqlite_atomic S J a ops w = Some (Inr rs, w')"
  shows "list_all2 result_fits ops rs"
proof (cases "ops = []")
  case True
  with assms show ?thesis by (simp add: sqlite_atomic_def io_iffs)
next
  case False
  with assms obtain w1 w2 where "io_traverse (execute_operation S J (adp_database a)) ops w1 = Some (Inr rs, w2)"
    by (auto simp: sqlite_atomic_def io_iffs split_sum_ex lock_connection_def split: if_splits)
  from io_traverse_fits [OF execute_operation_fits this] show ?thesis .
qed

interpretation sqlite: driver "sqlite_write S a" "sqlite_atomic S J a" "sqlite_access_mode a"
  for S :: "'w sqlite_api" and J :: "'n json_api" and a :: sqlite_adapter
proof unfold_locales
  fix sql params and w :: 'w
  assume "sqlite_access_mode a = ReadOnly"
  then show "\<exists>e. sqlite_write S a sql params w = Some (Inl e, w) \<and> adapter_kind e = Some ReadOnlyKind"
    by (simp add: sqlite_write_def sqlite_access_mode_def ensure_writable_def io_bind_def io_lift_def)
next
  fix ops and w :: 'w
  assume "sqlite_access_mode a = ReadOnly" "mutates ops"
  then show "\<exists>e. sqlite_atomic S J a ops w = Some (Inl e, w) \<and> adapter_kind e = Some ReadOnlyKind"
    by (auto simp: sqlite_atomic_def sqlite_access_mode_def ensure_writable_def io_bind_def io_lift_def)
next
  fix w :: 'w
  show "sqlite_atomic S J a [] w = Some (Inr [], w)"
    by (simp add: sqlite_atomic_def io_iffs)
next
  fix ops :: "operation list" and rs :: "'n operation_result list" and w w' :: 'w
  show "sqlite_atomic S J a ops w = Some (Inr rs, w') \<Longrightarrow> list_all2 result_fits ops rs"
    by (rule sqlite_atomic_fits)
qed

text \<open>
  C10: when a mutating batch succeeds, each operation has run exactly once and in order,
  between a successful \<open>BEGIN IMMEDIATE\<close> and a successful \<open>COMMIT\<close>, on a writable connection
  whose lock is not poisoned, and the batch returns their results; nothing else succeeds.
\<close>

theorem batch_success_is_one_transaction:
  assumes "mutates ops"
  shows "sqlite_atomic S J a ops w = Some (Inr rs, w') \<longleftrightarrow>
     open_access_mode (adp_options a) = ReadWrite \<and> \<not> adp_poisoned a \<and>
     (\<exists>w1 w2. exec S (adp_database a) ''BEGIN IMMEDIATE'' w = (SQLITE_OK, w1) \<and>
        io_traverse (execute_operation S J (adp_database a)) ops w1 = Some (Inr rs, w2) \<and>
        exec S (adp_database a) ''COMMIT'' w2 = (SQLITE_OK, w'))"
proof -
  have ops: "ops \<noteq> []" using assms by auto
  have x: "exec_sql S db sql w = Some (Inr u, w') \<longleftrightarrow> exec S db sql w = (SQLITE_OK, w')"
    if "\<not> has_nul sql" for db sql u w w'
    using that by (cases "exec S db sql w") (auto simp: exec_sql_def)
  have mode: "m \<noteq> ReadOnly \<longleftrightarrow> m = ReadWrite" for m by (cases m) auto
  show ?thesis
    unfolding sqlite_atomic_def using assms ops
    by (auto simp: io_iffs split_sum_ex lock_connection_def ensure_writable_def mode x split: if_splits)
qed

theorem batch_success_is_one_transaction_witness:
  "\<exists>w1 w2 rs w'. exec mini_sqlite 1 ''BEGIN IMMEDIATE'' mini_empty = (SQLITE_OK, w1) \<and>
     io_traverse (execute_operation mini_sqlite ref_json 1)
       [operation_write ''insert a'' [], operation_read ''select 1'' []] w1 = Some (Inr rs, w2) \<and>
     exec mini_sqlite 1 ''COMMIT'' w2 = (SQLITE_OK, w') \<and> mini_disk w' = [''insert a'']"
proof -
  let ?ops = "[operation_write ''insert a'' [], operation_read ''select 1'' []]"
  let ?r = "sqlite_atomic mini_sqlite ref_json (mini_adapter ReadWrite) ?ops mini_empty"
  have "returns ?r (\<lambda>rs w'. mini_disk w' = [''insert a''])"
    by code_simp
  then obtain rs w' where r: "?r = Some (Inr rs, w')" and d: "mini_disk w' = [''insert a'']"
    by (rule returnsE)
  have m: "mutates ?ops" by code_simp
  have a: "adp_database (mini_adapter ReadWrite) = 1" by (simp add: mini_adapter_def)
  from r [unfolded batch_success_is_one_transaction [OF m] a] d show ?thesis by blast
qed


text \<open>
  The generated key of an \<open>INSERT\<close> that inserts nothing is the rowid of an earlier one:
  \<open>write_keys\<close> looks at the first word of the statement, not at whether a row was inserted.
\<close>

theorem ignored_insert_reports_old_key:
  "returns (sqlite_write mini_sqlite (mini_adapter ReadWrite) ''insert a'' [] mini_empty) (\<lambda>r w1.
     returns (sqlite_write mini_sqlite (mini_adapter ReadWrite) ''insert or ignore a'' [] w1) (\<lambda>q w2.
       affected_rows q = 0 \<and> generated_keys q = generated_keys r \<and> generated_keys q = [KInteger 1]))"
  by code_simp

end
