(* ===== verification/Sqlite_Handles.thy ===== *)
theory Sqlite_Handles
  imports Sqlite_Statement
begin

text \<open>
  What a process holds of SQLite: open databases, prepared statements that are not finalized, and
  backups that are not finished. \<open>sqlite3_close\<close> refuses a database that is still in use with
  \<open>SQLITE_BUSY\<close> and leaves it open, so an account of the databases alone would miss what keeps
  them open.
\<close>

text \<open>A statement names its connection, a backup its destination and its source.\<close>

datatype sqlite_handle = Database nat | Statement nat nat | Copying nat nat nat

definition idle :: "nat \<Rightarrow> sqlite_handle set \<Rightarrow> bool" where
  "idle db hs \<longleftrightarrow> (\<forall>st. Statement st db \<notin> hs) \<and> (\<forall>b other. Copying b db other \<notin> hs \<and> Copying b other db \<notin> hs)"

lemma idle_simps [simp]:
  "idle db {}" "idle db (insert (Database d) hs) = idle db hs" "idle db (Database ` ds)"
  "idle db (hs - {Database d}) = idle db hs"
  by (auto simp: idle_def)

section \<open>Opening and closing\<close>

text \<open>
  \<open>sqlite3_open_v2\<close> adds the database it returns, even when it fails; \<open>sqlite3_close\<close> succeeds on
  one that is not in use and takes it away, and takes nothing away when it fails; configuring a
  connection and running SQL on it leave the handles as they are.
\<close>

definition handle_laws :: "'w sqlite_api \<Rightarrow> ('w \<Rightarrow> sqlite_handle set) \<Rightarrow> bool" where
  "handle_laws S handles \<longleftrightarrow>
     (\<forall>path flags w code db w1. open_v2 S path flags w = ((code, db), w1) \<longrightarrow>
        (if db = 0 then handles w1 = handles w
         else Database db \<notin> handles w \<and> idle db (handles w) \<and> handles w1 = insert (Database db) (handles w))) \<and>
     (\<forall>db w code w1. close_db S db w = (code, w1) \<longrightarrow>
        handles w1 = (if code = SQLITE_OK then handles w - {Database db} else handles w) \<and>
        (Database db \<in> handles w \<longrightarrow> idle db (handles w) \<longrightarrow> code = SQLITE_OK)) \<and>
     (\<forall>db ms w. handles (snd (busy_timeout S db ms w)) = handles w) \<and>
     (\<forall>db sql w. handles (snd (exec S db sql w)) = handles w)"

lemma handle_lawsD:
  assumes "handle_laws S handles"
  shows handles_open: "open_v2 S path flags w = ((code, db), w1) \<Longrightarrow>
      (if db = 0 then handles w1 = handles w
       else Database db \<notin> handles w \<and> idle db (handles w) \<and> handles w1 = insert (Database db) (handles w))"
    and handles_busy: "handles (snd (busy_timeout S db ms w)) = handles w"
    and handles_exec: "handles (snd (exec S db sql w)) = handles w"
  using assms by (simp_all add: handle_laws_def)

text \<open>Closing a database that is open and not in use.\<close>

lemma handles_close:
  assumes "handle_laws S handles" and "handles w = insert (Database db) hs" and "Database db \<notin> hs" and "idle db hs"
  shows "fst (close_db S db w) = SQLITE_OK" "handles (snd (close_db S db w)) = hs"
proof -
  obtain code w1 where c: "close_db S db w = (code, w1)" by (cases "close_db S db w")
  have law: "handles w1 = (if code = SQLITE_OK then handles w - {Database db} else handles w) \<and>
      (Database db \<in> handles w \<longrightarrow> idle db (handles w) \<longrightarrow> code = SQLITE_OK)"
    using assms(1) c unfolding handle_laws_def by blast
  with assms(2-4) c show "fst (close_db S db w) = SQLITE_OK" "handles (snd (close_db S db w)) = hs"
    by auto
qed

section \<open>Statements and backups\<close>

text \<open>
  \<open>sqlite3_prepare_v2\<close> adds a statement when it returns one, \<open>sqlite3_finalize\<close> takes it away;
  binding and stepping change nothing. A backup is added when it is initialized and taken away
  when it is finished.
\<close>

definition statement_handle_laws :: "'w sqlite_api \<Rightarrow> ('w \<Rightarrow> sqlite_handle set) \<Rightarrow> bool" where
  "statement_handle_laws S handles \<longleftrightarrow>
     (\<forall>db sql w code st w1. prepare_v2 S db sql w = ((code, st), w1) \<longrightarrow>
        (if code = SQLITE_OK \<and> st \<noteq> 0
         then (\<forall>d. Statement st d \<notin> handles w) \<and> handles w1 = insert (Statement st db) (handles w)
         else handles w1 = handles w)) \<and>
     (\<forall>st w. handles (snd (finalize S st w)) = handles w - {Statement st d | d. True}) \<and>
     (\<forall>st i p w code w1. bind_one S st i p w = Inr (code, w1) \<longrightarrow> handles w1 = handles w) \<and>
     (\<forall>st w. handles (snd (step S st w)) = handles w)"

lemma statement_handle_lawsD:
  assumes "statement_handle_laws S handles"
  shows "prepare_v2 S db sql w = ((code, st), w1) \<Longrightarrow>
      (if code = SQLITE_OK \<and> st \<noteq> 0
       then (\<forall>d. Statement st d \<notin> handles w) \<and> handles w1 = insert (Statement st db) (handles w)
       else handles w1 = handles w)"
    and "handles (snd (finalize S st w)) = handles w - {Statement st d | d. True}"
    and "bind_one S st i p w = Inr (code, w1) \<Longrightarrow> handles w1 = handles w"
    and "handles (snd (step S st w)) = handles w"
  using assms unfolding statement_handle_laws_def by simp_all

definition backup_handle_laws :: "'w sqlite_api \<Rightarrow> ('w \<Rightarrow> sqlite_handle set) \<Rightarrow> bool" where
  "backup_handle_laws S handles \<longleftrightarrow>
     (\<forall>dest s1 source s2 w b w1. backup_init S dest s1 source s2 w = (b, w1) \<longrightarrow>
        (if b = 0 then handles w1 = handles w
         else (\<forall>d s. Copying b d s \<notin> handles w) \<and> handles w1 = insert (Copying b dest source) (handles w))) \<and>
     (\<forall>b w. handles (snd (backup_finish S b w)) = handles w - {Copying b d s | d s. True}) \<and>
     (\<forall>b n w. handles (snd (backup_step S b n w)) = handles w)"

lemma backup_handle_lawsD:
  assumes "backup_handle_laws S handles"
  shows "backup_init S dest s1 source s2 w = (b, w1) \<Longrightarrow>
      (if b = 0 then handles w1 = handles w
       else (\<forall>d s. Copying b d s \<notin> handles w) \<and> handles w1 = insert (Copying b dest source) (handles w))"
    and "handles (snd (backup_finish S b w)) = handles w - {Copying b d s | d s. True}"
    and "handles (snd (backup_step S b n w)) = handles w"
  using assms by (simp_all add: backup_handle_laws_def)

end
