(* ===== verification/Mini_Host.thy ===== *)
theory Mini_Host
  imports Host Sqlite_Handles
begin

text \<open>
  A small host to evaluate the model on: one world with a directory of named inodes and a SQLite
  whose databases are files of that directory. Closed examples and witnesses run on it; no lemma
  about the driver assumes it.
\<close>

text \<open>\<open>mh_faults\<close> schedules the outcome of each coming \<open>sync_all\<close>: \<open>True\<close> is a failure.\<close>

record inode =
  in_dir :: bool
  in_mode :: u32
  in_len :: nat

record mini_host =
  mh_names :: "(string list \<times> nat) list"
  mh_inodes :: "(nat \<times> inode) list"
  mh_next :: nat
  mh_handles :: "sqlite_handle list"
  mh_stmts :: "(nat \<times> (string \<times> nat)) list"
  mh_faults :: "bool list"

definition mh_file :: "u32 \<Rightarrow> nat \<Rightarrow> inode" where
  "mh_file mode len = \<lparr>in_dir = False, in_mode = mode, in_len = len\<rparr>"

definition mh_start :: mini_host where
  "mh_start = \<lparr>mh_names = [(components ''/'', 1), (components ''/d'', 2), (components ''/d/a.db'', 3)],
     mh_inodes = [(1, \<lparr>in_dir = True, in_mode = 0x1ED, in_len = 0\<rparr>), (2, \<lparr>in_dir = True, in_mode = 0x1ED, in_len = 0\<rparr>),
       (3, mh_file 0x180 2)],
     mh_next = 4, mh_handles = [], mh_stmts = [], mh_faults = []\<rparr>"

definition mh_lookup :: "string \<Rightarrow> 'a mini_host_scheme \<Rightarrow> nat option" where
  "mh_lookup p w =
     (case map_of (mh_names w) (components p) of
        Some i \<Rightarrow> if i < mh_next w then Some i else None
      | None \<Rightarrow> None)"

definition mh_missing :: io_error where
  "mh_missing = \<lparr>io_kind = NotFoundKind, io_text = ''not found''\<rparr>"

definition mh_failed :: io_error where
  "mh_failed = \<lparr>io_kind = OtherKind, io_text = ''input/output error''\<rparr>"

definition mh_exists :: io_error where
  "mh_exists = \<lparr>io_kind = AlreadyExistsKind, io_text = ''exists''\<rparr>"

definition mh_metadata :: "nat \<Rightarrow> 'a mini_host_scheme \<Rightarrow> io_error + metadata" where
  "mh_metadata i w =
     (case map_of (mh_inodes w) i of
        None \<Rightarrow> Inl mh_missing
      | Some n \<Rightarrow> Inr \<lparr>md_dev = 1, md_ino = i, md_is_file = \<not> in_dir n, md_is_dir = in_dir n,
          md_is_symlink = False, md_nlink = 1, md_mode = in_mode n, md_uid = 0, md_gid = 0, md_len = in_len n\<rparr>)"

definition mh_stat :: "string \<Rightarrow> 'a mini_host_scheme \<Rightarrow> (io_error + metadata) \<times> 'a mini_host_scheme" where
  "mh_stat p w = (case mh_lookup p w of None \<Rightarrow> Inl mh_missing | Some i \<Rightarrow> mh_metadata i w, w)"

definition mh_add :: "string \<Rightarrow> inode \<Rightarrow> 'a mini_host_scheme \<Rightarrow> 'a mini_host_scheme" where
  "mh_add p n w = w\<lparr>mh_names := (components p, mh_next w) # mh_names w,
     mh_inodes := (mh_next w, n) # mh_inodes w, mh_next := mh_next w + 1\<rparr>"

definition mh_remove :: "string \<Rightarrow> 'a mini_host_scheme \<Rightarrow> 'a mini_host_scheme" where
  "mh_remove p w = w\<lparr>mh_names := filter (\<lambda>(n, i). n \<noteq> components p) (mh_names w)\<rparr>"

definition mh_create_dir :: "string \<Rightarrow> u32 \<Rightarrow> 'a mini_host_scheme \<Rightarrow> (io_error + unit) \<times> 'a mini_host_scheme" where
  "mh_create_dir p m w =
     (if mh_lookup p w \<noteq> None then (Inl mh_exists, w)
      else (Inr (), mh_add p \<lparr>in_dir = True, in_mode = m, in_len = 0\<rparr> w))"

definition mh_create_new :: "string \<Rightarrow> u32 \<Rightarrow> 'a mini_host_scheme \<Rightarrow> (io_error + nat) \<times> 'a mini_host_scheme" where
  "mh_create_new p m w =
     (if mh_lookup p w \<noteq> None then (Inl mh_exists, w) else (Inr (mh_next w), mh_add p (mh_file m 0) w))"

definition mh_open :: "string \<Rightarrow> 'a mini_host_scheme \<Rightarrow> (io_error + nat) \<times> 'a mini_host_scheme" where
  "mh_open p w = (case mh_lookup p w of None \<Rightarrow> Inl mh_missing | Some i \<Rightarrow> Inr i, w)"

text \<open>A file of length 1 is not a database; any other non-empty one is.\<close>

definition mh_read :: "nat \<Rightarrow> nat \<Rightarrow> 'a mini_host_scheme \<Rightarrow> (io_error + u8 list) \<times> 'a mini_host_scheme" where
  "mh_read f n w =
     (case map_of (mh_inodes w) f of
        Some i \<Rightarrow> if in_len i = 1 then Inl mh_failed else Inr (to_utf8 ''SQLite format 3'' @ [0])
      | None \<Rightarrow> Inl mh_failed, w)"

definition mh_sync :: "nat \<Rightarrow> 'a mini_host_scheme \<Rightarrow> (io_error + unit) \<times> 'a mini_host_scheme" where
  "mh_sync f w =
     (case mh_faults w of
        [] \<Rightarrow> (Inr (), w)
      | b # bs \<Rightarrow> (if b then Inl mh_failed else Inr (), w\<lparr>mh_faults := bs\<rparr>))"

definition mh_set_mode :: "nat \<Rightarrow> u32 \<Rightarrow> 'a mini_host_scheme \<Rightarrow> (io_error + unit) \<times> 'a mini_host_scheme" where
  "mh_set_mode f m w =
     (case map_of (mh_inodes w) f of
        None \<Rightarrow> (Inl mh_failed, w)
      | Some i \<Rightarrow> (Inr (), w\<lparr>mh_inodes := (f, i\<lparr>in_mode := m\<rparr>) # mh_inodes w\<rparr>))"

definition mh_move :: "string \<Rightarrow> string \<Rightarrow> nat \<Rightarrow> 'a mini_host_scheme \<Rightarrow> 'a mini_host_scheme" where
  "mh_move a b i w = (let v = mh_remove a w in v\<lparr>mh_names := (components b, i) # mh_names v\<rparr>)"

definition mh_rename :: "string \<Rightarrow> string \<Rightarrow> 'a mini_host_scheme \<Rightarrow> (io_error + unit) \<times> 'a mini_host_scheme" where
  "mh_rename a b w =
     (case mh_lookup a w of
        None \<Rightarrow> (Inl mh_missing, w)
      | Some i \<Rightarrow> (Inr (), mh_move a b i w))"

definition mh_renameat2 :: "string \<Rightarrow> string \<Rightarrow> 'a mini_host_scheme \<Rightarrow> (errno + unit) \<times> 'a mini_host_scheme" where
  "mh_renameat2 a b w =
     (case mh_lookup a w of
        None \<Rightarrow> (Inl OtherErrno, w)
      | Some i \<Rightarrow> if mh_lookup b w \<noteq> None then (Inl EXIST, w) else (Inr (), mh_move a b i w))"

definition mh_remove_file :: "string \<Rightarrow> 'a mini_host_scheme \<Rightarrow> (io_error + unit) \<times> 'a mini_host_scheme" where
  "mh_remove_file p w = (if mh_lookup p w = None then (Inl mh_missing, w) else (Inr (), mh_remove p w))"

text \<open>There are no links, and the current directory is the root.\<close>

definition mh_absolute :: "string \<Rightarrow> string" where
  "mh_absolute p = (if is_absolute p then p else path_join ''/'' p)"

definition mini_host_api :: "'a mini_host_scheme host_api" where
  "mini_host_api =
     \<lparr>canonicalize = (\<lambda>p w. (if mh_lookup p w = None then None else Some (mh_absolute p), w)),
      current_dir = (\<lambda>w. (Some ''/'', w)),
      path_exists = (\<lambda>p w. (mh_lookup p w \<noteq> None, w)),
      stat = mh_stat, lstat = mh_stat,
      create_dir_all = (\<lambda>p w. (Inr (), w)),
      create_dir = mh_create_dir, create_new = mh_create_new, open_read = mh_open, read_exact = mh_read,
      sync_all = mh_sync, fstat = (\<lambda>f w. (mh_metadata f w, w)), set_mode = mh_set_mode,
      fchown = (\<lambda>f u g w. (Inr (), w)), listxattr = (\<lambda>p w. (Inr [], w)),
      rename = mh_rename, renameat2 = mh_renameat2, remove_file = mh_remove_file,
      remove_dir = (\<lambda>p w. (Inl mh_failed, w)),
      now_nanos = (\<lambda>w. (0, w)), instant_nanos = (\<lambda>w. (0, w)), sleep_millis = (\<lambda>n w. w),
      process_id = 7, errno_error = (\<lambda>e. mh_failed), host_platform = OtherUnix, library_override = None,
      open_library = (\<lambda>n. Inr 1), library_symbol = (\<lambda>l n. Inr 1)\<rparr>"

text \<open>
  Its SQLite: statements and \<open>exec\<close> succeed and change nothing; a pragma answers one row, the
  integrity check \<open>ok\<close>, the journal mode \<open>delete\<close>, the numbers 0; the catalog is empty. It keeps
  account of its handles, numbers new ones above all others, and refuses to close a database
  that is in use.
\<close>

fun handle_number :: "sqlite_handle \<Rightarrow> nat" where
  "handle_number (Database db) = db"
| "handle_number (Statement st db) = max st db"
| "handle_number (Copying b dest source) = max b (max dest source)"

definition mh_new :: "'a mini_host_scheme \<Rightarrow> nat" where
  "mh_new w = Suc (foldr max (map handle_number (mh_handles w)) 0)"

definition mh_open_v2 :: "string \<Rightarrow> int \<Rightarrow> 'a mini_host_scheme \<Rightarrow> (int \<times> nat) \<times> 'a mini_host_scheme" where
  "mh_open_v2 p flags w =
     (let v = (if mh_lookup p w = None then mh_add p (mh_file 0x1A4 0) w else w) in
      ((SQLITE_OK, mh_new w), v\<lparr>mh_handles := Database (mh_new w) # mh_handles v\<rparr>))"

fun mh_uses :: "nat \<Rightarrow> sqlite_handle \<Rightarrow> bool" where
  "mh_uses db (Database d) = False"
| "mh_uses db (Statement st d) = (d = db)"
| "mh_uses db (Copying b dest source) = (dest = db \<or> source = db)"

definition mh_close :: "nat \<Rightarrow> 'a mini_host_scheme \<Rightarrow> int \<times> 'a mini_host_scheme" where
  "mh_close db w =
     (if list_ex (mh_uses db) (mh_handles w) then (SQLITE_BUSY, w)
      else (SQLITE_OK, w\<lparr>mh_handles := filter (\<lambda>h. h \<noteq> Database db) (mh_handles w)\<rparr>))"

text \<open>Statements and backups share the numbers of inodes with the files.\<close>

definition mh_fresh :: "'a mini_host_scheme \<Rightarrow> nat" where
  "mh_fresh w = max (mh_next w) (mh_new w)"

definition mh_prepare :: "nat \<Rightarrow> string \<Rightarrow> 'a mini_host_scheme \<Rightarrow> (int \<times> nat) \<times> 'a mini_host_scheme" where
  "mh_prepare db sql w =
     ((SQLITE_OK, mh_fresh w),
      w\<lparr>mh_stmts := (mh_fresh w, (sql, 0)) # mh_stmts w, mh_next := Suc (mh_fresh w),
        mh_handles := Statement (mh_fresh w) db # mh_handles w\<rparr>)"

fun is_statement :: "nat \<Rightarrow> sqlite_handle \<Rightarrow> bool" where
  "is_statement st (Statement s db) = (s = st)"
| "is_statement st h = False"

fun is_backup :: "nat \<Rightarrow> sqlite_handle \<Rightarrow> bool" where
  "is_backup b (Copying c dest source) = (c = b)"
| "is_backup b h = False"

definition mh_finalize :: "nat \<Rightarrow> 'a mini_host_scheme \<Rightarrow> int \<times> 'a mini_host_scheme" where
  "mh_finalize st w = (SQLITE_OK, w\<lparr>mh_handles := filter (\<lambda>h. \<not> is_statement st h) (mh_handles w)\<rparr>)"

definition mh_backup_init ::
  "nat \<Rightarrow> string \<Rightarrow> nat \<Rightarrow> string \<Rightarrow> 'a mini_host_scheme \<Rightarrow> nat \<times> 'a mini_host_scheme" where
  "mh_backup_init dest s1 source s2 w =
     (mh_fresh w, w\<lparr>mh_next := Suc (mh_fresh w), mh_handles := Copying (mh_fresh w) dest source # mh_handles w\<rparr>)"

definition mh_backup_finish :: "nat \<Rightarrow> 'a mini_host_scheme \<Rightarrow> int \<times> 'a mini_host_scheme" where
  "mh_backup_finish b w = (SQLITE_OK, w\<lparr>mh_handles := filter (\<lambda>h. \<not> is_backup b h) (mh_handles w)\<rparr>)"

definition mh_stmt_sql :: "nat \<Rightarrow> 'a mini_host_scheme \<Rightarrow> string" where
  "mh_stmt_sql st w = (case map_of (mh_stmts w) st of Some (sql, k) \<Rightarrow> sql | None \<Rightarrow> [])"

definition mh_step :: "nat \<Rightarrow> 'a mini_host_scheme \<Rightarrow> int \<times> 'a mini_host_scheme" where
  "mh_step st w =
     (case map_of (mh_stmts w) st of
        None \<Rightarrow> (21, w)
      | Some (sql, k) \<Rightarrow>
          if k = 0 \<and> take 6 sql = ''PRAGMA''
          then (SQLITE_ROW, w\<lparr>mh_stmts := (st, (sql, 1)) # mh_stmts w\<rparr>)
          else (SQLITE_DONE, w))"

definition mh_is_text :: "nat \<Rightarrow> 'a mini_host_scheme \<Rightarrow> bool" where
  "mh_is_text st w \<longleftrightarrow> mh_stmt_sql st w \<in> {''PRAGMA integrity_check'', ''PRAGMA journal_mode''}"

definition mini_host_sqlite :: "'a mini_host_scheme sqlite_api" where
  "mini_host_sqlite =
     \<lparr>open_v2 = mh_open_v2, close_db = mh_close,
      errmsg = (\<lambda>db w. None), errcode = (\<lambda>db w. SQLITE_ERROR), extended_errcode = (\<lambda>db w. SQLITE_ERROR),
      busy_timeout = (\<lambda>db ms w. (SQLITE_OK, w)),
      exec = (\<lambda>db sql w. (SQLITE_OK, w)),
      prepare_v2 = mh_prepare, finalize = mh_finalize,
      bind_null = (\<lambda>st i w. (SQLITE_OK, w)),
      bind_int64 = (\<lambda>st i v w. (SQLITE_OK, w)),
      bind_double = (\<lambda>st i v w. (SQLITE_OK, w)),
      bind_text = (\<lambda>st i v w. (SQLITE_OK, w)),
      bind_blob = (\<lambda>st i v w. (SQLITE_OK, w)),
      step = mh_step,
      column_count = (\<lambda>st w. 1),
      column_name = (\<lambda>st i w. Some ''value''),
      column_type = (\<lambda>st i w. if mh_is_text st w then SQLITE_TEXT else SQLITE_INTEGER),
      column_int64 = (\<lambda>st i w. 0),
      column_double = (\<lambda>st i w. 0),
      column_text = (\<lambda>st i w. Some (to_utf8 (if mh_stmt_sql st w = ''PRAGMA integrity_check'' then ''ok'' else ''delete''))),
      column_bytes = (\<lambda>st i w. if mh_stmt_sql st w = ''PRAGMA integrity_check'' then 2 else 6),
      column_blob = (\<lambda>st i w. None),
      changes64 = (\<lambda>db w. 0),
      last_insert_rowid = (\<lambda>db w. 0),
      backup_init = mh_backup_init,
      backup_step = (\<lambda>b n w. (SQLITE_DONE, w)),
      backup_finish = mh_backup_finish\<rparr>"

section \<open>Facts\<close>

lemma mh_numbers_positive [simp]: "mh_new w \<noteq> 0" "mh_fresh w \<noteq> 0" "0 < mh_new w" "0 < mh_fresh w"
  by (simp_all add: mh_fresh_def mh_new_def)

lemma mh_new_bound: "h \<in> set (mh_handles w) \<Longrightarrow> handle_number h < mh_new w"
proof -
  have "n \<le> foldr max ns 0" if "n \<in> set ns" for n and ns :: "nat list"
    using that by (induction ns) auto
  then show "h \<in> set (mh_handles w) \<Longrightarrow> handle_number h < mh_new w"
    by (simp add: mh_new_def less_Suc_eq_le)
qed

text \<open>A number that no handle of the list has.\<close>

lemma mh_unused:
  assumes "mh_new w \<le> n"
  shows "Database n \<notin> set (mh_handles w)" "Statement n d \<notin> set (mh_handles w)" "Copying n d e \<notin> set (mh_handles w)"
    "idle n (set (mh_handles w))"
proof -
  have no: "h \<notin> set (mh_handles w)" if "n \<le> handle_number h" for h
    using mh_new_bound [of h w] assms that by auto
  show "Database n \<notin> set (mh_handles w)" "Statement n d \<notin> set (mh_handles w)" "Copying n d e \<notin> set (mh_handles w)"
    by (rule no; simp)+
  show "idle n (set (mh_handles w))" unfolding idle_def by (intro conjI allI no) simp_all
qed

lemma mh_fresh_unused:
  "Statement (mh_fresh w) d \<notin> set (mh_handles w)" "Copying (mh_fresh w) d e \<notin> set (mh_handles w)"
  by (rule mh_unused; simp add: mh_fresh_def)+

lemma mh_uses_iff: "mh_uses db h \<longleftrightarrow> (\<exists>st. h = Statement st db) \<or> (\<exists>b d. h = Copying b db d \<or> h = Copying b d db)"
  by (cases h) auto

lemma mh_uses_idle: "list_ex (mh_uses db) hs \<longleftrightarrow> \<not> idle db (set hs)"
  by (auto simp: list_ex_iff mh_uses_iff idle_def)

abbreviation mh_account :: "'a mini_host_scheme \<Rightarrow> sqlite_handle set" where
  "mh_account w \<equiv> set (mh_handles w)"

lemma mini_host_handle_laws: "handle_laws mini_host_sqlite mh_account"
proof -
  have "mh_handles (mh_add p n w) = mh_handles w" for p n and w :: "'a mini_host_scheme"
    by (simp add: mh_add_def)
  then show ?thesis
    by (auto simp: handle_laws_def mini_host_sqlite_def mh_open_v2_def mh_close_def Let_def mh_uses_idle mh_unused
        split: if_splits)
qed

lemma is_handle_iff:
  "is_statement st h \<longleftrightarrow> (\<exists>d. h = Statement st d)" "is_backup b h \<longleftrightarrow> (\<exists>d s. h = Copying b d s)"
  by (cases h; auto)+

lemma mini_host_statement_laws: "statement_handle_laws mini_host_sqlite mh_account"
proof -
  have "w1 = w" if "bind_one mini_host_sqlite st i p w = Inr (code, w1)" for st i p code and w w1 :: "'a mini_host_scheme"
    using that by (cases p) (auto simp: bind_one_def mini_host_sqlite_def split: if_splits)
  then have 1: "\<forall>st i p w code w1. bind_one mini_host_sqlite st i p w = Inr (code, w1) \<longrightarrow>
      mh_account w1 = mh_account (w :: 'a mini_host_scheme)" by blast
  have "mh_handles (snd (mh_step st w)) = mh_handles w" for st and w :: "'a mini_host_scheme"
    by (simp add: mh_step_def split: option.split)
  then have 2: "\<forall>st w. mh_account (snd (step mini_host_sqlite st w)) = mh_account (w :: 'a mini_host_scheme)"
    by (simp add: mini_host_sqlite_def)
  show ?thesis
    unfolding statement_handle_laws_def
    by (intro conjI 1 2) (auto simp: mini_host_sqlite_def mh_prepare_def mh_finalize_def is_handle_iff mh_fresh_unused)
qed

lemma mini_host_backup_laws: "backup_handle_laws mini_host_sqlite mh_account"
  by (auto simp: backup_handle_laws_def mini_host_sqlite_def mh_backup_init_def mh_backup_finish_def is_handle_iff
      mh_fresh_unused)

lemmas mini_host_defs = mini_host_api_def mh_stat_def mh_create_dir_def mh_create_new_def mh_open_def
  mh_read_def mh_sync_def mh_set_mode_def mh_add_def

lemma mini_host_keeps_handles: "host_keeps (\<lambda>w. mh_account w = hs) mini_host_api"
  by (simp add: host_keeps_def call_keeps_def mini_host_defs split: list.split option.split)

end
