(* ===== verification/Sqlite_Open.thy ===== *)
theory Sqlite_Open
  imports Sqlite_Adapter Mini_Host
begin

unbundle bit_operations_syntax

text \<open>
  Opening a SQLite database and the process-wide registry of open connections,
  \<open>src/adapter/sqlite/mod.rs\<close>: the header check, the flags, configuration, registration and
  release. The registry is a counter per path; its contract is the locale \<open>connection_counter\<close>.
\<close>

section \<open>The registry\<close>

text \<open>\<open>OPEN_CONNECTIONS\<close>: counts by path, keyed by the components that path comparison uses.\<close>

type_synonym registry = "string list \<Rightarrow> nat option"

definition registry_add :: "string list \<Rightarrow> registry \<Rightarrow> registry" where
  "registry_add k reg = reg(k \<mapsto> (case reg k of Some n \<Rightarrow> n | None \<Rightarrow> 0) + 1)"

definition registry_remove :: "string list \<Rightarrow> registry \<Rightarrow> registry" where
  "registry_remove k reg =
     (case reg k of
        None \<Rightarrow> reg
      | Some n \<Rightarrow> if n - 1 = 0 then reg(k := None) else reg(k \<mapsto> n - 1))"

definition registry_count :: "string list \<Rightarrow> registry \<Rightarrow> nat" where
  "registry_count k reg = (case reg k of Some n \<Rightarrow> n | None \<Rightarrow> 0)"

text \<open>The state of the process: the world outside, the registry, and its mutex.\<close>

record 'w process =
  proc_world :: 'w
  proc_registry :: registry
  proc_poisoned :: bool

definition on_world :: "('w, 'e, 'a) io \<Rightarrow> ('w process, 'e, 'a) io" where
  "on_world m = (\<lambda>s. case m (proc_world s) of
     None \<Rightarrow> None
   | Some (r, w) \<Rightarrow> Some (r, s\<lparr>proc_world := w\<rparr>))"

definition memory_path :: string where
  "memory_path = '':memory:''"

definition path_key :: "'w host_api \<Rightarrow> string \<Rightarrow> ('w, 'e, string option) io" where
  "path_key H path =
     (if path = memory_path then io_return None
      else io_bind (ask (canonicalize H path)) (\<lambda>canonical.
        case canonical of
          Some c \<Rightarrow> io_return (Some c)
        | None \<Rightarrow>
            if is_absolute path then io_return (Some path)
            else io_bind (ask (current_dir H)) (\<lambda>dir.
              io_return (Some (case dir of Some d \<Rightarrow> path_join d path | None \<Rightarrow> path)))))"

definition registry_lock_error :: dactyl_error where
  "registry_lock_error = adapter Storage [Txt ''SQLite connection registry lock poisoned'']"

definition register_connection :: "'w host_api \<Rightarrow> string \<Rightarrow> ('w process, dactyl_error, unit) io" where
  "register_connection H path =
     io_bind (on_world (path_key H path)) (\<lambda>key.
       case key of
         None \<Rightarrow> io_return ()
       | Some p \<Rightarrow> (\<lambda>s.
           if proc_poisoned s then Some (Inl registry_lock_error, s)
           else Some (Inr (), s\<lparr>proc_registry := registry_add (components p) (proc_registry s)\<rparr>)))"

definition unregister_connection :: "'w host_api \<Rightarrow> string \<Rightarrow> ('w process, dactyl_error, unit) io" where
  "unregister_connection H path =
     io_bind (on_world (path_key H path)) (\<lambda>key.
       case key of
         None \<Rightarrow> io_return ()
       | Some p \<Rightarrow> (\<lambda>s.
           if proc_poisoned s then Some (Inr (), s)
           else Some (Inr (), s\<lparr>proc_registry := registry_remove (components p) (proc_registry s)\<rparr>)))"

definition has_other_connection :: "'w host_api \<Rightarrow> string \<Rightarrow> ('w process, dactyl_error, bool) io" where
  "has_other_connection H path =
     io_bind (on_world (path_key H path)) (\<lambda>key.
       case key of
         None \<Rightarrow> io_return False
       | Some p \<Rightarrow> (\<lambda>s.
           if proc_poisoned s then Some (Inl registry_lock_error, s)
           else Some (Inr (1 < registry_count (components p) (proc_registry s)), s)))"

section \<open>Opening\<close>

definition sqlite_header :: "u8 list" where
  "sqlite_header = to_utf8 ''SQLite format 3'' @ [0]"

definition validate_existing_sqlite_header :: "'w host_api \<Rightarrow> string \<Rightarrow> ('w, dactyl_error, unit) io" where
  "validate_existing_sqlite_header H path =
     io_bind (io_map_err (\<lambda>e. adapter_with_code Storage ''stat_database_failed''
         [Txt ''inspect SQLite database: '', Txt (io_text e)]) (call (stat H path))) (\<lambda>md.
     if md_len md = 0 then io_return ()
     else io_bind (io_map_err (\<lambda>e. adapter_with_code Storage ''read_database_header_failed''
         [Txt ''read SQLite database header: '', Txt (io_text e)]) (call (open_read H path))) (\<lambda>file.
     io_bind (io_result (call (read_exact H file 16))) (\<lambda>r.
       if r = Inr sqlite_header then io_return ()
       else io_fail (adapter_with_code Corrupt ''malformed_database''
              [Txt ''existing local file is not a SQLite database'']))))"

definition open_flags :: "access_mode \<Rightarrow> int" where
  "open_flags mode =
     (case mode of ReadWrite \<Rightarrow> SQLITE_OPEN_READWRITE OR SQLITE_OPEN_CREATE | ReadOnly \<Rightarrow> SQLITE_OPEN_READONLY)
       OR SQLITE_OPEN_FULLMUTEX"

definition open_database :: "'w sqlite_api \<Rightarrow> string \<Rightarrow> access_mode \<Rightarrow> ('w, dactyl_error, nat) io" where
  "open_database S path mode = (\<lambda>w.
     if has_nul path
     then Some (Inl (adapter_with_code InvalidOperation ''invalid_path''
            [Txt ''SQLite path contains an interior NUL byte'']), w)
     else case open_v2 S path (open_flags mode) w of ((code, db), w1) \<Rightarrow>
       if code \<noteq> SQLITE_OK then
         (if db = 0
          then Some (Inl (adapter_with_code Unavailable ''cannot_open''
                 [Txt ''open SQLite database '', Txt path, Txt '': SQLite error code '', Num code]), w1)
          else Some (Inl (map_sqlite_failure ''open SQLite database'' (failure_of S db w1)),
                 snd (close_db S db w1)))
       else if db = 0
       then Some (Inl (adapter_with_code Unavailable ''cannot_open''
              [Txt ''open SQLite database '', Txt path, Txt '': SQLite returned no handle'']), w1)
       else Some (Inr db, w1))"

definition timeout_millis :: "nat \<Rightarrow> int" where
  "timeout_millis lock =
     (if int (as_millis lock) \<le> c_int_max then int (as_millis lock) else c_int_max)"

definition configure_connection :: "'w sqlite_api \<Rightarrow> nat \<Rightarrow> open_options \<Rightarrow> ('w, dactyl_error, unit) io" where
  "configure_connection S db options = (\<lambda>w.
     case busy_timeout S db (timeout_millis (lock_timeout options)) w of (code, w1) \<Rightarrow>
       if code \<noteq> SQLITE_OK then Some (Inl (conn_error S db ''configure SQLite busy timeout'' code w1), w1)
       else io_map_err (map_sqlite_failure ''enable SQLite foreign keys'')
              (exec_sql S db ''PRAGMA foreign_keys = ON'') w1)"

text \<open>\<open>SqliteConnection::drop\<close>, and \<open>close\<close>, which also returns the handle left in the connection.\<close>

definition drop_connection :: "'w sqlite_api \<Rightarrow> nat \<Rightarrow> 'w \<Rightarrow> 'w" where
  "drop_connection S db w = (if db \<noteq> 0 then snd (close_db S db w) else w)"

definition close_connection :: "'w sqlite_api \<Rightarrow> nat \<Rightarrow> 'w \<Rightarrow> (unit result \<times> nat) \<times> 'w" where
  "close_connection S db w =
     (if db = 0 then ((Inr (), 0), w)
      else case close_db S db w of (code, w1) \<Rightarrow>
        if code = SQLITE_OK then ((Inr (), 0), w1)
        else ((Inl (conn_error S db ''close SQLite database'' code w1), db), w1))"

text \<open>The checks on the path before SQLite is loaded.\<close>

definition prepare_path :: "'w host_api \<Rightarrow> string \<Rightarrow> access_mode \<Rightarrow> ('w, dactyl_error, unit) io" where
  "prepare_path H path mode =
     (if path = memory_path then io_return ()
      else if mode = ReadOnly then
        io_bind (ask (path_exists H path)) (\<lambda>exists.
          if \<not> exists
          then io_fail (adapter_with_code NotFound ''missing_database''
                 [Txt ''SQLite database does not exist: '', Txt path])
          else validate_existing_sqlite_header H path)
      else
        io_bind (case parent path of
            Some p \<Rightarrow>
              if p \<noteq> [] then io_map_err (\<lambda>e. adapter_with_code Storage ''create_parent_failed''
                  [Txt ''create SQLite parent directory: '', Txt (io_text e)]) (call (create_dir_all H p))
              else io_return ()
          | None \<Rightarrow> io_return ()) (\<lambda>_.
        io_bind (ask (path_exists H path)) (\<lambda>exists.
          if exists then validate_existing_sqlite_header H path else io_return ())))"

definition open_configured ::
  "'w sqlite_api \<Rightarrow> string \<Rightarrow> open_options \<Rightarrow> ('w, dactyl_error, nat) io"
where
  "open_configured S path options =
     io_bind (open_database S path (open_access_mode options)) (\<lambda>db w.
       case configure_connection S db options w of
         None \<Rightarrow> None
       | Some (Inl e, w1) \<Rightarrow> Some (Inl e, drop_connection S db w1)
       | Some (Inr _, w1) \<Rightarrow> Some (Inr db, w1))"

text \<open>\<open>register_connection(path)?\<close> drops the connection when it fails.\<close>

definition open_with_options ::
  "'w host_api \<Rightarrow> 'w sqlite_api \<Rightarrow> string \<Rightarrow> open_options \<Rightarrow> ('w process, dactyl_error, sqlite_adapter) io"
where
  "open_with_options H S path options =
     io_bind (on_world (prepare_path H path (open_access_mode options))) (\<lambda>_.
     io_bind (io_lift (api_load (open_library H) (library_symbol H) (host_platform H) (library_override H))) (\<lambda>_.
     io_bind (on_world (open_configured S path options)) (\<lambda>db s.
       case register_connection H path s of
         None \<Rightarrow> None
       | Some (Inl e, s1) \<Rightarrow> Some (Inl e, s1\<lparr>proc_world := drop_connection S db (proc_world s1)\<rparr>)
       | Some (Inr _, s1) \<Rightarrow>
           io_bind (on_world (file_identity H path)) (\<lambda>identity.
             io_return \<lparr>adp_database = db, adp_path = path, adp_options = options,
                        adp_identity = identity, adp_poisoned = False\<rparr>) s1)))"

text \<open>\<open>SqliteAdapter::drop\<close>, then the drop of its connection field.\<close>

definition drop_adapter ::
  "'w host_api \<Rightarrow> 'w sqlite_api \<Rightarrow> sqlite_adapter \<Rightarrow> ('w process, dactyl_error, unit) io"
where
  "drop_adapter H S a =
     io_bind (unregister_connection H (adp_path a)) (\<lambda>_ s.
       Some (Inr (), s\<lparr>proc_world := drop_connection S (adp_database a) (proc_world s)\<rparr>))"

section \<open>The contract of the registry\<close>

text \<open>Uses and releases of keys, and how often each occurs.\<close>

datatype 'k usage = Use 'k | Release 'k

fun uses :: "'k \<Rightarrow> 'k usage list \<Rightarrow> nat" where
  "uses k [] = 0"
| "uses k (Use j # es) = (if j = k then 1 else 0) + uses k es"
| "uses k (Release j # es) = uses k es"

fun releases :: "'k \<Rightarrow> 'k usage list \<Rightarrow> nat" where
  "releases k [] = 0"
| "releases k (Use j # es) = releases k es"
| "releases k (Release j # es) = (if j = k then 1 else 0) + releases k es"

text \<open>No prefix of the history releases \<open>k\<close> more often than it was in use.\<close>

fun balanced_from :: "'k \<Rightarrow> nat \<Rightarrow> 'k usage list \<Rightarrow> bool" where
  "balanced_from k n [] = True"
| "balanced_from k n (Use j # es) = balanced_from k (if j = k then n + 1 else n) es"
| "balanced_from k n (Release j # es) = (if j = k then 0 < n \<and> balanced_from k (n - 1) es else balanced_from k n es)"

locale connection_counter =
  fixes add remove :: "'k \<Rightarrow> 's \<Rightarrow> 's" and count :: "'k \<Rightarrow> 's \<Rightarrow> nat"
  assumes count_add: "count k (add j s) = (if j = k then count k s + 1 else count k s)"
    and count_remove: "count k (remove j s) = (if j = k then count k s - 1 else count k s)"
begin

lemma count_history:
  "balanced_from k (count k s) es \<Longrightarrow>
     count k (fold (\<lambda>e. case e of Use j \<Rightarrow> add j | Release j \<Rightarrow> remove j) es s) + releases k es
       = count k s + uses k es"
proof (induction es arbitrary: s)
  case Nil
  then show ?case by simp
next
  case (Cons e es)
  show ?case
  proof (cases e)
    case (Use j)
    with Cons.prems have "balanced_from k (count k (add j s)) es"
      by (auto simp: count_add split: if_splits)
    from Cons.IH [OF this] Use show ?thesis by (simp add: count_add)
  next
    case (Release j)
    with Cons.prems have "balanced_from k (count k (remove j s)) es"
      by (auto simp: count_remove split: if_splits)
    from Cons.IH [OF this] Release Cons.prems show ?thesis by (auto simp: count_remove)
  qed
qed

end

interpretation registry: connection_counter registry_add registry_remove registry_count
  by unfold_locales (auto simp: registry_add_def registry_remove_def registry_count_def split: option.splits)

text \<open>
  The registry counts the open connections of each path: after any history in which no
  path is released more often than it was opened, its count is the number of opens minus the
  number of drops, so recovery's question whether another connection is open is answered exactly.
\<close>

theorem registry_counts_open_connections:
  assumes "balanced_from k 0 history"
  shows "registry_count k (fold (\<lambda>e. case e of Use j \<Rightarrow> registry_add j | Release j \<Rightarrow> registry_remove j)
       history (\<lambda>_. None)) = uses k history - releases k history"
proof -
  have "registry_count k (\<lambda>_. None) = 0" by (simp add: registry_count_def)
  with registry.count_history [of k "\<lambda>_. None" history] assms show ?thesis by simp
qed

theorem registry_counts_open_connections_witness:
  "registry_count [''a''] (fold (\<lambda>e. case e of Use j \<Rightarrow> registry_add j | Release j \<Rightarrow> registry_remove j)
     [Use [''a''], Use [''b''], Use [''a''], Release [''a'']] (\<lambda>_. None)) = 1"
  using registry_counts_open_connections [of "[''a'']" "[Use [''a''], Use [''b''], Use [''a''], Release [''a'']]"]
  by simp

section \<open>Handles\<close>

text \<open>The calls on files leave the handles of SQLite alone.\<close>

definition stat_keeps_handles :: "'w host_api \<Rightarrow> ('w \<Rightarrow> sqlite_handle set) \<Rightarrow> bool" where
  "stat_keeps_handles H handles \<longleftrightarrow> (\<forall>hs. host_keeps (\<lambda>w. handles w = hs) H)"

text \<open>What an open adds to the handles \<open>hs\<close>: the database \<open>db\<close>, which is new and not in use.\<close>

definition one_more :: "('w \<Rightarrow> sqlite_handle set) \<Rightarrow> sqlite_handle set \<Rightarrow> nat \<Rightarrow> 'w \<Rightarrow> bool" where
  "one_more handles hs db w \<longleftrightarrow> db \<noteq> 0 \<and> Database db \<notin> hs \<and> idle db hs \<and> handles w = insert (Database db) hs"

lemma one_more_close:
  assumes "handle_laws S handles" and "one_more handles hs db w"
  shows "fst (close_db S db w) = SQLITE_OK" "handles (snd (close_db S db w)) = hs" "handles (drop_connection S db w) = hs"
  using handles_close [OF assms(1), of w db hs] assms(2) by (simp_all add: one_more_def drop_connection_def)

lemma one_more_world: "handles w' = handles w \<Longrightarrow> one_more handles hs db w' = one_more handles hs db w"
  by (simp add: one_more_def)

lemma on_world_Some_iff:
  "on_world m s = Some (r, s') \<longleftrightarrow> (\<exists>w. m (proc_world s) = Some (r, w) \<and> s' = s\<lparr>proc_world := w\<rparr>)"
  by (auto simp: on_world_def split: option.splits)

lemma keeps_path_key: "host_keeps P H \<Longrightarrow> keeps P (path_key H path)"
  unfolding path_key_def by (auto intro!: keeps_intros intro: host_keepsD)

lemma keeps_prepare_path: "host_keeps P H \<Longrightarrow> keeps P (prepare_path H path mode)"
  unfolding prepare_path_def validate_existing_sqlite_header_def
  by (auto intro!: keeps_intros intro: host_keepsD)

lemma open_database_handles:
  assumes laws: "handle_laws S handles" and o: "open_database S path mode w = Some (q, w1)"
  shows "case q of Inl e \<Rightarrow> handles w1 = handles w | Inr db \<Rightarrow> one_more handles (handles w) db w1"
proof (cases "has_nul path")
  case True
  with o show ?thesis by (auto simp: open_database_def)
next
  case False
  obtain code db w2 where v: "open_v2 S path (open_flags mode) w = ((code, db), w2)" by (metis surj_pair)
  note h = handles_open [OF laws v]
  show ?thesis
  proof (cases "db = 0")
    case True
    with h o False v show ?thesis by (auto simp: open_database_def split: if_splits)
  next
    case nonnull: False
    with h have "one_more handles (handles w) db w2" by (simp add: one_more_def)
    with one_more_close [OF laws this] o False v nonnull show ?thesis
      by (auto simp: open_database_def split: if_splits)
  qed
qed

lemma open_configured_handles:
  assumes laws: "handle_laws S handles" and r: "open_configured S path options w = Some (r, w')"
  shows "case r of Inl e \<Rightarrow> handles w' = handles w | Inr db \<Rightarrow> one_more handles (handles w) db w'"
proof -
  note odb = open_database_handles [OF laws]
  have conf: "handles w2 = handles w1" if "configure_connection S db options w1 = Some (q, w2)" for db w1 q w2
  proof -
    obtain code w3 where b: "busy_timeout S db (timeout_millis (lock_timeout options)) w1 = (code, w3)"
      by (metis surj_pair)
    then have "handles w3 = handles w1"
      using handles_busy [OF laws, of db "timeout_millis (lock_timeout options)" w1] by simp
    moreover have "handles w5 = handles w3" if "exec S db sql w3 = (c, w5)" for sql c w5
      using handles_exec [OF laws, of db sql w3] that by simp
    ultimately show ?thesis using that b
      by (auto simp: configure_connection_def io_iffs split: if_splits elim!: exec_sql_cases)
  qed
  from r consider (fail) e where "open_database S path (open_access_mode options) w = Some (Inl e, w')" "r = Inl e"
    | (db) db w1 where "open_database S path (open_access_mode options) w = Some (Inr db, w1)"
        "(case configure_connection S db options w1 of
           None \<Rightarrow> None
         | Some (Inl e, w1) \<Rightarrow> Some (Inl e, drop_connection S db w1)
         | Some (Inr _, w1) \<Rightarrow> Some (Inr db, w1)) = Some (r, w')"
    by (auto simp: open_configured_def io_iffs)
  then show ?thesis
  proof cases
    case fail
    with odb [OF fail(1)] show ?thesis by simp
  next
    case db
    obtain q w2 where c: "configure_connection S db options w1 = Some (q, w2)"
      using db(2) by (cases "configure_connection S db options w1") auto
    have "one_more handles (handles w) db w2"
      using odb [OF db(1)] one_more_world [of handles, OF conf [OF c]] by simp
    with one_more_close(3) [OF laws this] db(2) c show ?thesis by (cases q) auto
  qed
qed

text \<open>
  Opening leaks no SQLite handle: when it fails, at whatever step, the process holds the
  handles it held; when it succeeds, it holds exactly one more, the adapter's, which is not null.
\<close>

theorem open_leaks_no_handle:
  assumes "handle_laws S handles" and "stat_keeps_handles H handles"
    and "open_with_options H S path options s = Some (r, s')"
  shows "case r of
     Inl e \<Rightarrow> handles (proc_world s') = handles (proc_world s)
   | Inr a \<Rightarrow> one_more handles (handles (proc_world s)) (adp_database a) (proc_world s') \<and>
       adp_path a = path \<and> adp_options a = options \<and> \<not> adp_poisoned a"
proof -
  have host: "handles w' = handles w" if "keeps (\<lambda>w. handles w = handles v) m" "m w = Some (q, w')" "handles w = handles v"
    for w v w' q and m :: "('a, dactyl_error, 'd) io"
    using keepsD [OF that(1,3,2)] that(3) by simp
  have kept: "host_keeps (\<lambda>w. handles w = hs) H" for hs
    using assms(2) by (simp add: stat_keeps_handles_def)
  let ?load = "api_load (open_library H) (library_symbol H) (host_platform H) (library_override H)"
  have prep: "handles w' = handles w" if "prepare_path H path m w = Some (q, w')" for m w q w'
    using keepsD [OF keeps_prepare_path [OF kept] _ that, of "handles w"] by simp
  have reg: "handles (proc_world t') = handles (proc_world t)"
    if "register_connection H path t = Some (q, t')" for t q t'
  proof -
    have "handles w' = handles w" if "path_key H path w = Some (q, w')" for w w' and q :: "dactyl_error + string option"
      using keepsD [OF keeps_path_key [OF kept] _ that, of "handles w"] by simp
    with that show ?thesis
      by (auto simp: register_connection_def io_iffs on_world_Some_iff split: option.splits if_splits)
  qed
  have ident: "handles w' = handles w" if "file_identity H path w = Some (q, w')"
    for w w' and q :: "dactyl_error + (nat \<times> nat) option"
    using keepsD [OF keeps_file_identity [OF kept] _ that, of "handles w"] by simp
  from assms(3) consider
      (early) e w1 where "r = Inl e" "s' = s\<lparr>proc_world := w1\<rparr>" "handles w1 = handles (proc_world s)"
    | (conf) e w1 w2 where "prepare_path H path (open_access_mode options) (proc_world s) = Some (Inr (), w1)"
        "open_configured S path options w1 = Some (Inl e, w2)" "r = Inl e" "s' = s\<lparr>proc_world := w2\<rparr>"
    | (opened) db w1 w2 where "prepare_path H path (open_access_mode options) (proc_world s) = Some (Inr (), w1)"
        "open_configured S path options w1 = Some (Inr db, w2)"
        "(case register_connection H path (s\<lparr>proc_world := w2\<rparr>) of
           None \<Rightarrow> None
         | Some (Inl e, s1) \<Rightarrow> Some (Inl e, s1\<lparr>proc_world := drop_connection S db (proc_world s1)\<rparr>)
         | Some (Inr _, s1) \<Rightarrow>
             io_bind (on_world (file_identity H path)) (\<lambda>identity.
               io_return \<lparr>adp_database = db, adp_path = path, adp_options = options,
                          adp_identity = identity, adp_poisoned = False\<rparr>) s1) = Some (r, s')"
    by (auto simp: open_with_options_def io_iffs on_world_Some_iff dest: prep)
  then show ?thesis
  proof cases
    case early
    then show ?thesis by simp
  next
    case conf
    with prep [OF conf(1)] open_configured_handles [OF assms(1) conf(2)] show ?thesis by simp
  next
    case opened
    note h = open_configured_handles [OF assms(1) opened(2)] and p = prep [OF opened(1)]
    obtain q s1 where q: "register_connection H path (s\<lparr>proc_world := w2\<rparr>) = Some (q, s1)"
      using opened(3) by (cases "register_connection H path (s\<lparr>proc_world := w2\<rparr>)") auto
    have more: "one_more handles (handles (proc_world s)) db (proc_world s1)"
      using h p one_more_world [of handles, OF reg [OF q]] by simp
    show ?thesis
    proof (cases q)
      case (Inl e)
      with opened(3) q one_more_close(3) [OF assms(1) more] show ?thesis by auto
    next
      case (Inr u)
      with opened(3) q obtain i w3 where i: "file_identity H path (proc_world s1) = Some (Inr i :: (nat \<times> nat) option result, w3)"
        and r: "s' = s1\<lparr>proc_world := w3\<rparr>" "r = Inr \<lparr>adp_database = db, adp_path = path, adp_options = options,
                  adp_identity = i, adp_poisoned = False\<rparr>"
        by (auto simp: io_iffs on_world_Some_iff)
      with more one_more_world [of handles, OF ident [OF i]] show ?thesis by simp
    qed
  qed
qed

definition mini_process :: "mini_host process" where
  "mini_process = \<lparr>proc_world = mh_start, proc_registry = (\<lambda>_. None), proc_poisoned = False\<rparr>"

definition quick_options :: "access_mode \<Rightarrow> open_options" where
  "quick_options mode = \<lparr>open_access_mode = mode, lock_timeout = 0\<rparr>"

theorem open_leaks_no_handle_witness:
  "\<exists>a s'. open_with_options mini_host_api mini_host_sqlite ''/d/a.db'' (quick_options ReadWrite) mini_process = Some (Inr a, s') \<and>
     mh_account (proc_world s') = {Database (adp_database a)}"
proof -
  let ?o = "open_with_options mini_host_api mini_host_sqlite ''/d/a.db'' (quick_options ReadWrite) mini_process"
  have "returns ?o (\<lambda>a s'. True)" by code_simp
  then obtain a s' where r: "?o = Some (Inr a, s')" by (rule returnsE)
  have "stat_keeps_handles mini_host_api mh_account"
    by (simp add: stat_keeps_handles_def mini_host_keeps_handles)
  from open_leaks_no_handle [OF mini_host_handle_laws this r] r show ?thesis
    by (simp add: mini_process_def mh_start_def one_more_def)
qed

text \<open>
  C27: a file that is not empty and does not begin with the SQLite header is never handed to
  SQLite, whatever the access mode: opening it fails as \<open>malformed_database\<close> after the same calls on
  files, whatever SQLite would do, so the file is neither overwritten nor locked by it. (A writing
  open creates the directory first: \<open>w0\<close> is the world after that.) A missing file is not created by
  a read-only open, which does not reach SQLite either.
\<close>

theorem open_checks_before_sqlite:
  assumes "path \<noteq> memory_path"
    and "w0 = (if open_access_mode options = ReadOnly \<or> parent path = None \<or> parent path = Some [] then proc_world s
       else snd (create_dir_all H (the (parent path)) (proc_world s)))"
    and "open_access_mode options = ReadOnly \<or> parent path = None \<or> parent path = Some [] \<or>
       fst (create_dir_all H (the (parent path)) (proc_world s)) = Inr ()"
    and "path_exists H path w0 = (True, w1)" and "stat H path w1 = (Inr md, w2)" and "md_len md \<noteq> 0"
    and "open_read H path w2 = (Inr file, w3)" and "read_exact H file 16 w3 = (header, w4)"
    and "header \<noteq> Inr sqlite_header"
    and "path_exists H missing (proc_world s) = (False, v1)" and "missing \<noteq> memory_path"
  shows "(\<exists>e. (\<forall>S. open_with_options H S path options s = Some (Inl e, s\<lparr>proc_world := w4\<rparr>)) \<and>
            adapter_code e = Some ''malformed_database'') \<and>
     (\<exists>e. (\<forall>S. open_with_options H S missing \<lparr>open_access_mode = ReadOnly, lock_timeout = t\<rparr> s
            = Some (Inl e, s\<lparr>proc_world := v1\<rparr>)) \<and> adapter_code e = Some ''missing_database'')"
proof -
  have "\<exists>e. validate_existing_sqlite_header H path w1 = Some (Inl e, w4) \<and> adapter_code e = Some ''malformed_database''"
    using assms(5-9) by (auto simp: validate_existing_sqlite_header_def io_bind_def call_def io_result_def io_map_err_def
        io_fail_def)
  then obtain e where v: "validate_existing_sqlite_header H path w1 = Some (Inl e, w4)"
    and e: "adapter_code e = Some ''malformed_database''" by blast
  have "prepare_path H path (open_access_mode options) (proc_world s) = Some (Inl e, w4)"
  proof (cases "open_access_mode options = ReadOnly")
    case True
    with assms(1,2,4) v show ?thesis by (simp add: prepare_path_def io_bind_def ask_def)
  next
    case False
    obtain q v0 where c: "create_dir_all H (the (parent path)) (proc_world s) = (q, v0)" by (metis surj_pair)
    from False assms(1-4) v c show ?thesis
      by (cases "parent path"; cases "parent path = Some []")
        (simp_all add: prepare_path_def io_bind_def ask_def call_def io_map_err_def io_return_def)
  qed
  then have "\<forall>S. open_with_options H S path options s = Some (Inl e, s\<lparr>proc_world := w4\<rparr>)"
    by (simp add: open_with_options_def io_bind_def on_world_def)
  moreover have "\<exists>e. (\<forall>S. open_with_options H S missing \<lparr>open_access_mode = ReadOnly, lock_timeout = t\<rparr> s
      = Some (Inl e, s\<lparr>proc_world := v1\<rparr>)) \<and> adapter_code e = Some ''missing_database''"
    using assms(10,11) by (simp add: open_with_options_def prepare_path_def io_bind_def on_world_def ask_def io_fail_def)
  ultimately show ?thesis using e by blast
qed

theorem open_checks_before_sqlite_witness:
  "\<exists>e. open_with_options mini_host_api mini_host_sqlite ''/d/a.db'' \<lparr>open_access_mode = ReadWrite, lock_timeout = 0\<rparr>
     (mini_process\<lparr>proc_world := mh_start\<lparr>mh_inodes := [(3, mh_file 0x180 1)]\<rparr>\<rparr>)
     = Some (Inl e, mini_process\<lparr>proc_world := mh_start\<lparr>mh_inodes := [(3, mh_file 0x180 1)]\<rparr>\<rparr>) \<and>
     adapter_code e = Some ''malformed_database''"
proof -
  let ?w = "mh_start\<lparr>mh_inodes := [(3, mh_file 0x180 1)]\<rparr>"
  let ?s = "mini_process\<lparr>proc_world := ?w\<rparr>" and ?o = "\<lparr>open_access_mode = ReadWrite, lock_timeout = 0\<rparr>"
  have lookup: "mh_lookup ''/d/a.db'' ?w = Some 3" "mh_lookup ''/d/b.db'' ?w = None"
    by code_simp+
  have create: "create_dir_all mini_host_api p w = (Inr (), w)" for p and w :: mini_host
    by (simp add: mini_host_api_def)
  have facts: "''/d/a.db'' \<noteq> memory_path" "''/d/b.db'' \<noteq> memory_path"
    "path_exists mini_host_api ''/d/a.db'' ?w = (True, ?w)"
    "stat mini_host_api ''/d/a.db'' ?w = (mh_metadata 3 ?w, ?w)"
    "open_read mini_host_api ''/d/a.db'' ?w = (Inr 3, ?w)"
    "read_exact mini_host_api 3 16 ?w = (Inl mh_failed, ?w)"
    "path_exists mini_host_api ''/d/b.db'' (proc_world ?s) = (False, ?w)"
    using lookup by (simp_all add: memory_path_def mini_host_api_def mh_stat_def mh_open_def mh_read_def mh_file_def)
  obtain md where md: "mh_metadata 3 ?w = Inr md" "md_len md \<noteq> 0"
    by (simp add: mh_metadata_def mh_file_def)
  have w0: "?w = (if open_access_mode ?o = ReadOnly \<or> parent ''/d/a.db'' = None \<or> parent ''/d/a.db'' = Some []
      then proc_world ?s else snd (create_dir_all mini_host_api (the (parent ''/d/a.db'')) (proc_world ?s)))"
    by (simp add: create)
  have made: "open_access_mode ?o = ReadOnly \<or> parent ''/d/a.db'' = None \<or> parent ''/d/a.db'' = Some [] \<or>
      fst (create_dir_all mini_host_api (the (parent ''/d/a.db'')) (proc_world ?s)) = Inr ()"
    by (simp add: create)
  have stat: "stat mini_host_api ''/d/a.db'' ?w = (Inr md, ?w)" using facts(4) md(1) by simp
  have "Inl mh_failed \<noteq> Inr sqlite_header" by simp
  from open_checks_before_sqlite [OF facts(1) w0 made facts(3) stat md(2) facts(5,6) this facts(7,2)]
  obtain e where "\<forall>S. open_with_options mini_host_api S ''/d/a.db'' ?o ?s = Some (Inl e, ?s\<lparr>proc_world := ?w\<rparr>)"
    "adapter_code e = Some ''malformed_database''" by blast
  then show ?thesis by (auto simp: mini_process_def)
qed

end
