(* ===== verification/Canned_Sqlite.thy ===== *)
theory Canned_Sqlite
  imports Sqlite_Statement
begin

text \<open>
  A SQLite that answers fixed rows to fixed statements, for closed examples on the catalog.
\<close>

datatype cell = CNull | CInt i64 | CText string

record canned =
  cn_stmts :: "(nat \<times> (string \<times> nat)) list"
  cn_next :: nat

definition canned_start :: canned where
  "canned_start = \<lparr>cn_stmts = [], cn_next = 1\<rparr>"

type_synonym answers = "(string \<times> cell list list) list"

definition canned_rows :: "answers \<Rightarrow> string \<Rightarrow> cell list list" where
  "canned_rows data sql = (case map_of data sql of Some rows \<Rightarrow> rows | None \<Rightarrow> [])"

text \<open>The row a statement stands on, and one of its cells.\<close>

definition canned_row :: "answers \<Rightarrow> nat \<Rightarrow> canned \<Rightarrow> cell list" where
  "canned_row data st w =
     (case map_of (cn_stmts w) st of
        Some (sql, k) \<Rightarrow> if 0 < k \<and> k \<le> length (canned_rows data sql) then canned_rows data sql ! (k - 1) else []
      | None \<Rightarrow> [])"

definition canned_cell :: "answers \<Rightarrow> nat \<Rightarrow> int \<Rightarrow> canned \<Rightarrow> cell" where
  "canned_cell data st i w =
     (if nat i < length (canned_row data st w) then canned_row data st w ! nat i else CNull)"

definition canned_step :: "answers \<Rightarrow> nat \<Rightarrow> canned \<Rightarrow> int \<times> canned" where
  "canned_step data st w =
     (case map_of (cn_stmts w) st of
        None \<Rightarrow> (21, w)
      | Some (sql, k) \<Rightarrow>
          if k < length (canned_rows data sql)
          then (SQLITE_ROW, w\<lparr>cn_stmts := (st, (sql, k + 1)) # cn_stmts w\<rparr>)
          else (SQLITE_DONE, w))"

definition canned_width :: "answers \<Rightarrow> nat \<Rightarrow> canned \<Rightarrow> int" where
  "canned_width data st w =
     (case map_of (cn_stmts w) st of
        Some (sql, k) \<Rightarrow> (case canned_rows data sql of [] \<Rightarrow> 0 | r # _ \<Rightarrow> int (length r))
      | None \<Rightarrow> 0)"

definition canned_sqlite :: "answers \<Rightarrow> canned sqlite_api" where
  "canned_sqlite data =
     \<lparr>open_v2 = (\<lambda>p flags w. ((SQLITE_OK, 1), w)), close_db = (\<lambda>db w. (SQLITE_OK, w)),
      errmsg = (\<lambda>db w. None), errcode = (\<lambda>db w. SQLITE_ERROR), extended_errcode = (\<lambda>db w. SQLITE_ERROR),
      busy_timeout = (\<lambda>db ms w. (SQLITE_OK, w)), exec = (\<lambda>db sql w. (SQLITE_OK, w)),
      prepare_v2 = (\<lambda>db sql w. ((SQLITE_OK, cn_next w),
        w\<lparr>cn_stmts := (cn_next w, (sql, 0)) # cn_stmts w, cn_next := cn_next w + 1\<rparr>)),
      finalize = (\<lambda>st w. (SQLITE_OK, w)),
      bind_null = (\<lambda>st i w. (SQLITE_OK, w)), bind_int64 = (\<lambda>st i v w. (SQLITE_OK, w)),
      bind_double = (\<lambda>st i v w. (SQLITE_OK, w)), bind_text = (\<lambda>st i v w. (SQLITE_OK, w)),
      bind_blob = (\<lambda>st i v w. (SQLITE_OK, w)),
      step = canned_step data, column_count = (\<lambda>st w. canned_width data st w),
      column_name = (\<lambda>st i w. Some ''c''),
      column_type = (\<lambda>st i w. case canned_cell data st i w of
         CNull \<Rightarrow> SQLITE_NULL | CInt _ \<Rightarrow> SQLITE_INTEGER | CText _ \<Rightarrow> SQLITE_TEXT),
      column_int64 = (\<lambda>st i w. case canned_cell data st i w of CInt v \<Rightarrow> v | _ \<Rightarrow> 0),
      column_double = (\<lambda>st i w. 0),
      column_text = (\<lambda>st i w. case canned_cell data st i w of CText s \<Rightarrow> Some (to_utf8 s) | _ \<Rightarrow> None),
      column_bytes = (\<lambda>st i w. case canned_cell data st i w of CText s \<Rightarrow> int (length s) | _ \<Rightarrow> 0),
      column_blob = (\<lambda>st i w. None),
      changes64 = (\<lambda>db w. 0), last_insert_rowid = (\<lambda>db w. 0),
      backup_init = (\<lambda>d s1 s s2 w. (0, w)), backup_step = (\<lambda>b n w. (SQLITE_DONE, w)),
      backup_finish = (\<lambda>b w. (SQLITE_OK, w))\<rparr>"

text \<open>The catalog of one table \<open>t\<close> with a primary key and a unique column.\<close>

definition one_table :: answers where
  "one_table =
     (let q = (\<lambda>s. [CHR 0x22] @ s @ [CHR 0x22]); k = [CHR 0x27] in
      [(''SELECT name FROM sqlite_schema WHERE type = '' @ k @ ''table'' @ k @ '' AND name NOT LIKE '' @ k @
          ''sqlite_%'' @ k @ '' ORDER BY name'', [[CText ''t'']]),
       (''PRAGMA index_list('' @ q ''t'' @ '')'', [[CInt 0, CText ''t_email'', CInt 1]]),
       (''PRAGMA index_info('' @ q ''t_email'' @ '')'', [[CInt 0, CInt 1, CText ''email'']]),
       (''PRAGMA table_info('' @ q ''t'' @ '')'',
         [[CInt 0, CText ''id'', CText ''INTEGER'', CInt 0, CNull, CInt 1],
          [CInt 1, CText ''email'', CText ''TEXT'', CInt 1, CNull, CInt 0]]),
       (''SELECT COUNT(*) FROM '' @ q ''t'', [[CInt 3]])])"

end
