(* ===== verification/Sqlite_Catalog.thy ===== *)
theory Sqlite_Catalog
  imports Sqlite_Open Canned_Sqlite "HOL-Library.Char_ord" "HOL-Library.List_Lexorder" "HOL-Library.Multiset"
begin

text \<open>
  Reading the SQLite catalog, \<open>src/adapter/sqlite/mod.rs\<close>: cell access, pragmas, the integrity
  report, and the description of tables, indexes and foreign keys. Strings are ordered as Rust
  orders them, byte by byte.
\<close>

section \<open>Cells and pragmas\<close>

definition row_value :: "'n row \<Rightarrow> nat \<Rightarrow> 'n json option" where
  "row_value row i = (if i < length (row_values row) then Some (row_values row ! i) else None)"

definition row_string :: "'n row \<Rightarrow> nat \<Rightarrow> string result" where
  "row_string row i = ok_or (adapter ValueKind [Txt ''SQLite catalog returned a non-text value''])
     (Option.bind (row_value row i) value_as_str)"

definition row_i64 :: "'n json_api \<Rightarrow> 'n row \<Rightarrow> nat \<Rightarrow> i64 result" where
  "row_i64 J row i = ok_or (adapter ValueKind [Txt ''SQLite catalog returned a non-integer value''])
     (Option.bind (row_value row i) (value_as_i64 J))"

definition first_row :: "'n rows \<Rightarrow> 'n row option" where
  "first_row rows = (case rows of [] \<Rightarrow> None | r # _ \<Rightarrow> Some r)"

definition pragma_text ::
  "'w sqlite_api \<Rightarrow> 'n json_api \<Rightarrow> nat \<Rightarrow> string \<Rightarrow> ('w, dactyl_error, string) io" where
  "pragma_text S J db name =
     io_bind (query_rows S J db (''PRAGMA '' @ name) []) (\<lambda>rows.
       io_lift (ok_or (adapter ValueKind [Txt ''SQLite PRAGMA '', Txt name, Txt '' returned no text value''])
         (Option.bind (Option.bind (first_row rows) (\<lambda>row. row_value row 0)) value_as_str)))"

definition pragma_integer ::
  "'w sqlite_api \<Rightarrow> 'n json_api \<Rightarrow> nat \<Rightarrow> string \<Rightarrow> ('w, dactyl_error, i64) io" where
  "pragma_integer S J db name =
     io_bind (query_rows S J db (''PRAGMA '' @ name) []) (\<lambda>rows.
       io_lift (ok_or (adapter ValueKind [Txt ''SQLite PRAGMA '', Txt name, Txt '' returned no integer value''])
         (Option.bind (Option.bind (first_row rows) (\<lambda>row. row_value row 0)) (value_as_i64 J))))"

definition verify_integrity ::
  "'w sqlite_api \<Rightarrow> 'n json_api \<Rightarrow> nat \<Rightarrow> ('w, dactyl_error, integrity_report) io" where
  "verify_integrity S J db =
     io_bind (query_rows S J db ''PRAGMA integrity_check'' []) (\<lambda>rows.
     io_bind (io_lift (traverse (\<lambda>row. row_string row 0) rows)) (\<lambda>messages.
       if messages = [] \<or> list_ex (\<lambda>m. m \<noteq> ''ok'') messages
       then io_fail (adapter_with_code Corrupt ''integrity_check_failed''
              [Txt ''SQLite integrity_check failed: '',
               Txt (if messages = [] then ''no result'' else join ''; '' messages)])
       else
         io_bind (pragma_text S J db ''journal_mode'') (\<lambda>journal.
         io_bind (pragma_integer S J db ''user_version'') (\<lambda>version.
         io_bind (pragma_integer S J db ''application_id'') (\<lambda>application.
           io_return \<lparr>report_journal_mode = journal, report_user_version = version,
                      report_application_id = application\<rparr>)))))"

section \<open>Indexes and columns\<close>

record index_info =
  info_name :: string
  info_unique :: bool
  info_columns :: "string list"

text \<open>The columns of \<open>PRAGMA index_info\<close>; expression columns have no name and are left out.\<close>

definition index_columns_of :: "'n rows \<Rightarrow> string list" where
  "index_columns_of rows = List.map_filter (\<lambda>row. Option.bind (row_value row 2) value_as_str) rows"

definition index_of_row ::
  "'w sqlite_api \<Rightarrow> 'n json_api \<Rightarrow> nat \<Rightarrow> 'n row \<Rightarrow> ('w, dactyl_error, index_info) io" where
  "index_of_row S J db row =
     io_bind (io_lift (row_string row 1)) (\<lambda>name.
     io_bind (io_lift (row_i64 J row 2)) (\<lambda>unique.
     io_bind (query_rows S J db (''PRAGMA index_info('' @ quote_identifier name @ '')'') []) (\<lambda>rows.
       io_return \<lparr>info_name = name, info_unique = (unique \<noteq> 0), info_columns = index_columns_of rows\<rparr>)))"

definition indexes_for_table ::
  "'w sqlite_api \<Rightarrow> 'n json_api \<Rightarrow> nat \<Rightarrow> string \<Rightarrow> ('w, dactyl_error, index_info list) io" where
  "indexes_for_table S J db table =
     io_bind (query_rows S J db (''PRAGMA index_list('' @ quote_identifier table @ '')'') []) (\<lambda>rows.
     io_bind (io_traverse (index_of_row S J db) rows) (\<lambda>infos.
       io_return (sort_key info_name infos)))"

definition column_of_row ::
  "'n json_api \<Rightarrow> (string \<Rightarrow> 'n json option) \<Rightarrow> string list \<Rightarrow> 'n row \<Rightarrow> 'n column_schema result" where
  "column_of_row J parse unique_columns row =
     rbind (row_string row 1) (\<lambda>name.
     rbind (row_i64 J row 5) (\<lambda>primary.
     rbind (row_i64 J row 3) (\<lambda>not_null.
       Inr \<lparr>col_name = name, col_primary_key = (primary \<noteq> 0), col_unique = (name \<in> set unique_columns),
            col_not_null = (not_null \<noteq> 0),
            col_default = map_option (default_value parse) (Option.bind (row_value row 4) value_as_str)\<rparr>)))"

definition columns_for_table ::
  "'w sqlite_api \<Rightarrow> 'n json_api \<Rightarrow> (string \<Rightarrow> 'n json option) \<Rightarrow> nat \<Rightarrow> string \<Rightarrow> string list \<Rightarrow>
     ('w, dactyl_error, 'n column_schema list) io" where
  "columns_for_table S J parse db table unique_columns =
     io_bind (query_rows S J db (''PRAGMA table_info('' @ quote_identifier table @ '')'') []) (\<lambda>rows.
       io_lift (traverse (column_of_row J parse unique_columns) rows))"

section \<open>Foreign keys\<close>

text \<open>One row of \<open>PRAGMA foreign_key_list\<close>.\<close>

record fk_row =
  fkr_id :: i64
  fkr_seq :: i64
  fkr_table :: string
  fkr_column :: string
  fkr_ref_column :: string
  fkr_action :: string

definition fk_row_of :: "'n json_api \<Rightarrow> 'n row \<Rightarrow> fk_row result" where
  "fk_row_of J row =
     rbind (row_i64 J row 0) (\<lambda>id.
     rbind (row_i64 J row 1) (\<lambda>seq.
     rbind (row_string row 2) (\<lambda>table.
     rbind (row_string row 3) (\<lambda>column.
     rbind (row_string row 6) (\<lambda>action.
       Inr \<lparr>fkr_id = id, fkr_seq = seq, fkr_table = table, fkr_column = column,
            fkr_ref_column = (case Option.bind (row_value row 4) value_as_str of Some s \<Rightarrow> s | None \<Rightarrow> []),
            fkr_action = action\<rparr>)))))"

text \<open>\<open>BTreeMap::entry(k).or_insert_with(...)\<close> followed by a change of the entry, on a sorted list.\<close>

fun btree_update :: "int \<Rightarrow> ('v option \<Rightarrow> 'v) \<Rightarrow> (int \<times> 'v) list \<Rightarrow> (int \<times> 'v) list" where
  "btree_update k f [] = [(k, f None)]"
| "btree_update k f ((j, v) # m) =
     (if k < j then (k, f None) # (j, v) # m
      else if k = j then (j, f (Some v)) # m
      else (j, v) # btree_update k f m)"

type_synonym fk_parts = "string \<times> foreign_key_action \<times> (int \<times> string \<times> string) list"

definition fk_push :: "fk_row \<Rightarrow> fk_parts option \<Rightarrow> fk_parts" where
  "fk_push r entry =
     (case (case entry of Some e \<Rightarrow> e | None \<Rightarrow> (fkr_table r, foreign_key_action_of (fkr_action r), [])) of
        (table, action, columns) \<Rightarrow>
          (table, action, columns @ [(sint (fkr_seq r), fkr_column r, fkr_ref_column r)]))"

definition fk_group :: "fk_row list \<Rightarrow> (int \<times> fk_parts) list" where
  "fk_group rows = fold (\<lambda>r. btree_update (sint (fkr_id r)) (fk_push r)) rows []"

fun fk_of_parts :: "fk_parts \<Rightarrow> foreign_key_schema" where
  "fk_of_parts (table, action, columns) =
     (let cs = sort_key fst columns in
      \<lparr>fk_columns = map (\<lambda>(_, c, _). c) cs, fk_ref_table = table,
       fk_ref_columns = map (\<lambda>(_, _, r). r) cs, fk_on_delete = action\<rparr>)"

definition foreign_keys_for_table ::
  "'w sqlite_api \<Rightarrow> 'n json_api \<Rightarrow> nat \<Rightarrow> string \<Rightarrow> ('w, dactyl_error, foreign_key_schema list) io" where
  "foreign_keys_for_table S J db table =
     io_bind (query_rows S J db (''PRAGMA foreign_key_list('' @ quote_identifier table @ '')'') []) (\<lambda>rows.
       io_lift (rbind (traverse (fk_row_of J) rows) (\<lambda>rs. Inr (map (fk_of_parts \<circ> snd) (fk_group rs)))))"

section \<open>The whole schema\<close>

definition single_unique_columns :: "index_info list \<Rightarrow> string list" where
  "single_unique_columns infos =
     List.map_filter (\<lambda>i. if info_unique i \<and> length (info_columns i) = 1 then Some (hd (info_columns i)) else None)
       infos"

definition index_schema_of :: "string \<Rightarrow> index_info \<Rightarrow> index_schema" where
  "index_schema_of table i =
     \<lparr>index_name = info_name i, index_table = table, index_columns = info_columns i, index_unique = info_unique i\<rparr>"

definition inspect_table ::
  "'w sqlite_api \<Rightarrow> 'n json_api \<Rightarrow> (string \<Rightarrow> 'n json option) \<Rightarrow> nat \<Rightarrow> 'n row \<Rightarrow>
     ('w, dactyl_error, 'n table_schema \<times> index_schema list) io" where
  "inspect_table S J parse db row =
     io_bind (io_lift (row_string row 0)) (\<lambda>table.
     io_bind (indexes_for_table S J db table) (\<lambda>infos.
     io_bind (columns_for_table S J parse db table (single_unique_columns infos)) (\<lambda>columns.
     io_bind (foreign_keys_for_table S J db table) (\<lambda>foreign_keys.
     io_bind (query_rows S J db (''SELECT COUNT(*) FROM '' @ quote_identifier table) []) (\<lambda>count_rows.
     io_bind (io_lift (rbind (ok_or (adapter ValueKind [Txt ''SQLite returned no table count'']) (first_row count_rows))
         (\<lambda>r. row_i64 J r 0))) (\<lambda>count.
       io_return
         (\<lparr>table_name = table, table_columns = columns,
           unique_constraints = map info_columns (filter info_unique infos),
           table_foreign_keys = foreign_keys, table_row_count = u64_or_default count\<rparr>,
          map (index_schema_of table) infos)))))))"

definition sql_quoted :: "string \<Rightarrow> string" where
  "sql_quoted s = [quote_char] @ s @ [quote_char]"

definition inspect_schema ::
  "'w sqlite_api \<Rightarrow> 'n json_api \<Rightarrow> (string \<Rightarrow> 'n json option) \<Rightarrow> nat \<Rightarrow> ('w, dactyl_error, 'n store_schema) io" where
  "inspect_schema S J parse db =
     io_bind (query_rows S J db
         (''SELECT name FROM sqlite_schema WHERE type = '' @ sql_quoted ''table'' @ '' AND name NOT LIKE '' @
          sql_quoted ''sqlite_%'' @ '' ORDER BY name'') [])
       (\<lambda>rows.
     io_bind (io_traverse (inspect_table S J parse db) rows) (\<lambda>parts.
       io_return \<lparr>format_version = 1, tables = map fst parts,
         indexes = sort_key index_name (concat (map snd parts))\<rparr>))"

definition sqlite_inspect_schema ::
  "'w sqlite_api \<Rightarrow> 'n json_api \<Rightarrow> (string \<Rightarrow> 'n json option) \<Rightarrow> sqlite_adapter \<Rightarrow> ('w, dactyl_error, 'n store_schema) io" where
  "sqlite_inspect_schema S J parse a =
     io_bind (io_lift (lock_connection a)) (\<lambda>db. inspect_schema S J parse db)"

definition sqlite_verify_integrity ::
  "'w sqlite_api \<Rightarrow> 'n json_api \<Rightarrow> sqlite_adapter \<Rightarrow> ('w, dactyl_error, integrity_report) io" where
  "sqlite_verify_integrity S J a =
     io_bind (io_lift (lock_connection a)) (\<lambda>db. verify_integrity S J db)"

section \<open>Sorted maps\<close>

lemma btree_update_keys: "fst ` set (btree_update k f m) = insert k (fst ` set m)"
  by (induction k f m rule: btree_update.induct) auto

lemma btree_update_sorted: "sorted_wrt (<) (map fst m) \<Longrightarrow> sorted_wrt (<) (map fst (btree_update k f m))"
proof (induction k f m rule: btree_update.induct)
  case (1 k f)
  then show ?case by simp
next
  case (2 k f j v m)
  have "x \<in> insert k (fst ` set m)" if "x \<in> fst ` set (btree_update k f m)" for x
    using that by (simp add: btree_update_keys)
  with 2 show ?case by (auto simp: image_iff) fastforce+
qed

lemma btree_update_map_of:
  "sorted_wrt (<) (map fst m) \<Longrightarrow>
     map_of (btree_update k f m) j = (if j = k then Some (f (map_of m k)) else map_of m j)"
proof (induction k f m rule: btree_update.induct)
  case (1 k f)
  then show ?case by simp
next
  case (2 k f i v m)
  have "map_of ((i, v) # m) k = None" if "k < i"
    using that 2(2) by (auto simp: map_of_eq_None_iff)
  with 2 show ?case by auto
qed

lemma map_of_sorted_list:
  fixes m :: "(int \<times> 'v) list"
  assumes "sorted_wrt (<) (map fst m)"
  shows "map (g \<circ> snd) m = map (\<lambda>k. g (the (map_of m k))) (sorted_list_of_set (fst ` set m))"
proof -
  have d: "sorted (map fst m)" "distinct (map fst m)"
    using assms by (simp_all add: strict_sorted_iff)
  then have keys: "sorted_list_of_set (fst ` set m) = map fst m"
    by (metis sorted_list_of_set.idem_if_sorted_distinct set_map)
  have "map (g \<circ> snd) m = map ((\<lambda>k. g (the (map_of m k))) \<circ> fst) m"
    using d(2) by (intro map_cong) (auto simp: map_of_is_SomeI)
  then show ?thesis by (simp add: keys)
qed

lemma insort_key_map: "insort_key f (g x) (map g xs) = map g (insort_key (\<lambda>a. f (g a)) x xs)"
  by (induction xs) auto

lemma sort_key_map: "sort_key f (map g xs) = map g (sort_key (\<lambda>a. f (g a)) xs)"
  by (induction xs) (simp_all add: insort_key_map)

section \<open>Properties\<close>

text \<open>The foreign keys of a table as a set of groups: the reading \<open>fk_group\<close> is compared with.\<close>

definition fk_of_id :: "fk_row list \<Rightarrow> int \<Rightarrow> foreign_key_schema" where
  "fk_of_id rows k =
     (let rs = filter (\<lambda>r. sint (fkr_id r) = k) rows; cs = sort_key (\<lambda>r. sint (fkr_seq r)) rs in
      \<lparr>fk_columns = map fkr_column cs, fk_ref_table = fkr_table (hd rs),
       fk_ref_columns = map fkr_ref_column cs, fk_on_delete = foreign_key_action_of (fkr_action (hd rs))\<rparr>)"

lemma fk_group_spec:
  "sorted_wrt (<) (map fst (fk_group rows)) \<and> fst ` set (fk_group rows) = (\<lambda>r. sint (fkr_id r)) ` set rows \<and>
   (\<forall>k. map_of (fk_group rows) k =
      (let rs = filter (\<lambda>r. sint (fkr_id r) = k) rows in
       if rs = [] then None
       else Some (fkr_table (hd rs), foreign_key_action_of (fkr_action (hd rs)),
              map (\<lambda>r. (sint (fkr_seq r), fkr_column r, fkr_ref_column r)) rs)))"
proof (induction rows rule: rev_induct)
  case Nil
  then show ?case by (simp add: fk_group_def)
next
  case (snoc r rows)
  have step: "fk_group (rows @ [r]) = btree_update (sint (fkr_id r)) (fk_push r) (fk_group rows)"
    by (simp add: fk_group_def)
  have s: "sorted_wrt (<) (map fst (fk_group rows))" using snoc.IH by simp
  have m: "map_of (fk_group rows) k =
      (let rs = filter (\<lambda>r. sint (fkr_id r) = k) rows in
       if rs = [] then None
       else Some (fkr_table (hd rs), foreign_key_action_of (fkr_action (hd rs)),
              map (\<lambda>r. (sint (fkr_seq r), fkr_column r, fkr_ref_column r)) rs))" for k
    using snoc.IH by blast
  show ?case
    unfolding step using snoc.IH
    by (auto simp: btree_update_sorted btree_update_keys btree_update_map_of [OF s] m fk_push_def Let_def hd_append)
qed

text \<open>
  C31: the foreign keys of a table are grouped as SQLite numbers them: one entry for each id, in
  ascending order of ids; its columns are the rows of that id by sequence number, its target
  and action those of the id's first row.
\<close>

theorem foreign_keys_grouped:
  "map (fk_of_parts \<circ> snd) (fk_group rows) =
     map (fk_of_id rows) (sorted_list_of_set ((\<lambda>r. sint (fkr_id r)) ` set rows))"
proof -
  note spec = fk_group_spec [of rows]
  have "fk_of_parts (the (map_of (fk_group rows) k)) = fk_of_id rows k"
    if "k \<in> (\<lambda>r. sint (fkr_id r)) ` set rows" for k
  proof -
    have "filter (\<lambda>r. sint (fkr_id r) = k) rows \<noteq> []"
      using that by (auto simp: filter_empty_conv)
    with spec show ?thesis
      by (simp add: Let_def fk_of_id_def sort_key_map comp_def)
  qed
  with spec map_of_sorted_list [of "fk_group rows" fk_of_parts] show ?thesis by simp
qed

lemma io_traverse_each:
  "io_traverse f xs w = Some (Inr ys, w') \<Longrightarrow> y \<in> set ys \<Longrightarrow> \<exists>x v v'. f x v = Some (Inr y, v')"
proof (induction xs arbitrary: w ys)
  case Nil
  then show ?case by (auto simp: io_iffs)
next
  case (Cons x xs)
  then show ?case by (auto simp: io_iffs) blast+
qed

lemma single_unique_columns_iff:
  "c \<in> set (single_unique_columns infos) \<longleftrightarrow> [c] \<in> set (map info_columns (filter info_unique infos))"
proof -
  have "c \<in> set (single_unique_columns infos) \<longleftrightarrow>
      (\<exists>i \<in> set infos. info_unique i \<and> length (info_columns i) = 1 \<and> hd (info_columns i) = c)"
    by (induction infos) (auto simp: single_unique_columns_def List.map_filter_simps)
  also have "\<dots> \<longleftrightarrow> (\<exists>i \<in> set infos. info_unique i \<and> info_columns i = [c])"
    by (auto simp: length_Suc_conv)
  finally show ?thesis by (auto simp: image_iff)
qed

text \<open>What one table of the catalog comes to: its description and its indexes.\<close>

lemma inspect_table_shape:
  assumes "inspect_table S J parse db row w = Some (Inr (t, is), w')"
  shows "\<exists>infos. unique_constraints t = map info_columns (filter info_unique infos) \<and>
     is = map (index_schema_of (table_name t)) infos \<and>
     (\<forall>c \<in> set (table_columns t). col_unique c \<longleftrightarrow> [col_name c] \<in> set (unique_constraints t))"
proof -
  have column: "column_of_row J parse cols r = Inr c \<Longrightarrow> col_unique c \<longleftrightarrow> col_name c \<in> set cols" for cols r c
    by (auto simp: column_of_row_def result_iffs)
  from assms obtain infos cs v v' where t: "unique_constraints t = map info_columns (filter info_unique infos)"
    "is = map (index_schema_of (table_name t)) infos" "table_columns t = cs"
    and c: "columns_for_table S J parse db (table_name t) (single_unique_columns infos) v = Some (Inr cs, v')"
    by (auto simp: inspect_table_def io_iffs)
  from c obtain rows where "traverse (column_of_row J parse (single_unique_columns infos)) rows = Inr cs"
    by (auto simp: columns_for_table_def io_iffs)
  then have "list_all2 (\<lambda>r c. column_of_row J parse (single_unique_columns infos) r = Inr c) rows cs"
    by (simp add: traverse_Inr_iff)
  then have "\<forall>c \<in> set cs. col_unique c \<longleftrightarrow> col_name c \<in> set (single_unique_columns infos)"
    by (induction rule: list_all2_induct) (auto dest: column)
  with t show ?thesis by (auto simp: single_unique_columns_iff)
qed

text \<open>
  C30: the schema description is consistent with itself: indexes are sorted by name and belong
  to described tables; the unique constraints of a table are exactly the column lists of its
  unique indexes; a column is marked unique exactly when a unique constraint consists of it.
\<close>

theorem inspect_schema_consistent:
  assumes "inspect_schema S J parse db w = Some (Inr s, w')"
  shows "format_version s = 1 \<and> sorted (map index_name (indexes s)) \<and>
     (\<forall>t \<in> set (tables s). \<forall>c \<in> set (table_columns t).
        col_unique c \<longleftrightarrow> [col_name c] \<in> set (unique_constraints t)) \<and>
     (\<forall>t \<in> set (tables s). \<forall>u \<in> set (unique_constraints t).
        \<exists>i \<in> set (indexes s). index_table i = table_name t \<and> index_unique i \<and> index_columns i = u) \<and>
     (\<forall>i \<in> set (indexes s). \<exists>t \<in> set (tables s). index_table i = table_name t \<and>
        (index_unique i \<longrightarrow> index_columns i \<in> set (unique_constraints t)))"
proof -
  from assms obtain parts rows v v' where s: "tables s = map fst parts"
    "indexes s = sort_key index_name (concat (map snd parts))" "format_version s = 1"
    and tr: "io_traverse (inspect_table S J parse db) rows v = Some (Inr parts, v')"
    by (auto simp: inspect_schema_def io_iffs)
  have shape: "\<exists>infos. unique_constraints (fst p) = map info_columns (filter info_unique infos) \<and>
     snd p = map (index_schema_of (table_name (fst p))) infos \<and>
     (\<forall>c \<in> set (table_columns (fst p)). col_unique c \<longleftrightarrow> [col_name c] \<in> set (unique_constraints (fst p)))"
    if "p \<in> set parts" for p
    using io_traverse_each [OF tr that] inspect_table_shape by (metis prod.collapse)
  have unique: "\<exists>i \<in> set (indexes s). index_table i = table_name t \<and> index_unique i \<and> index_columns i = u"
    if t: "t \<in> set (tables s)" and u: "u \<in> set (unique_constraints t)" for t u
  proof -
    from t s(1) obtain p where p: "p \<in> set parts" "t = fst p" by auto
    from shape [OF p(1)] u p(2) obtain infos i where "snd p = map (index_schema_of (table_name t)) infos"
      "i \<in> set infos" "info_unique i" "info_columns i = u" by auto
    with p show ?thesis unfolding s(2) by (auto simp: index_schema_of_def intro!: bexI [of _ p])
  qed
  have table: "\<exists>t \<in> set (tables s). index_table i = table_name t \<and>
        (index_unique i \<longrightarrow> index_columns i \<in> set (unique_constraints t))"
    if "i \<in> set (indexes s)" for i
  proof -
    from that s(2) obtain p where p: "p \<in> set parts" "i \<in> set (snd p)" by auto
    from shape [OF p(1)] p(2) obtain infos x
      where "unique_constraints (fst p) = map info_columns (filter info_unique infos)"
        "x \<in> set infos" "i = index_schema_of (table_name (fst p)) x" by auto
    then have "index_table i = table_name (fst p) \<and>
        (index_unique i \<longrightarrow> index_columns i \<in> set (unique_constraints (fst p)))"
      by (auto simp: index_schema_of_def)
    moreover have "fst p \<in> set (tables s)" using p(1) s(1) by simp
    ultimately show ?thesis by blast
  qed
  have "\<forall>t \<in> set (tables s). \<forall>c \<in> set (table_columns t). col_unique c \<longleftrightarrow> [col_name c] \<in> set (unique_constraints t)"
    using shape s(1) by auto
  with unique table s(2,3) show ?thesis by auto
qed

theorem inspect_schema_consistent_witness:
  "\<exists>s w'. inspect_schema (canned_sqlite one_table) ref_json (\<lambda>_. None) 1 canned_start = Some (Inr s, w') \<and>
     map (\<lambda>t. unique_constraints t) (tables s) = [[[''email'']]] \<and>
     (\<forall>t \<in> set (tables s). \<forall>c \<in> set (table_columns t).
        col_unique c \<longleftrightarrow> [col_name c] \<in> set (unique_constraints t))"
proof -
  let ?r = "inspect_schema (canned_sqlite one_table) ref_json (\<lambda>_. None) 1 canned_start"
  have "returns ?r (\<lambda>s w'. map (\<lambda>t. unique_constraints t) (tables s) = [[[''email'']]])"
    by code_simp
  then obtain s w' where r: "?r = Some (Inr s, w')" "map (\<lambda>t. unique_constraints t) (tables s) = [[[''email'']]]"
    by (rule returnsE)
  from inspect_schema_consistent [OF r(1)]
  have "\<forall>t \<in> set (tables s). \<forall>c \<in> set (table_columns t).
      col_unique c \<longleftrightarrow> [col_name c] \<in> set (unique_constraints t)" by (elim conjE)
  with r show ?thesis by (intro exI [of _ s] exI [of _ w'] conjI)
qed

end
