(* ===== verification/Sqlite_Backup.thy ===== *)
theory Sqlite_Backup
  imports Sqlite_Catalog
begin

text \<open>
  Online backup, \<open>src/adapter/sqlite/mod.rs\<close>: the page-copy loop with its deadline, and the
  temporary file that is verified, synced and only then renamed to its destination.
\<close>

section \<open>The copy loop\<close>

definition backup_timeout_error :: dactyl_error where
  "backup_timeout_error = adapter_with_code Timeout ''backup_timeout''
     [Txt ''SQLite online backup exceeded the configured lock timeout'']"

partial_function (option) backup_loop ::
  "'w host_api \<Rightarrow> 'w sqlite_api \<Rightarrow> nat \<Rightarrow> nat \<Rightarrow> nat \<Rightarrow> 'w \<Rightarrow> (unit result \<times> 'w) option"
where
  "backup_loop H S backup dest deadline w =
     (case backup_step S backup 64 w of (code, w1) \<Rightarrow>
        if code = SQLITE_DONE then Some (Inr (), w1)
        else if code = SQLITE_OK then backup_loop H S backup dest deadline w1
        else if code = SQLITE_BUSY \<or> code = SQLITE_LOCKED then
          (case instant_nanos H w1 of (now, w2) \<Rightarrow>
             if now < deadline then backup_loop H S backup dest deadline (sleep_millis H 1 w2)
             else Some (Inl backup_timeout_error, w2))
        else Some (Inl (conn_error S dest ''step SQLite online backup'' code w1), w1))"

declare backup_loop.simps [code]

text \<open>\<open>Instant + Duration\<close> panics when the seconds leave an \<open>i64\<close>.\<close>

definition instant_add :: "nat \<Rightarrow> nat \<Rightarrow> nat option" where
  "instant_add now d = (if (int now + int d) div 1000000000 < 2 ^ 63 then Some (now + d) else None)"

definition perform_backup ::
  "'w host_api \<Rightarrow> 'w sqlite_api \<Rightarrow> nat \<Rightarrow> nat \<Rightarrow> nat \<Rightarrow> ('w, dactyl_error, unit) io"
where
  "perform_backup H S source dest lock = (\<lambda>w.
     case backup_init S dest ''main'' source ''main'' w of (backup, w1) \<Rightarrow>
       if backup = 0
       then Some (Inl (map_sqlite_failure ''initialize SQLite online backup'' (failure_of S dest w1)), w1)
       else case instant_nanos H w1 of (now, w2) \<Rightarrow>
         (case instant_add now lock of
            None \<Rightarrow> None
          | Some deadline \<Rightarrow>
              (case backup_loop H S backup dest deadline w2 of
                 None \<Rightarrow> None
               | Some (result, w3) \<Rightarrow>
                   (case backup_finish S backup w3 of (finish_code, w4) \<Rightarrow>
                      if \<not> isl result \<and> finish_code \<noteq> SQLITE_OK
                      then Some (Inl (conn_error S dest ''finish SQLite online backup'' finish_code w4), w4)
                      else Some (result, w4)))))"

section \<open>The backup of a database\<close>

text \<open>A block with an open connection: the connection is dropped on every way out.\<close>

definition with_connection ::
  "'w sqlite_api \<Rightarrow> nat \<Rightarrow> ('w, dactyl_error, 'a) io \<Rightarrow> ('w, dactyl_error, 'a) io" where
  "with_connection S db body = (\<lambda>w.
     case body w of
       None \<Rightarrow> None
     | Some (Inl e, w1) \<Rightarrow> Some (Inl e, drop_connection S db w1)
     | Some (Inr x, w1) \<Rightarrow> Some (Inr x, w1))"

text \<open>\<open>destination_connection.close()?\<close>: a failed close leaves the handle to the drop.\<close>

definition close_or_drop :: "'w sqlite_api \<Rightarrow> nat \<Rightarrow> ('w, dactyl_error, unit) io" where
  "close_or_drop S db = (\<lambda>w.
     case close_connection S db w of ((r, left), w1) \<Rightarrow>
       (case r of Inl e \<Rightarrow> Some (Inl e, drop_connection S left w1) | Inr _ \<Rightarrow> Some (Inr (), w1)))"

definition fill_temporary ::
  "'w host_api \<Rightarrow> 'w sqlite_api \<Rightarrow> 'n json_api \<Rightarrow> nat \<Rightarrow> string \<Rightarrow> nat \<Rightarrow> ('w, dactyl_error, integrity_report) io"
where
  "fill_temporary H S J source temporary lock =
     io_bind (open_database S temporary ReadWrite) (\<lambda>db.
     io_bind (with_connection S db
       (io_bind (configure_connection S db \<lparr>open_access_mode = ReadWrite, lock_timeout = lock\<rparr>) (\<lambda>_.
        io_bind (perform_backup H S source db lock) (\<lambda>_.
        verify_integrity S J db)))) (\<lambda>report.
     io_bind (close_or_drop S db) (\<lambda>_. io_return report)))"

definition backup_result_of ::
  "'w host_api \<Rightarrow> 'w sqlite_api \<Rightarrow> 'n json_api \<Rightarrow> nat \<Rightarrow> string \<Rightarrow> integrity_report \<Rightarrow> ('w, dactyl_error, backup_result) io"
where
  "backup_result_of H S J source destination report =
     io_bind (io_map_err (storage_io ''stat SQLite backup'') (call (stat H destination))) (\<lambda>md.
     io_bind (pragma_text S J source ''journal_mode'') (\<lambda>mode.
       io_return \<lparr>backup_destination = destination, source_journal_mode = mode,
                  destination_journal_mode = report_journal_mode report, backup_bytes = md_len md\<rparr>))"

definition backup_body ::
  "'w host_api \<Rightarrow> 'w sqlite_api \<Rightarrow> 'n json_api \<Rightarrow> nat \<Rightarrow> string \<Rightarrow> string \<Rightarrow> nat \<Rightarrow> ('w, dactyl_error, backup_result) io"
where
  "backup_body H S J source temporary destination lock =
     io_bind (fill_temporary H S J source temporary lock) (\<lambda>report.
     io_bind (sync_database_files H temporary False) (\<lambda>_.
     io_bind (publish_temp_file H temporary destination) (\<lambda>_.
     backup_result_of H S J source destination report)))"

definition same_database :: "'w host_api \<Rightarrow> string \<Rightarrow> string \<Rightarrow> ('w, 'e, bool) io" where
  "same_database H source_path destination =
     (if path_eq destination source_path then io_return True
      else io_bind (path_key H source_path) (\<lambda>k.
           io_bind (path_key H destination) (\<lambda>l.
             io_return (map_option components k = map_option components l))))"

definition remove_leftovers :: "'w host_api \<Rightarrow> string \<Rightarrow> ('w, 'e, unit) io" where
  "remove_leftovers H temporary =
     io_bind (io_result (remove_file_if_exists H temporary)) (\<lambda>_.
     io_bind (io_result (remove_file_if_exists H (sidecar_path temporary ''-wal''))) (\<lambda>_.
     io_bind (io_result (remove_file_if_exists H (sidecar_path temporary ''-shm''))) (\<lambda>_. io_return ())))"

definition backup_database ::
  "'w host_api \<Rightarrow> 'w sqlite_api \<Rightarrow> 'n json_api \<Rightarrow> nat \<Rightarrow> string \<Rightarrow> string \<Rightarrow> nat \<Rightarrow> ('w, dactyl_error, backup_result) io"
where
  "backup_database H S J source source_path destination lock =
     io_bind (same_database H source_path destination) (\<lambda>same.
       if same
       then io_fail (adapter_with_code Conflict ''backup_destination_is_source''
              [Txt ''SQLite backup destination must differ from the active database''])
       else
         io_bind (ensure_parent H destination) (\<lambda>_.
         io_bind (ensure_absent H destination ''backup destination'') (\<lambda>_.
         io_bind (ensure_absent H (sidecar_path destination ''-wal'') ''backup WAL sidecar'') (\<lambda>_.
         io_bind (ensure_absent H (sidecar_path destination ''-shm'') ''backup SHM sidecar'') (\<lambda>_.
         io_bind (temporary_path H destination ''backup'') (\<lambda>temporary.
         io_bind (io_result (backup_body H S J source temporary destination lock)) (\<lambda>result.
           case result of
             Inr value \<Rightarrow> io_return value
           | Inl error \<Rightarrow> io_bind (remove_leftovers H temporary) (\<lambda>_. io_fail error))))))))"

definition sqlite_backup ::
  "'w host_api \<Rightarrow> 'w sqlite_api \<Rightarrow> 'n json_api \<Rightarrow> sqlite_adapter \<Rightarrow> string \<Rightarrow> ('w, dactyl_error, backup_result) io"
where
  "sqlite_backup H S J a destination =
     io_bind (io_lift (lock_connection a)) (\<lambda>db.
       backup_database H S J db (adp_path a) destination (lock_timeout (adp_options a)))"

section \<open>Properties\<close>

text \<open>
  C28: the copy loop returns when the source is changed only finitely often while it is copied.
  SQLite starts a copy again when another connection has changed the source, so a successful step
  may leave more pages than before; \<open>restarts w\<close> bounds how often that can still happen. A step that
  does not start again leaves fewer pages, a busy one leaves all as it is, and the clock does not
  go back and moves on while the thread sleeps: then the loop ends, waiting at the latest until its
  deadline between two steps that copy.
\<close>

theorem backup_loop_returns:
  fixes restarts pages clock :: "'w \<Rightarrow> nat"
  assumes ok: "\<And>w w1. backup_step S backup 64 w = (SQLITE_OK, w1) \<Longrightarrow>
        restarts w1 < restarts w \<or> restarts w1 = restarts w \<and> pages w1 < pages w"
    and busy: "\<And>w w1 code. backup_step S backup 64 w = (code, w1) \<Longrightarrow> code = SQLITE_BUSY \<or> code = SQLITE_LOCKED \<Longrightarrow>
        restarts w1 = restarts w \<and> pages w1 = pages w \<and> clock w \<le> clock w1"
    and now: "\<And>w. instant_nanos H w = (clock w, w)"
    and sleep: "\<And>w. clock w < clock (sleep_millis H 1 w) \<and> restarts (sleep_millis H 1 w) = restarts w \<and>
        pages (sleep_millis H 1 w) = pages w"
  shows "\<exists>r w'. backup_loop H S backup dest deadline w = Some (r, w')"
proof (induction w rule: wf_induct_rule [OF wf_measures [of "[restarts, pages, \<lambda>w. deadline - clock w]"]])
  case (1 w)
  obtain code w1 where s: "backup_step S backup 64 w = (code, w1)" by (cases "backup_step S backup 64 w")
  have IH: "\<exists>r w'. backup_loop H S backup dest deadline v = Some (r, w')"
    if "restarts v < restarts w \<or> restarts v = restarts w \<and>
      (pages v < pages w \<or> pages v = pages w \<and> deadline - clock v < deadline - clock w)" for v
    using 1 [of v] that by auto
  show ?case
  proof (cases "code = SQLITE_BUSY \<or> code = SQLITE_LOCKED")
    case True
    let ?v = "sleep_millis H 1 w1"
    note b = busy [OF s True] and z = sleep [of w1]
    have "\<exists>r w'. backup_loop H S backup dest deadline ?v = Some (r, w')" if "clock w1 < deadline"
      by (rule IH) (use b z that in linarith)
    with True s show ?thesis by (subst backup_loop.simps) (auto simp: now)
  next
    case False
    show ?thesis
    proof (cases "code = SQLITE_OK")
      case True
      with s ok IH have "\<exists>r w'. backup_loop H S backup dest deadline w1 = Some (r, w')" by blast
      with True s show ?thesis by (subst backup_loop.simps) simp
    next
      case notok: False
      with False s show ?thesis by (subst backup_loop.simps) auto
    qed
  qed
qed

text \<open>
  A source of three pages beside the mini host: a copy is one page a step, the second step of the
  first copy finds the source changed and starts again, and every other step is busy. The clock
  moves by one at each sleep.
\<close>

record copied_source = mini_host +
  cs_changes :: nat
  cs_pages :: nat
  cs_clock :: nat

definition copied_start :: copied_source where
  "copied_start = mini_host.extend mh_start \<lparr>cs_changes = 1, cs_pages = 3, cs_clock = 0\<rparr>"

definition ticking_host :: "copied_source host_api" where
  "ticking_host = mini_host_api\<lparr>instant_nanos := (\<lambda>w. (cs_clock w, w)),
     sleep_millis := (\<lambda>n w. w\<lparr>cs_clock := cs_clock w + 1\<rparr>)\<rparr>"

definition cs_step :: "nat \<Rightarrow> int \<Rightarrow> copied_source \<Rightarrow> int \<times> copied_source" where
  "cs_step b n w =
     (if even (cs_clock w + cs_pages w + cs_changes w) then (SQLITE_BUSY, w)
      else if cs_pages w = 2 \<and> cs_changes w = 1 then (SQLITE_OK, w\<lparr>cs_changes := 0, cs_pages := 3\<rparr>)
      else if cs_pages w = 0 then (SQLITE_DONE, w)
      else (SQLITE_OK, w\<lparr>cs_pages := cs_pages w - 1\<rparr>))"

definition changing_sqlite :: "copied_source sqlite_api" where
  "changing_sqlite = mini_host_sqlite\<lparr>backup_step := cs_step\<rparr>"

theorem backup_loop_returns_witness:
  "\<exists>w'. backup_loop ticking_host changing_sqlite 1 2 50 copied_start = Some (Inr (), w') \<and>
     cs_changes w' = 0 \<and> cs_pages w' = 0 \<and> 0 < cs_clock w'"
proof -
  let ?loop = "backup_loop ticking_host changing_sqlite 1 2 50 copied_start"
  have "\<exists>r w'. ?loop = Some (r, w')"
    by (rule backup_loop_returns [where restarts = cs_changes and pages = cs_pages and clock = cs_clock])
      (auto simp: ticking_host_def changing_sqlite_def cs_step_def split: if_splits)
  moreover have "returns ?loop (\<lambda>_ w'. cs_changes w' = 0 \<and> cs_pages w' = 0 \<and> 0 < cs_clock w')"
    by code_simp
  ultimately show ?thesis by (auto elim!: returnsE)
qed

text \<open>
  The deadline is looked at after a busy step only: a source that is changed before every step keeps
  the loop running past any deadline.
\<close>

theorem backup_deadline_needs_a_busy_step:
  fixes S :: "'w sqlite_api"
  assumes "\<And>w. fst (backup_step S backup 64 w) = SQLITE_OK"
  shows "backup_loop H S backup dest deadline w = None"
proof (rule ccontr)
  assume "backup_loop H S backup dest deadline w \<noteq> None"
  then obtain y where run: "backup_loop H S backup dest deadline w = Some y" by blast
  have "S = S \<longrightarrow> backup = backup \<longrightarrow> False"
  proof (rule backup_loop.raw_induct [where
        P = "\<lambda>H S' backup' dest deadline w y. S' = S \<longrightarrow> backup' = backup \<longrightarrow> False", OF _ run], intro impI)
    fix f and H :: "'w host_api" and S' :: "'w sqlite_api" and backup' dest deadline w y
    assume IH: "\<And>H S' backup' dest deadline w y. f H S' backup' dest deadline w = Some y \<Longrightarrow>
          S' = S \<longrightarrow> backup' = backup \<longrightarrow> False"
      and eq: "(case backup_step S' backup' 64 w of (code, w1) \<Rightarrow>
        if code = SQLITE_DONE then Some (Inr (), w1)
        else if code = SQLITE_OK then f H S' backup' dest deadline w1
        else if code = SQLITE_BUSY \<or> code = SQLITE_LOCKED then
          (case instant_nanos H w1 of (now, w2) \<Rightarrow>
             if now < deadline then f H S' backup' dest deadline (sleep_millis H 1 w2)
             else Some (Inl backup_timeout_error, w2))
        else Some (Inl (conn_error S' dest ''step SQLite online backup'' code w1), w1)) = Some y"
      and same: "S' = S" "backup' = backup"
    obtain w1 where "backup_step S backup 64 w = (SQLITE_OK, w1)"
      using assms [of w] by (cases "backup_step S backup 64 w") simp
    with eq same have "f H S backup dest deadline w1 = Some y" by simp
    from IH [OF this] show False by simp
  qed
  then show False by simp
qed

text \<open>A success of the loop is a step that reported the whole database copied.\<close>

lemma backup_loop_done:
  fixes S :: "'w sqlite_api"
  assumes "backup_loop H S backup dest deadline w = Some (Inr (), w')"
  shows "\<exists>v. backup_step S backup 64 v = (SQLITE_DONE, w')"
proof -
  let ?G = "\<lambda>(y :: unit result \<times> 'w). \<not> isl (fst y) \<longrightarrow> (\<exists>v. backup_step S backup 64 v = (SQLITE_DONE, snd y))"
  have "S = S \<longrightarrow> backup = backup \<longrightarrow> ?G (Inr (), w')"
  proof (rule backup_loop.raw_induct [where
        P = "\<lambda>H S' backup' dest deadline w y. S' = S \<longrightarrow> backup' = backup \<longrightarrow> ?G y", OF _ assms], intro impI)
    fix f and H :: "'w host_api" and S' :: "'w sqlite_api" and backup' dest deadline w y
    assume IH: "\<And>H S' backup' dest deadline w y. f H S' backup' dest deadline w = Some y \<Longrightarrow>
          S' = S \<longrightarrow> backup' = backup \<longrightarrow> ?G y"
      and eq: "(case backup_step S' backup' 64 w of (code, w1) \<Rightarrow>
        if code = SQLITE_DONE then Some (Inr (), w1)
        else if code = SQLITE_OK then f H S' backup' dest deadline w1
        else if code = SQLITE_BUSY \<or> code = SQLITE_LOCKED then
          (case instant_nanos H w1 of (now, w2) \<Rightarrow>
             if now < deadline then f H S' backup' dest deadline (sleep_millis H 1 w2)
             else Some (Inl backup_timeout_error, w2))
        else Some (Inl (conn_error S' dest ''step SQLite online backup'' code w1), w1)) = Some y"
      and same: "S' = S" "backup' = backup" and ok: "\<not> isl (fst y)"
    obtain code w1 where s: "backup_step S backup 64 w = (code, w1)" by (cases "backup_step S backup 64 w")
    obtain now w2 where n: "instant_nanos H w1 = (now, w2)" by (cases "instant_nanos H w1")
    consider "code = SQLITE_DONE" | "f H S backup dest deadline w1 = Some y"
      | "f H S backup dest deadline (sleep_millis H 1 w2) = Some y" | "isl (fst y)"
      using eq s n same by (auto split: if_splits)
    then show "\<exists>v. backup_step S backup 64 v = (SQLITE_DONE, snd y)"
    proof cases
      case 1
      with eq s same show ?thesis by auto
    next
      case 2
      from IH [OF this] ok show ?thesis by simp
    next
      case 3
      from IH [OF this] ok show ?thesis by simp
    next
      case 4
      with ok show ?thesis by simp
    qed
  qed
  then show ?thesis by simp
qed

lemma perform_backup_done:
  assumes "perform_backup H S source dest lock w = Some (Inr (), w')"
  obtains backup w1 v v1 where "backup_init S dest ''main'' source ''main'' w = (backup, w1)" "backup \<noteq> 0"
    "backup_step S backup 64 v = (SQLITE_DONE, v1)" "backup_finish S backup v1 = (SQLITE_OK, w')"
proof -
  from assms obtain backup w1 w2 deadline w3 where "backup_init S dest ''main'' source ''main'' w = (backup, w1)" "backup \<noteq> 0"
    and l: "backup_loop H S backup dest deadline w2 = Some (Inr (), w3)"
    and "backup_finish S backup w3 = (SQLITE_OK, w')"
    by (auto simp: perform_backup_def split: prod.splits if_splits option.splits)
  with backup_loop_done [OF l] that show thesis by blast
qed

text \<open>
  C29: a backup that succeeds was complete and verified before it got its name: the copy went from
  the connection of the source to one opened on the temporary file, its last step reported the
  whole database, it was finished without error, the integrity check of the copy passed, its
  connection was closed and the file synced, and the temporary file was renamed to the destination
  afterwards.
\<close>

theorem backup_success_was_verified:
  assumes "backup_database H S J source source_path destination lock w = Some (Inr res, w')"
  shows "\<exists>temporary db backup report u u1 u2 u3 v v1 v2 v3 v4 v5 v6.
     open_v2 S temporary (open_flags ReadWrite) u = ((SQLITE_OK, db), u1) \<and> db \<noteq> 0 \<and>
     backup_init S db ''main'' source ''main'' u2 = (backup, u3) \<and> backup \<noteq> 0 \<and>
     backup_step S backup 64 v = (SQLITE_DONE, v1) \<and> backup_finish S backup v1 = (SQLITE_OK, v2) \<and>
     verify_integrity S J db v2 = Some (Inr report, v3) \<and> close_or_drop S db v3 = Some (Inr (), v4) \<and>
     sync_database_files H temporary False v4 = Some (Inr (), v5) \<and>
     rename H temporary destination v5 = (Inr (), v6) \<and>
     backup_destination res = destination \<and> destination_journal_mode res = report_journal_mode report"
proof -
  have conn: "with_connection S db m v = Some (Inr x, v') \<Longrightarrow> m v = Some (Inr x, v')"
    for db v v' x and m :: "('a, dactyl_error, integrity_report) io"
    by (auto simp: with_connection_def split: option.splits sum.splits)
  have pub: "\<exists>v1. rename H t d v = (Inr (), v1)" if "publish_temp_file H t d v = Some (Inr u, v')" for t d v u v'
    using that by (auto simp: publish_temp_file_def host_iffs)
  from assms obtain temporary w1 w2 where "backup_body H S J source temporary destination lock w1 = Some (Inr res, w2)"
    by (auto simp: backup_database_def io_iffs split_sum_ex split: if_splits)
  then obtain report w3 w4 w5 where f: "fill_temporary H S J source temporary lock w1 = Some (Inr report, w3)"
    and s: "sync_database_files H temporary False w3 = Some (Inr (), w4)"
    and p: "publish_temp_file H temporary destination w4 = Some (Inr (), w5)"
    and r: "backup_destination res = destination" "destination_journal_mode res = report_journal_mode report"
    by (auto simp: backup_body_def backup_result_of_def io_iffs)
  from f obtain db u1 x y z where o: "open_database S temporary ReadWrite w1 = Some (Inr db, u1)"
    and b: "perform_backup H S source db lock x = Some (Inr (), y)"
    and i: "verify_integrity S J db y = Some (Inr report, z)" and c: "close_or_drop S db z = Some (Inr (), w3)"
    by (auto simp: fill_temporary_def io_iffs dest!: conn)
  from o have "open_v2 S temporary (open_flags ReadWrite) w1 = ((SQLITE_OK, db), u1)" "db \<noteq> 0"
    by (auto simp: open_database_def split: if_splits prod.splits)
  with perform_backup_done [OF b] pub [OF p] i c s r show ?thesis by metis
qed

theorem backup_success_was_verified_witness:
  "\<exists>res w' db report v v3. backup_database mini_host_api mini_host_sqlite ref_json 1 ''/d/a.db'' ''/d/b.db'' 0 mh_start
       = Some (Inr res, w') \<and>
     mh_lookup ''/d/b.db'' w' \<noteq> None \<and> mh_lookup ''/d/b.db'' mh_start = None \<and>
     verify_integrity mini_host_sqlite ref_json db (v :: mini_host) = Some (Inr report, v3) \<and>
     destination_journal_mode res = report_journal_mode report"
proof -
  let ?r = "backup_database mini_host_api mini_host_sqlite ref_json 1 ''/d/a.db'' ''/d/b.db'' 0 mh_start"
  have "returns ?r (\<lambda>res w'. mh_lookup ''/d/b.db'' w' \<noteq> None)" by code_simp
  then obtain res w' where r: "?r = Some (Inr res, w')" and p: "mh_lookup ''/d/b.db'' w' \<noteq> None"
    by (rule returnsE)
  have "mh_lookup ''/d/b.db'' mh_start = None" by code_simp
  with backup_success_was_verified [OF r] r p show ?thesis by blast
qed

end
