(* ===== verification/Recovery_Rebuild.thy ===== *)
theory Recovery_Rebuild
  imports Sqlite_Backup
begin

text \<open>
  The logical dump and reload of a database, \<open>src/adapter/sqlite/recovery.rs\<close>: its objects,
  the copy of table rows through bound parameters, and the order in which schema, rows and
  derived objects are rebuilt.
\<close>

section \<open>Values\<close>

definition parameter_from_value :: "'n json_api \<Rightarrow> 'n json \<Rightarrow> parameter result" where
  "parameter_from_value J value =
     (case value of
        JNull \<Rightarrow> Inr PNull
      | JBool b \<Rightarrow> Inr (PBool b)
      | JNumber n \<Rightarrow>
          (case as_i64 J n of
             Some i \<Rightarrow> Inr (PInteger i)
           | None \<Rightarrow> ok_or (adapter ValueKind [Txt ''SQLite number is out of range''])
               (map_option PReal (as_f64 J n)))
      | JString s \<Rightarrow> Inr (PText s)
      | JArray vs \<Rightarrow>
          rmap PBlob (traverse (\<lambda>v. ok_or (adapter ValueKind [Txt ''SQLite blob byte is out of range''])
            (value_as_byte J v)) vs)
      | JObject _ \<Rightarrow> Inl (adapter ValueKind [Txt ''SQLite row value cannot be restored as a parameter'']))"

section \<open>Objects of the source\<close>

record schema_object =
  obj_kind :: string
  obj_name :: string
  obj_sql :: string

definition schema_objects_sql :: string where
  "schema_objects_sql =
     ''SELECT type, name, sql FROM sqlite_schema WHERE sql IS NOT NULL AND name NOT LIKE '' @ sql_quoted ''sqlite_%'' @
     '' ORDER BY CASE type WHEN '' @ sql_quoted ''table'' @ '' THEN 0 WHEN '' @ sql_quoted ''index'' @
     '' THEN 1 WHEN '' @ sql_quoted ''view'' @ '' THEN 2 WHEN '' @ sql_quoted ''trigger'' @ '' THEN 3 ELSE 4 END, name''"

definition schema_object_of :: "'n row \<Rightarrow> schema_object result" where
  "schema_object_of row =
     rbind (row_string row 0) (\<lambda>kind. rbind (row_string row 1) (\<lambda>name. rbind (row_string row 2) (\<lambda>sql.
       Inr \<lparr>obj_kind = kind, obj_name = name, obj_sql = sql\<rparr>)))"

definition schema_objects ::
  "'w sqlite_api \<Rightarrow> 'n json_api \<Rightarrow> nat \<Rightarrow> ('w, dactyl_error, schema_object list) io" where
  "schema_objects S J source =
     io_bind (query_rows S J source schema_objects_sql []) (\<lambda>rows. io_lift (traverse schema_object_of rows))"

definition table_columns_of ::
  "'w sqlite_api \<Rightarrow> 'n json_api \<Rightarrow> nat \<Rightarrow> string \<Rightarrow> ('w, dactyl_error, string list) io" where
  "table_columns_of S J source table =
     io_bind (query_rows S J source (''PRAGMA table_info('' @ quote_identifier table @ '')'') []) (\<lambda>rows.
       io_lift (traverse (\<lambda>row. row_string row 1) rows))"

definition has_sqlite_sequence ::
  "'w sqlite_api \<Rightarrow> 'n json_api \<Rightarrow> nat \<Rightarrow> ('w, dactyl_error, bool) io" where
  "has_sqlite_sequence S J source =
     io_bind (query_rows S J source
       (''SELECT name FROM sqlite_schema WHERE type = '' @ sql_quoted ''table'' @ '' AND name = '' @
        sql_quoted ''sqlite_sequence'') []) (\<lambda>rows. io_return (rows \<noteq> []))"

section \<open>Copying rows\<close>

definition select_sql :: "string list \<Rightarrow> string \<Rightarrow> string" where
  "select_sql columns table =
     ''SELECT '' @ join '', '' (map quote_identifier columns) @ '' FROM '' @ quote_identifier table @ '' NOT INDEXED''"

definition insert_sql :: "string list \<Rightarrow> string \<Rightarrow> string" where
  "insert_sql columns table =
     ''INSERT INTO '' @ quote_identifier table @ '' ('' @ join '', '' (map quote_identifier columns) @
     '') VALUES ('' @ join '', '' (replicate (length columns) ''?'') @ '')''"

text \<open>One column of the row a statement stands on, as the parameter that restores it.\<close>

definition copied_parameter ::
  "'w sqlite_api \<Rightarrow> 'n json_api \<Rightarrow> nat \<Rightarrow> 'w \<Rightarrow> nat \<Rightarrow> parameter result option" where
  "copied_parameter S J st w i =
     (if int i > c_int_max then Some (Inl (adapter ValueKind [Txt ''too many SQLite table columns'']))
      else case column_value S J st w (int i) of
        None \<Rightarrow> None
      | Some (Inl e) \<Rightarrow> Some (Inl e)
      | Some (Inr v) \<Rightarrow> Some (parameter_from_value J v))"

partial_function (option) copy_rows ::
  "'w sqlite_api \<Rightarrow> 'n json_api \<Rightarrow> nat \<Rightarrow> nat \<Rightarrow> nat \<Rightarrow> string \<Rightarrow> nat \<Rightarrow> 'w \<Rightarrow> (unit result \<times> 'w) option"
where
  "copy_rows S J source dest st sql n w =
     (case step S st w of (code, w1) \<Rightarrow>
        if code = SQLITE_ROW then
          (case partial_traverse (copied_parameter S J st w1) [0..<n] of
             None \<Rightarrow> None
           | Some (Inl e) \<Rightarrow> Some (Inl e, w1)
           | Some (Inr params) \<Rightarrow>
               (case execute_write S dest sql params w1 of
                  None \<Rightarrow> None
                | Some (Inl e, w2) \<Rightarrow> Some (Inl e, w2)
                | Some (Inr _, w2) \<Rightarrow> copy_rows S J source dest st sql n w2))
        else if code = SQLITE_DONE then Some (Inr (), w1)
        else Some (Inl (conn_error S source ''step SQLite statement'' code w1), w1))"

declare copy_rows.simps [code]

definition copy_table_rows ::
  "'w sqlite_api \<Rightarrow> 'n json_api \<Rightarrow> nat \<Rightarrow> nat \<Rightarrow> string \<Rightarrow> ('w, dactyl_error, unit) io" where
  "copy_table_rows S J source dest table =
     io_bind (table_columns_of S J source table) (\<lambda>columns.
       if columns = [] then io_return ()
       else with_statement S source (select_sql columns table) (\<lambda>st.
         copy_rows S J source dest st (insert_sql columns table) (length columns)))"

section \<open>Rebuilding\<close>

record rebuild_result =
  rebuilt_user_version :: i64
  rebuilt_application_id :: i64

text \<open>Signed decimal digits, as \<open>format!\<close> prints an \<open>i64\<close>.\<close>

definition decimal_i64 :: "i64 \<Rightarrow> string" where
  "decimal_i64 v = (if sint v < 0 then ''-'' @ decimal (nat (- sint v)) else decimal (nat (sint v)))"

definition run_sql :: "'w sqlite_api \<Rightarrow> nat \<Rightarrow> string \<Rightarrow> string \<Rightarrow> ('w, dactyl_error, unit) io" where
  "run_sql S db operation sql = io_map_err (map_sqlite_failure operation) (exec_sql S db sql)"

definition create_table_of :: "'w sqlite_api \<Rightarrow> nat \<Rightarrow> schema_object \<Rightarrow> ('w, dactyl_error, unit) io" where
  "create_table_of S dest object =
     (if contains_text (to_ascii_lowercase (obj_sql object)) ''virtual table''
      then io_fail (adapter_with_code Capability ''unsupported_recovery_object''
             [Txt ''logical recovery does not support virtual table '', Txt (obj_name object)])
      else run_sql S dest ''create recovered SQLite table'' (obj_sql object))"

definition is_table :: "schema_object \<Rightarrow> bool" where
  "is_table object \<longleftrightarrow> obj_kind object = ''table''"

definition is_derived :: "schema_object \<Rightarrow> bool" where
  "is_derived object \<longleftrightarrow> obj_kind object \<in> {''index'', ''view'', ''trigger''}"

text \<open>The block that fills an open destination; the caller's last checkpoint always succeeds.\<close>

definition rebuild_into ::
  "'w sqlite_api \<Rightarrow> 'n json_api \<Rightarrow> nat \<Rightarrow> nat \<Rightarrow> nat \<Rightarrow> ('w, dactyl_error, rebuild_result) io"
where
  "rebuild_into S J source dest lock =
     io_bind (configure_connection S dest \<lparr>open_access_mode = ReadWrite, lock_timeout = lock\<rparr>) (\<lambda>_.
     io_bind (run_sql S dest ''configure private recovery journal'' ''PRAGMA journal_mode = PERSIST'') (\<lambda>_.
     io_bind (run_sql S dest ''disable recovery foreign keys'' ''PRAGMA foreign_keys = OFF'') (\<lambda>_.
     io_bind (pragma_integer S J source ''user_version'') (\<lambda>user_version.
     io_bind (pragma_integer S J source ''application_id'') (\<lambda>application_id.
     io_bind (schema_objects S J source) (\<lambda>objects.
     io_bind (io_traverse (create_table_of S dest) (filter is_table objects)) (\<lambda>_.
     io_bind (io_traverse (\<lambda>o'. copy_table_rows S J source dest (obj_name o')) (filter is_table objects)) (\<lambda>_.
     io_bind (has_sqlite_sequence S J source) (\<lambda>sequence.
     io_bind (if sequence then copy_table_rows S J source dest ''sqlite_sequence'' else io_return ()) (\<lambda>_.
     io_bind (io_traverse (\<lambda>o'. run_sql S dest ''create recovered SQLite schema object'' (obj_sql o'))
       (filter is_derived objects)) (\<lambda>_.
     io_bind (run_sql S dest ''restore SQLite user_version'' (''PRAGMA user_version = '' @ decimal_i64 user_version)) (\<lambda>_.
     io_bind (run_sql S dest ''restore SQLite application_id''
       (''PRAGMA application_id = '' @ decimal_i64 application_id)) (\<lambda>_.
     io_bind (run_sql S dest ''set recovered SQLite journal mode'' ''PRAGMA journal_mode = DELETE'') (\<lambda>_.
     io_bind (verify_integrity S J dest) (\<lambda>report.
       if \<not> eq_ignore_ascii_case (report_journal_mode report) ''delete''
       then io_fail (adapter_with_code Storage ''recovery_journal_mode_mismatch''
              [Txt ''recovered SQLite journal mode is '', Txt (report_journal_mode report)])
       else io_return \<lparr>rebuilt_user_version = user_version, rebuilt_application_id = application_id\<rparr>)))))))))))))))"

text \<open>The destination is closed whatever happened; a close that fails leaves the handle to the drop.\<close>

definition rebuild_database ::
  "'w sqlite_api \<Rightarrow> 'n json_api \<Rightarrow> nat \<Rightarrow> string \<Rightarrow> nat \<Rightarrow> ('w, dactyl_error, rebuild_result) io"
where
  "rebuild_database S J source temporary lock =
     io_bind (open_database S temporary ReadWrite) (\<lambda>dest.
     io_bind (io_result (rebuild_into S J source dest lock)) (\<lambda>result.
     io_bind (io_result (close_or_drop S dest)) (\<lambda>close.
       case result of
         Inl error \<Rightarrow> io_fail error
       | Inr value \<Rightarrow> (case close of Inr _ \<Rightarrow> io_return value | Inl error \<Rightarrow> io_fail error))))"

section \<open>Values that are copied\<close>

text \<open>
  The copy keeps every value it can read: an INTEGER cell is bound as that integer, a REAL
  as that real, TEXT as those characters, a BLOB as those bytes, NULL as NULL; no storage class
  turns into another on the way.
\<close>

theorem copied_values_keep_class:
  assumes "json_laws J" and "copied_parameter S J st w i = Some (Inr p)" and "int i \<le> c_int_max"
  shows "(column_type S st (int i) w = SQLITE_INTEGER \<longrightarrow> p = PInteger (column_int64 S st (int i) w)) \<and>
     (column_type S st (int i) w = SQLITE_FLOAT \<longrightarrow>
        p = PReal (column_double S st (int i) w) \<and> is_finite (column_double S st (int i) w)) \<and>
     (column_type S st (int i) w = SQLITE_TEXT \<longrightarrow> (\<exists>mem s. column_text S st (int i) w = Some mem \<and>
        from_utf8 (take (nat (max (column_bytes S st (int i) w) 0)) mem) = Some s \<and> p = PText s)) \<and>
     (column_type S st (int i) w = SQLITE_BLOB \<longrightarrow> (\<exists>mem. column_blob S st (int i) w = Some mem \<and>
        p = PBlob (take (nat (max (column_bytes S st (int i) w) 0)) mem))) \<and>
     (column_type S st (int i) w = SQLITE_NULL \<longrightarrow> p = PNull)"
proof -
  have blob: "traverse (\<lambda>v. ok_or e (value_as_byte J v)) (map (\<lambda>b. JNumber (num_from_u64 J (ucast b))) bs) = Inr bs"
    for bs :: "u8 list" and e :: dactyl_error
    using traverse_those [of e "value_as_byte J" "map (\<lambda>b. JNumber (num_from_u64 J (ucast b))) bs"]
      accept_blob_json [OF assms(1), of bs]
    by (simp add: blob_json_def)
  from assms(2,3) obtain v where v: "column_value S J st w (int i) = Some (Inr v)"
    and p: "parameter_from_value J v = Inr p"
    by (auto simp: copied_parameter_def split: option.splits sum.splits)
  note v = v [unfolded column_value_def Let_def]
  show ?thesis
  proof (intro conjI impI)
    assume "column_type S st (int i) w = SQLITE_INTEGER"
    with v p assms(1) show "p = PInteger (column_int64 S st (int i) w)"
      by (auto simp: parameter_from_value_def json_laws_def)
  next
    assume k: "column_type S st (int i) w = SQLITE_FLOAT"
    with v obtain n where n: "num_from_f64 J (column_double S st (int i) w) = Some n" "v = JNumber n"
      by (auto simp: ok_or_Inr_iff)
    with assms(1) have "as_i64 J n = None" "as_f64 J n = Some (column_double S st (int i) w)"
      by (auto simp: json_laws_def)
    with p n show "p = PReal (column_double S st (int i) w)" by (simp add: parameter_from_value_def)
    have "\<forall>f. num_from_f64 J f = None \<longleftrightarrow> \<not> is_finite f" using assms(1) by (simp add: json_laws_def)
    with n(1) show "is_finite (column_double S st (int i) w)" by (metis option.distinct(1))
  next
    assume "column_type S st (int i) w = SQLITE_TEXT"
    with v p show "\<exists>mem s. column_text S st (int i) w = Some mem \<and>
        from_utf8 (take (nat (max (column_bytes S st (int i) w) 0)) mem) = Some s \<and> p = PText s"
      by (auto simp: parameter_from_value_def raw_slice_def ok_or_Inr_iff split: if_splits)
  next
    assume "column_type S st (int i) w = SQLITE_BLOB"
    with v p show "\<exists>mem. column_blob S st (int i) w = Some mem \<and>
        p = PBlob (take (nat (max (column_bytes S st (int i) w) 0)) mem)"
      by (auto simp: parameter_from_value_def raw_slice_def blob_json_def blob split: if_splits)
  next
    assume "column_type S st (int i) w = SQLITE_NULL"
    with v p show "p = PNull" by (auto simp: parameter_from_value_def)
  qed
qed

theorem copied_values_keep_class_witness:
  "copied_parameter mini_host_sqlite ref_json 0 mh_start 0 = Some (Inr (PInteger 0))"
proof -
  have t: "column_type mini_host_sqlite 0 0 mh_start = SQLITE_INTEGER"
    by (simp add: mini_host_sqlite_def mh_is_text_def mh_stmt_sql_def mh_start_def)
  obtain p where p: "copied_parameter mini_host_sqlite ref_json 0 mh_start 0 = Some (Inr p)"
  proof -
    have "case copied_parameter mini_host_sqlite ref_json 0 mh_start 0 of Some (Inr p) \<Rightarrow> True | _ \<Rightarrow> False"
      by code_simp
    then show ?thesis using that by (auto split: option.split_asm sum.split_asm)
  qed
  from copied_values_keep_class [OF ref_json_laws p] t p show ?thesis
    by (simp add: c_int_max_def mini_host_sqlite_def)
qed

end
