(* ===== verification/Recovery.thy ===== *)
theory Recovery
  imports Recovery_Stage Recovery_Rebuild
begin

unbundle bit_operations_syntax

text \<open>
  Explicit recovery of a SQLite database, \<open>src/adapter/sqlite/recovery.rs\<close> and its entry in
  \<open>src/adapter/sqlite/mod.rs\<close>: the snapshot is rebuilt in a private stage, the original is moved
  to the archive, the rebuilt file takes its name, and a failure at any step moves the names
  back. The state of the call is the record \<open>recovering\<close>.
\<close>

section \<open>State\<close>

text \<open>
  The world, the adapter the call borrows mutably, its stage, and \<open>moved\<close>: the moves of
  original files that were done, oldest first.
\<close>

record 'w recovering =
  rec_world :: 'w
  rec_adapter :: sqlite_adapter
  rec_stage :: stage
  rec_moved :: "(string \<times> string \<times> identity) list"

definition on_rec :: "('w, 'e, 'a) io \<Rightarrow> ('w recovering, 'e, 'a) io" where
  "on_rec m = (\<lambda>s. case m (rec_world s) of
     None \<Rightarrow> None
   | Some (r, w) \<Rightarrow> Some (r, s\<lparr>rec_world := w\<rparr>))"

definition rec_gets :: "('w recovering \<Rightarrow> 'a) \<Rightarrow> ('w recovering, 'e, 'a) io" where
  "rec_gets f = (\<lambda>s. Some (Inr (f s), s))"

definition rec_modify :: "('w recovering \<Rightarrow> 'w recovering) \<Rightarrow> ('w recovering, 'e, unit) io" where
  "rec_modify f = (\<lambda>s. Some (Inr (), f s))"

section \<open>The connection of the adapter\<close>

definition set_database :: "nat \<Rightarrow> 'w recovering \<Rightarrow> 'w recovering" where
  "set_database db s = s\<lparr>rec_adapter := (rec_adapter s)\<lparr>adp_database := db\<rparr>\<rparr>"

text \<open>\<open>connection.close()\<close> on the adapter's connection: a failed close leaves its handle there.\<close>

definition close_adapter :: "'w sqlite_api \<Rightarrow> ('w recovering, dactyl_error, unit) io" where
  "close_adapter S = (\<lambda>s.
     case close_connection S (adp_database (rec_adapter s)) (rec_world s) of
       ((r, left), w1) \<Rightarrow> Some (r, set_database left (s\<lparr>rec_world := w1\<rparr>)))"

definition reopen_connection ::
  "'w host_api \<Rightarrow> 'w sqlite_api \<Rightarrow> string \<Rightarrow> ('w recovering, dactyl_error, unit) io" where
  "reopen_connection H S path =
     io_bind (rec_gets rec_adapter) (\<lambda>a.
     io_bind (io_lift (lock_connection a)) (\<lambda>_.
     io_bind (on_rec (open_database S path (open_access_mode (adp_options a)))) (\<lambda>db.
     io_bind (rec_modify (set_database db)) (\<lambda>_.
     io_bind (io_result (on_rec (configure_connection S db (adp_options a)))) (\<lambda>configured.
       case configured of
         Inl error \<Rightarrow> io_bind (io_result (close_adapter S)) (\<lambda>_. io_fail error)
       | Inr _ \<Rightarrow>
           io_bind (on_rec (file_identity H path)) (\<lambda>identity.
             rec_modify (\<lambda>s. s\<lparr>rec_adapter := (rec_adapter s)\<lparr>adp_identity := identity\<rparr>\<rparr>)))))))"

section \<open>Moving the originals\<close>

text \<open>One move of an original file, recorded when it was verified.\<close>

definition move_original ::
  "'w host_api \<Rightarrow> string \<Rightarrow> string \<Rightarrow> identity \<Rightarrow> ('w recovering, dactyl_error, unit) io" where
  "move_original H from to i =
     io_bind (on_rec (move_noreplace H from to i)) (\<lambda>_.
       rec_modify (\<lambda>s. s\<lparr>rec_moved := rec_moved s @ [(from, to, i)]\<rparr>))"

definition move_sidecar ::
  "'w host_api \<Rightarrow> string \<Rightarrow> string \<Rightarrow> string \<Rightarrow> ('w recovering, dactyl_error, unit) io" where
  "move_sidecar H source archive suffix =
     io_bind (io_result (on_rec (call (lstat H (sidecar_path source suffix))))) (\<lambda>r.
       case r of
         Inl e \<Rightarrow>
           if io_kind e = NotFoundKind then io_return ()
           else io_fail (storage_io ''inspect original SQLite sidecar'' e)
       | Inr _ \<Rightarrow>
           io_bind (on_rec (regular H (sidecar_path source suffix))) (\<lambda>md.
             move_original H (sidecar_path source suffix) (sidecar_path archive suffix) (identity_of md)))"

definition absent_sidecars :: "'w host_api \<Rightarrow> string \<Rightarrow> ('w, dactyl_error, unit) io" where
  "absent_sidecars H path =
     io_bind (io_traverse (\<lambda>suffix. absent H (sidecar_path path suffix)) sidecars) (\<lambda>_. io_return ())"

definition preserve ::
  "'w host_api \<Rightarrow> string \<Rightarrow> string \<Rightarrow> identity \<Rightarrow> ('w recovering, dactyl_error, unit) io" where
  "preserve H source archive original =
     io_bind (on_rec (absent_sidecars H archive)) (\<lambda>_.
     io_bind (move_original H source archive original) (\<lambda>_.
     io_bind (io_traverse (move_sidecar H source archive) sidecars) (\<lambda>_.
     io_bind (on_rec (sync_database_files H archive True)) (\<lambda>_.
     io_bind (rec_gets rec_stage) (\<lambda>st. on_rec (stage_check H st))))))"

definition activate :: "'w host_api \<Rightarrow> string \<Rightarrow> ('w recovering, dactyl_error, unit) io" where
  "activate H source =
     io_bind (on_rec (absent_sidecars H source)) (\<lambda>_.
     io_bind (rec_gets rec_stage) (\<lambda>st.
       on_rec (move_noreplace H (rebuilt st) source (st_file_identity st))))"

definition sync_error :: "dactyl_error \<Rightarrow> dactyl_error" where
  "sync_error error = adapter_with_code Storage ''recovery_sync_failed''
     (Txt ''sync activated SQLite recovery: '' # display error)"

definition reopen_error :: "dactyl_error \<Rightarrow> dactyl_error" where
  "reopen_error error = adapter_with_code Unavailable ''recovery_reopen_failed''
     (Txt ''reopen recovered SQLite database: '' # display error)"

definition activation ::
  "'w host_api \<Rightarrow> 'w sqlite_api \<Rightarrow> string \<Rightarrow> ('w recovering, dactyl_error, unit) io" where
  "activation H S source =
     io_bind (rec_gets rec_stage) (\<lambda>st.
     io_bind (on_rec (io_map_err sync_error (stage_sync H st))) (\<lambda>_.
     io_bind (on_rec (identity_check H (st_file_identity st) source)) (\<lambda>_.
       io_map_err reopen_error (reopen_connection H S source))))"

section \<open>Rolling back\<close>

definition quarantine :: "'w host_api \<Rightarrow> string \<Rightarrow> ('w recovering, dactyl_error, unit) io" where
  "quarantine H source =
     io_bind (rec_modify (\<lambda>s. s\<lparr>rec_stage := (rec_stage s)\<lparr>st_retain := True\<rparr>\<rparr>)) (\<lambda>_.
     io_bind (rec_gets rec_stage) (\<lambda>st.
     io_bind (on_rec (stage_check H st)) (\<lambda>_.
     io_bind (on_rec (identity_check H (st_file_identity st) source)) (\<lambda>_.
     io_bind (on_rec (io_map_err (storage_io ''restrict failed recovery inode'')
       (call (set_mode H (st_file st) 0x180)))) (\<lambda>_.
     io_bind (on_rec (absent_sidecars H source)) (\<lambda>_.
     io_bind (on_rec (move_noreplace H source (path_join (st_path st) ''failed.db'') (st_file_identity st))) (\<lambda>_.
     io_bind (rec_modify (\<lambda>s. s\<lparr>rec_stage := (rec_stage s)\<lparr>st_quarantined := True\<rparr>\<rparr>)) (\<lambda>_.
     io_bind (on_rec (io_map_err (storage_io ''sync failed recovery inode'') (call (sync_all H (st_file st))))) (\<lambda>_.
       on_rec (stage_sync H st))))))))))"

text \<open>The loop over the moves, newest first.\<close>

fun move_back :: "'w host_api \<Rightarrow> dactyl_error \<Rightarrow> (string \<times> string \<times> identity) list \<Rightarrow> ('w, dactyl_error, unit) io" where
  "move_back H error [] = io_return ()"
| "move_back H error ((from, to, i) # moves) =
     io_bind (io_map_err (recovery_rollback_error error) (move_noreplace H to from i)) (\<lambda>_.
       move_back H error moves)"

definition rollback_original ::
  "'w host_api \<Rightarrow> 'w sqlite_api \<Rightarrow> dactyl_error \<Rightarrow> string \<Rightarrow> identity \<Rightarrow> ('w recovering, dactyl_error, 'a) io" where
  "rollback_original H S error source original =
     io_bind (rec_gets rec_moved) (\<lambda>moved.
     io_bind (on_rec (move_back H error (rev moved))) (\<lambda>_.
     io_bind (io_map_err (recovery_rollback_error error) (on_rec (identity_check H original source))) (\<lambda>_.
     io_bind (io_result (on_rec (sync_database_files H source True))) (\<lambda>sync.
     io_bind (io_result (reopen_connection H S source)) (\<lambda>reopen.
       case rbind sync (\<lambda>_. reopen) of
         Inl rollback \<Rightarrow> io_fail (recovery_rollback_error error rollback)
       | Inr _ \<Rightarrow> io_fail error)))))"

section \<open>Recovery\<close>

definition validate_recovery_paths :: "string \<Rightarrow> string \<Rightarrow> unit result" where
  "validate_recovery_paths source archive =
     (let parent_of = (\<lambda>p. case parent p of Some q \<Rightarrow> q | None \<Rightarrow> ''.'') in
      if \<not> path_eq (parent_of source) (parent_of archive) \<or> path_eq source archive \<or>
         list_ex (\<lambda>suffix. path_eq archive (sidecar_path source suffix) \<or>
           path_eq source (sidecar_path archive suffix)) sidecars
      then Inl (adapter_with_code InvalidOperation ''recovery_paths_must_share_parent''
        [Txt ''SQLite recovery archive must be a different path in the database directory''])
      else Inr ())"

text \<open>The checks before the stage exists; the metadata is that of the original.\<close>

definition inspect_sidecar :: "'w host_api \<Rightarrow> string \<Rightarrow> string \<Rightarrow> string \<Rightarrow> ('w, dactyl_error, unit) io" where
  "inspect_sidecar H source archive suffix =
     io_bind (absent H (sidecar_path archive suffix)) (\<lambda>_.
     io_bind (io_result (call (lstat H (sidecar_path source suffix)))) (\<lambda>r.
       if isl r then io_return ()
       else io_bind (regular H (sidecar_path source suffix)) (\<lambda>_. io_return ())))"

definition inspect_original ::
  "'w host_api \<Rightarrow> sqlite_adapter \<Rightarrow> string \<Rightarrow> string \<Rightarrow> ('w, dactyl_error, metadata) io" where
  "inspect_original H a source archive =
     io_bind (io_lift (validate_recovery_paths source archive)) (\<lambda>_.
     io_bind (regular H source) (\<lambda>md.
     if md_mode md AND 0xE49 \<noteq> 0 then io_fail (conflict ''unsafe_recovery_mode'' source)
     else
       io_bind (reject_extended_metadata H source False) (\<lambda>_.
       io_bind (reject_extended_metadata H (parent_or_dot source) True) (\<lambda>_.
       if adp_identity a \<noteq> Some (identity_of md) then io_fail (conflict ''recovery_path_changed'' source)
       else
         io_bind (absent H archive) (\<lambda>_.
         io_bind (io_traverse (inspect_sidecar H source archive) sidecars) (\<lambda>_. io_return md))))))"

text \<open>\<open>BEGIN EXCLUSIVE\<close>, the rebuild, and the rollback of the snapshot whatever came of it.\<close>

definition rebuild_snapshot ::
  "'w sqlite_api \<Rightarrow> 'n json_api \<Rightarrow> nat \<Rightarrow> string \<Rightarrow> nat \<Rightarrow> ('w, dactyl_error, rebuild_result) io" where
  "rebuild_snapshot S J db temporary lock =
     io_bind (run_sql S db ''begin SQLite recovery'' ''BEGIN EXCLUSIVE'') (\<lambda>_.
     io_bind (io_result (rebuild_database S J db temporary lock)) (\<lambda>rebuild.
     io_bind (io_result (run_sql S db ''rollback SQLite recovery snapshot'' ''ROLLBACK'')) (\<lambda>rollback.
       case rebuild of
         Inr value \<Rightarrow>
           (case rollback of
              Inr _ \<Rightarrow> io_return value
            | Inl error \<Rightarrow> io_fail (recovery_rollback_error error
                (adapter Storage [Txt ''source snapshot rollback failed''])))
       | Inl error \<Rightarrow>
           (case rollback of
              Inr _ \<Rightarrow> io_fail error
            | Inl r \<Rightarrow> io_fail (recovery_rollback_error error r)))))"

definition verify_staged ::
  "'w host_api \<Rightarrow> metadata \<Rightarrow> string \<Rightarrow> stage \<Rightarrow> ('w, dactyl_error, unit) io" where
  "verify_staged H md source st =
     io_bind (stage_check H st) (\<lambda>_.
     io_bind (identity_check H (identity_of md) source) (\<lambda>_.
     io_bind (apply_mode H st md) (\<lambda>_.
     io_bind (sync_database_files H (rebuilt st) False) (\<lambda>_.
     io_bind (stage_check H st) (\<lambda>_. identity_check H (identity_of md) source)))))"

definition retained_error :: "stage \<Rightarrow> dactyl_error \<Rightarrow> dactyl_error" where
  "retained_error st error =
     adapter_with_code
       (case adapter_kind error of Some k \<Rightarrow> k | None \<Rightarrow> Storage)
       (case adapter_code error of Some c \<Rightarrow> c | None \<Rightarrow> ''recovery_failed'')
       (display error @ [Txt ''; recovery diagnostics retained in '', Txt (st_path st)])"

definition fail_activation ::
  "'w host_api \<Rightarrow> 'w sqlite_api \<Rightarrow> dactyl_error \<Rightarrow> string \<Rightarrow> identity \<Rightarrow> ('w recovering, dactyl_error, 'a) io" where
  "fail_activation H S error source original =
     io_bind (rec_gets (\<lambda>s. retained_error (rec_stage s) error)) (\<lambda>error.
     io_bind (rec_gets rec_adapter) (\<lambda>a.
     io_bind (if adp_poisoned a then io_return () else io_bind (io_result (close_adapter S)) (\<lambda>_. io_return ())) (\<lambda>_.
     io_bind (io_result (quarantine H source)) (\<lambda>q.
       case q of
         Inr _ \<Rightarrow> rollback_original H S error source original
       | Inl rollback \<Rightarrow>
           io_bind (rec_gets (\<lambda>s. st_quarantined (rec_stage s))) (\<lambda>quarantined.
             if quarantined then rollback_original H S (recovery_rollback_error error rollback) source original
             else io_fail (recovery_rollback_error error rollback))))))"

text \<open>From the existing stage on; the caller drops the stage on every way out.\<close>

definition recover_staged ::
  "'w host_api \<Rightarrow> 'w sqlite_api \<Rightarrow> 'n json_api \<Rightarrow> metadata \<Rightarrow> string \<Rightarrow> string \<Rightarrow>
     ('w recovering, dactyl_error, recovery_result) io" where
  "recover_staged H S J md source archive =
     io_bind (rec_gets rec_adapter) (\<lambda>a.
     io_bind (rec_gets rec_stage) (\<lambda>st.
     io_bind (io_lift (lock_connection a)) (\<lambda>db.
     io_bind (on_rec (rebuild_snapshot S J db (rebuilt st) (lock_timeout (adp_options a)))) (\<lambda>rebuild.
     io_bind (on_rec (verify_staged H md source st)) (\<lambda>_.
     io_bind (close_adapter S) (\<lambda>_.
     io_bind (io_result (preserve H source archive (identity_of md))) (\<lambda>preserved.
     case preserved of
       Inl error \<Rightarrow> rollback_original H S error source (identity_of md)
     | Inr _ \<Rightarrow>
         io_bind (io_result (activate H source)) (\<lambda>activated.
         case activated of
           Inl error \<Rightarrow> rollback_original H S error source (identity_of md)
         | Inr _ \<Rightarrow>
             io_bind (io_result (activation H S source)) (\<lambda>reopened.
             case reopened of
               Inl error \<Rightarrow> fail_activation H S error source (identity_of md)
             | Inr _ \<Rightarrow> io_return
                 \<lparr>active_path = source, preserved_original_path = archive, result_journal_mode = Delete,
                  result_user_version = rebuilt_user_version rebuild,
                  result_application_id = rebuilt_application_id rebuild\<rparr>)))))))))"

text \<open>
  \<open>recover\<close> with the adapter it leaves. The bound of \<open>Drop\<close> is the last step: the stage is
  dropped after the result is known.
\<close>

definition recover ::
  "'w host_api \<Rightarrow> 'w sqlite_api \<Rightarrow> 'n json_api \<Rightarrow> sqlite_adapter \<Rightarrow> recovery_options \<Rightarrow> 'w \<Rightarrow>
     ((recovery_result result \<times> sqlite_adapter) \<times> 'w) option" where
  "recover H S J a options w =
     (let source = adp_path a; archive = preserve_original_at options in
      if source = memory_path
      then Some ((Inl (adapter_with_code Capability ''unsupported_memory_recovery''
        [Txt ''SQLite dump-reload recovery requires a file-backed database'']), a), w)
      else case io_bind (inspect_original H a source archive) (\<lambda>md.
               io_bind (stage_create H source md) (\<lambda>st. io_return (md, st))) w of
        None \<Rightarrow> None
      | Some (Inl e, w1) \<Rightarrow> Some ((Inl e, a), w1)
      | Some (Inr (md, st), w1) \<Rightarrow>
          (case recover_staged H S J md source archive
                  \<lparr>rec_world = w1, rec_adapter = a, rec_stage = st, rec_moved = []\<rparr> of
             None \<Rightarrow> None
           | Some (r, s) \<Rightarrow>
               (case (stage_drop H (rec_stage s) :: ('w, dactyl_error, unit) io) (rec_world s) of
                  None \<Rightarrow> None
                | Some (_, w2) \<Rightarrow> Some ((r, rec_adapter s), w2))))"

section \<open>The entry of the adapter\<close>

text \<open>\<open>secure\<close>: the build target is Linux or Android.\<close>

definition recover_database ::
  "bool \<Rightarrow> 'w host_api \<Rightarrow> 'w sqlite_api \<Rightarrow> 'n json_api \<Rightarrow> sqlite_adapter \<Rightarrow> recovery_options \<Rightarrow> 'w \<Rightarrow>
     ((recovery_result result \<times> sqlite_adapter) \<times> 'w) option" where
  "recover_database secure H S J a options w =
     (if secure then recover H S J a options w
      else Some ((Inl (adapter_with_code Capability ''secure_recovery_unsupported''
        [Txt ''secure SQLite recovery requires Unix permissions and atomic no-replace rename support'']), a), w))"

definition sqlite_recover ::
  "bool \<Rightarrow> 'w host_api \<Rightarrow> 'w sqlite_api \<Rightarrow> 'n json_api \<Rightarrow> sqlite_adapter \<Rightarrow> recovery_options \<Rightarrow> 'w process \<Rightarrow>
     ((recovery_result result \<times> sqlite_adapter) \<times> 'w process) option" where
  "sqlite_recover secure H S J a options s =
     (if open_access_mode (adp_options a) = ReadOnly
      then Some ((Inl (adapter_with_code ReadOnlyKind ''read_only''
        [Txt ''SQLite recovery requires a read-write connection'']), a), s)
      else case has_other_connection H (adp_path a) s of
        None \<Rightarrow> None
      | Some (Inl e, s1) \<Rightarrow> Some ((Inl e, a), s1)
      | Some (Inr other, s1) \<Rightarrow>
          if other
          then Some ((Inl (adapter_with_code Conflict ''open_connections''
            [Txt ''SQLite recovery requires all other Dactyl connections to be closed'']), a), s1)
          else if recovery_mode options \<noteq> Delete
          then Some ((Inl (adapter_with_code Capability ''unsupported_recovery_journal_mode''
            [Txt ''logical recovery currently activates DELETE journal mode only'']), a), s1)
          else (case recover_database secure H S J a options (proc_world s1) of
                  None \<Rightarrow> None
                | Some (x, w) \<Rightarrow> Some (x, s1\<lparr>proc_world := w\<rparr>)))"

end
