(* ===== verification/Sqlite_Keeps.thy ===== *)
theory Sqlite_Keeps
  imports Recovery_Rebuild
begin

text \<open>
  Invariants of the world under whole SQLite operations: a predicate that every single call of
  the SQLite interface leaves true survives queries, writes, opening, closing, the integrity
  check and the rebuild, whatever they return.
\<close>

definition sqlite_keeps :: "('w \<Rightarrow> bool) \<Rightarrow> 'w sqlite_api \<Rightarrow> bool" where
  "sqlite_keeps P S \<longleftrightarrow>
     (\<forall>p f. call_keeps P (open_v2 S p f)) \<and> (\<forall>db. call_keeps P (close_db S db)) \<and>
     (\<forall>db ms. call_keeps P (busy_timeout S db ms)) \<and> (\<forall>db sql. call_keeps P (exec S db sql)) \<and>
     (\<forall>db sql. call_keeps P (prepare_v2 S db sql)) \<and> (\<forall>st. call_keeps P (finalize S st)) \<and>
     (\<forall>st i. call_keeps P (bind_null S st i)) \<and> (\<forall>st i v. call_keeps P (bind_int64 S st i v)) \<and>
     (\<forall>st i v. call_keeps P (bind_double S st i v)) \<and> (\<forall>st i v. call_keeps P (bind_text S st i v)) \<and>
     (\<forall>st i v. call_keeps P (bind_blob S st i v)) \<and> (\<forall>st. call_keeps P (step S st)) \<and>
     (\<forall>d s1 s s2. call_keeps P (backup_init S d s1 s s2)) \<and> (\<forall>b n. call_keeps P (backup_step S b n)) \<and>
     (\<forall>b. call_keeps P (backup_finish S b))"

lemma call_keepsD: "call_keeps P m \<Longrightarrow> P w \<Longrightarrow> m w = (r, w1) \<Longrightarrow> P w1"
  by (metis call_keeps_def snd_conv)

lemma call_keeps_snd: "call_keeps P m \<Longrightarrow> P w \<Longrightarrow> P (snd (m w))"
  by (simp add: call_keeps_def)

lemma sqlite_keepsD:
  assumes "sqlite_keeps P S"
  shows "call_keeps P (open_v2 S p f)" "call_keeps P (close_db S db)" "call_keeps P (busy_timeout S db ms)"
    "call_keeps P (exec S db sql)" "call_keeps P (prepare_v2 S db sql)" "call_keeps P (finalize S st)"
    "call_keeps P (bind_null S st i)" "call_keeps P (bind_int64 S st i v)" "call_keeps P (bind_double S st i v)"
    "call_keeps P (bind_text S st i t)" "call_keeps P (bind_blob S st i b)" "call_keeps P (step S st)"
  using assms by (simp_all add: sqlite_keeps_def)

text \<open>
  The calls that neither open nor close: statements, \<open>exec\<close> and the busy timeout. What holds may
  depend on an index, which a statement changes while it lives: preparing it leads from \<open>i\<close> to some
  \<open>j\<close>, and finalizing it leads back from \<open>j\<close> to \<open>i\<close>. An account of the open statements is such an
  index; a plain invariant has none.
\<close>

definition statements_keep :: "('i \<Rightarrow> 'w \<Rightarrow> bool) \<Rightarrow> 'w sqlite_api \<Rightarrow> bool" where
  "statements_keep P S \<longleftrightarrow>
     (\<forall>i db sql w code st w1. P i w \<longrightarrow> prepare_v2 S db sql w = ((code, st), w1) \<longrightarrow>
        (if code = SQLITE_OK \<and> st \<noteq> 0 then \<exists>j. P j w1 \<and> (\<forall>v. P j v \<longrightarrow> P i (snd (finalize S st v)))
         else P i w1)) \<and>
     (\<forall>i st k p w code w1. P i w \<longrightarrow> bind_one S st k p w = Inr (code, w1) \<longrightarrow> P i w1) \<and>
     (\<forall>i st. call_keeps (P i) (step S st)) \<and> (\<forall>i db sql. call_keeps (P i) (exec S db sql)) \<and>
     (\<forall>i db ms. call_keeps (P i) (busy_timeout S db ms))"

lemma statements_keepD:
  assumes "statements_keep P S"
  shows "P i w \<Longrightarrow> prepare_v2 S db sql w = ((SQLITE_OK, st), w1) \<Longrightarrow> st \<noteq> 0 \<Longrightarrow>
      \<exists>j. P j w1 \<and> (\<forall>v. P j v \<longrightarrow> P i (snd (finalize S st v)))"
    and "P i w \<Longrightarrow> prepare_v2 S db sql w = ((code, st), w1) \<Longrightarrow> code \<noteq> SQLITE_OK \<or> st = 0 \<Longrightarrow> P i w1"
    and "P i w \<Longrightarrow> bind_one S st k p w = Inr (code, w1) \<Longrightarrow> P i w1"
    and "call_keeps (P i) (step S st)" "call_keeps (P i) (exec S db sql)" "call_keeps (P i) (busy_timeout S db ms)"
proof -
  note laws = assms [unfolded statements_keep_def]
  have prep: "if code = SQLITE_OK \<and> st \<noteq> 0 then \<exists>j. P j w1 \<and> (\<forall>v. P j v \<longrightarrow> P i (snd (finalize S st v))) else P i w1"
    if "P i w" "prepare_v2 S db sql w = ((code, st), w1)" for code
    using laws [THEN conjunct1, rule_format, OF that] .
  show "P i w \<Longrightarrow> prepare_v2 S db sql w = ((SQLITE_OK, st), w1) \<Longrightarrow> st \<noteq> 0 \<Longrightarrow>
      \<exists>j. P j w1 \<and> (\<forall>v. P j v \<longrightarrow> P i (snd (finalize S st v)))"
    using prep [of SQLITE_OK] by simp
  show "P i w \<Longrightarrow> prepare_v2 S db sql w = ((code, st), w1) \<Longrightarrow> code \<noteq> SQLITE_OK \<or> st = 0 \<Longrightarrow> P i w1"
    using prep [of code] by (auto split: if_splits)
  show "P i w \<Longrightarrow> bind_one S st k p w = Inr (code, w1) \<Longrightarrow> P i w1" using laws by blast
qed (use assms in \<open>simp_all add: statements_keep_def\<close>)

lemma sqlite_keeps_statements:
  assumes "sqlite_keeps P S"
  shows "statements_keep (\<lambda>_. P) S"
proof -
  note k = sqlite_keepsD [OF assms]
  have bind: "P w1" if "P w" "bind_one S st i p w = Inr (code, w1)" for st i p w code w1
    using that by (cases p) (auto simp: bind_one_def split: if_splits dest: k(7-11) [THEN call_keepsD])
  have prepare: "P w1" if "P w" "prepare_v2 S db sql w = ((code, st), w1)" for db sql w code st w1
    using call_keepsD [OF k(5) that] .
  show ?thesis
    unfolding statements_keep_def if_cancel
    by (intro conjI allI impI k) (auto intro: call_keeps_snd [OF k(6)] prepare bind)
qed

text \<open>The account of the handles is such an index: a statement is in it while it lives.\<close>

lemma handles_statements:
  assumes "handle_laws S handles" and "statement_handle_laws S handles"
  shows "statements_keep (\<lambda>hs w. handles w = hs) S"
proof -
  note laws = assms(2) [unfolded statement_handle_laws_def]
  have "\<exists>j. handles w1 = j \<and> (\<forall>v. handles v = j \<longrightarrow> handles (snd (finalize S st v)) = handles w)"
    if "prepare_v2 S db sql w = ((SQLITE_OK, st), w1)" "st \<noteq> 0" for db sql w st w1
  proof -
    from laws that have "\<forall>d. Statement st d \<notin> handles w" "handles w1 = insert (Statement st db) (handles w)"
      by (metis (no_types, lifting))+
    moreover have "handles (snd (finalize S st v)) = handles v - {Statement st d | d. True}" for v
      using laws by blast
    ultimately show ?thesis by auto
  qed
  moreover have "handles w1 = handles w"
    if "prepare_v2 S db sql w = ((code, st), w1)" "\<not> (code = SQLITE_OK \<and> st \<noteq> 0)" for db sql w code st w1
    using laws that by (metis (no_types, lifting))
  moreover have "handles w1 = handles w" if "bind_one S st k p w = Inr (code, w1)" for st k p w code w1
    using laws that by blast
  ultimately show ?thesis
    using laws handles_exec [OF assms(1)] handles_busy [OF assms(1)]
    unfolding statements_keep_def call_keeps_def by auto
qed

text \<open>A body that keeps what holds at every index keeps it from preparing to finalizing.\<close>

lemma keeps_with_statement:
  assumes "statements_keep P S" and "\<And>st j. keeps (P j) (body st)"
  shows "keeps (P i) (with_statement S db sql body)"
proof (rule keepsI)
  fix w r w'
  assume w: "P i w" and run: "with_statement S db sql body w = Some (r, w')"
  note laws = statements_keepD [OF assms(1)]
  from run consider (fail) e where "prepare S db sql w = Some (Inl e, w')"
    | (body) st w1 w2 where "prepare S db sql w = Some (Inr st, w1)" "body st w1 = Some (r, w2)"
        "w' = snd (finalize S st w2)"
    by (auto simp: with_statement_Some_iff)
  then show "P i w'"
  proof cases
    case fail
    obtain code st w1 where p: "prepare_v2 S db sql w = ((code, st), w1)" by (metis surj_pair)
    show ?thesis
    proof (cases "has_nul sql")
      case True
      with fail w show ?thesis by (simp add: prepare_def)
    next
      case False
      with fail p have "w' = w1" "code \<noteq> SQLITE_OK \<or> st = 0" by (auto simp: prepare_def split: if_splits)
      with laws(2) [OF w p] show ?thesis by simp
    qed
  next
    case body
    then have "prepare_v2 S db sql w = ((SQLITE_OK, st), w1)" "st \<noteq> 0"
      by (auto simp: prepare_def split: prod.splits if_splits)
    from laws(1) [OF w this] obtain j where j: "P j w1" "\<forall>v. P j v \<longrightarrow> P i (snd (finalize S st v))" by blast
    with keepsD [OF assms(2) j(1) body(2)] body(3) show ?thesis by blast
  qed
qed

lemma keeps_bind_all:
  assumes "statements_keep P S"
  shows "keeps (P i) (bind_all S db st params)"
proof -
  have "keeps (P i) (bind_from S db st k params)" for k
  proof (induction params arbitrary: k)
    case Nil
    show ?case by (simp add: keeps_def)
  next
    case (Cons p ps)
    have "P i w1" if "P i w" "bind_one S st k p w = Inr (code, w1)" for w code w1
      using statements_keepD(3) [OF assms that] .
    then show ?case
      by (intro keepsI) (fastforce split: if_splits sum.splits dest: keepsD [OF Cons])
  qed
  then show ?thesis by (simp add: bind_all_def)
qed

lemma keeps_step_to_done:
  fixes S :: "'w sqlite_api"
  assumes "call_keeps P (step S st)"
  shows "keeps P (step_to_done S db st)"
proof (rule keepsI)
  let ?G = "\<lambda>(y :: unit result \<times> 'w). P (snd y)"
  fix w r w'
  assume w: "P w" and run: "step_to_done S db st w = Some (r, w')"
  have "S = S \<longrightarrow> st = st \<longrightarrow> P w \<longrightarrow> ?G (r, w')"
  proof (rule step_to_done.raw_induct [where
        P = "\<lambda>S' db st' w y. S' = S \<longrightarrow> st' = st \<longrightarrow> P w \<longrightarrow> ?G y", OF _ run], intro impI)
    fix f and S' :: "'w sqlite_api" and db st' w y
    assume IH: "\<And>S' db st' w y. f S' db st' w = Some y \<Longrightarrow> S' = S \<longrightarrow> st' = st \<longrightarrow> P w \<longrightarrow> ?G y"
      and eq: "(case step S' st' w of (code, w1) \<Rightarrow>
        if code = SQLITE_ROW then f S' db st' w1
        else if code = SQLITE_DONE then Some (Inr (), w1)
        else Some (Inl (conn_error S' db ''step SQLite statement'' code w1), w1)) = Some y"
      and same: "S' = S" "st' = st" and Pw: "P w"
    obtain code w1 where s: "step S st w = (code, w1)" by (cases "step S st w")
    have "P w1" by (rule call_keepsD [OF assms Pw s])
    with eq same s IH [of S db st w1 y] show "P (snd y)" by (auto split: if_splits)
  qed
  with w show "P w'" by simp
qed

lemma keeps_fetch_rows:
  fixes S :: "'w sqlite_api" and J :: "'n json_api"
  assumes "call_keeps P (step S st)"
  shows "keeps P (fetch_rows S J db st cols n acc)"
proof (rule keepsI)
  let ?G = "\<lambda>(y :: 'n rows result \<times> 'w). P (snd y)"
  fix w r w'
  assume w: "P w" and run: "fetch_rows S J db st cols n acc w = Some (r, w')"
  have "S = S \<longrightarrow> st = st \<longrightarrow> P w \<longrightarrow> ?G (r, w')"
  proof (rule fetch_rows.raw_induct [where
        P = "\<lambda>S' J db st' cols n acc w y. S' = S \<longrightarrow> st' = st \<longrightarrow> P w \<longrightarrow> ?G y", OF _ run], intro impI)
    fix f and S' :: "'w sqlite_api" and J :: "'n json_api" and db st' cols n acc w y
    assume IH: "\<And>S' J db st' cols n acc w y. f S' J db st' cols n acc w = Some y \<Longrightarrow>
          S' = S \<longrightarrow> st' = st \<longrightarrow> P w \<longrightarrow> ?G y"
      and eq: "(case step S' st' w of (code, w1) \<Rightarrow>
        if code = SQLITE_ROW then
          (case partial_traverse (column_value S' J st' w1) (column_indices n) of
             None \<Rightarrow> None
           | Some (Inl e) \<Rightarrow> Some (Inl e, w1)
           | Some (Inr vs) \<Rightarrow> f S' J db st' cols n (acc @ [\<lparr>row_columns = cols, row_values = vs\<rparr>]) w1)
        else if code = SQLITE_DONE then Some (Inr acc, w1)
        else Some (Inl (conn_error S' db ''step SQLite statement'' code w1), w1)) = Some y"
      and same: "S' = S" "st' = st" and Pw: "P w"
    obtain code w1 where s: "step S st w = (code, w1)" by (cases "step S st w")
    have P1: "P w1" by (rule call_keepsD [OF assms Pw s])
    from eq same s consider "snd y = w1" | vs where "f S J db st cols n (acc @ [\<lparr>row_columns = cols, row_values = vs\<rparr>]) w1 = Some y"
      by (auto split: if_splits option.splits sum.splits)
    then show "P (snd y)" using P1 IH by cases auto
  qed
  with w show "P w'" by simp
qed

lemma keeps_queries:
  assumes "statements_keep P S"
  shows keeps_query_rows: "keeps (P i) (query_rows S J db sql params)"
    and keeps_execute_write: "keeps (P i) (execute_write S db sql params)"
proof -
  note step = statements_keepD(4) [OF assms]
  have fetch: "keeps (P j) (\<lambda>w. let n = column_count S st w in
      case traverse (stmt_column_name S st w) (column_indices n) of
        Inl e \<Rightarrow> Some (Inl e, w)
      | Inr cols \<Rightarrow> fetch_rows S J db st cols n [] w)" for st j
    by (rule keepsI) (auto simp: Let_def split: sum.splits dest: keepsD [OF keeps_fetch_rows [OF step]])
  show "keeps (P i) (query_rows S J db sql params)"
    unfolding query_rows_def by (intro keeps_with_statement [OF assms] keeps_bind keeps_bind_all [OF assms] fetch)
  have keys: "keeps (P j) (\<lambda>w. Some (Inr \<lparr>affected_rows = u64_or_default (changes64 S db w),
      generated_keys = write_keys S db sql w\<rparr> :: write_result result, w))" for j
    by (rule keepsI) simp
  show "keeps (P i) (execute_write S db sql params)"
    unfolding execute_write_def
    by (intro keeps_with_statement [OF assms] keeps_bind keeps_bind_all [OF assms] keeps_step_to_done step keys)
qed

lemma keeps_exec_sql:
  assumes "statements_keep P S"
  shows "keeps (P i) (exec_sql S db sql)"
  using statements_keepD(5) [OF assms, of i db sql]
  by (auto simp: keeps_def exec_sql_def split: prod.splits if_splits dest: call_keepsD)

lemma keeps_calls:
  assumes "sqlite_keeps P S"
  shows keeps_open_database: "keeps P (open_database S path mode)"
    and keeps_close: "P w \<Longrightarrow> close_connection S db w = (r, w1) \<Longrightarrow> P w1"
    and keeps_drop: "P w \<Longrightarrow> P (drop_connection S db w)"
proof -
  note close = sqlite_keepsD(2) [OF assms]
  show "keeps P (open_database S path mode)"
  proof -
    have "call_keeps P (open_v2 S path f)" for f by (rule sqlite_keepsD [OF assms])
    then show ?thesis
      by (auto simp: keeps_def open_database_def split: prod.splits if_splits
          dest: call_keepsD call_keeps_snd [OF close])
  qed
  show "P w \<Longrightarrow> close_connection S db w = (r, w1) \<Longrightarrow> P w1"
    by (auto simp: close_connection_def split: prod.splits if_splits dest: call_keepsD [OF close])
  show "P w \<Longrightarrow> P (drop_connection S db w)"
    by (simp add: drop_connection_def call_keeps_snd [OF close])
qed

lemma keeps_configure:
  assumes "statements_keep P S"
  shows "keeps (P i) (configure_connection S db options)"
proof -
  note t = statements_keepD(6) [OF assms]
  have e: "keeps (P i) (io_map_err g (exec_sql S db sql))" for g :: "sqlite_failure \<Rightarrow> dactyl_error" and sql
    by (intro keeps_intros keeps_exec_sql [OF assms])
  show ?thesis
    by (auto simp: keeps_def configure_connection_def split: prod.splits if_splits
        dest: call_keepsD [OF t] keepsD [OF e])
qed

lemma keeps_close_or_drop:
  assumes "sqlite_keeps P S"
  shows "keeps P (close_or_drop S db)"
  by (auto simp: keeps_def close_or_drop_def split: prod.splits sum.splits
      dest: keeps_close [OF assms] intro: keeps_drop [OF assms])

lemma keeps_run_sql:
  assumes "statements_keep P S"
  shows "keeps (P i) (run_sql S db operation sql)"
  unfolding run_sql_def by (intro keeps_intros keeps_exec_sql [OF assms])

lemma keeps_catalog:
  assumes "statements_keep P S"
  shows keeps_pragma_text: "keeps (P i) (pragma_text S J db name)"
    and keeps_pragma_integer: "keeps (P i) (pragma_integer S J db name)"
    and keeps_verify_integrity: "keeps (P i) (verify_integrity S J db)"
proof -
  note q = keeps_query_rows [OF assms]
  show t: "keeps (P i) (pragma_text S J db name)" for name
    unfolding pragma_text_def by (intro keeps_intros q)
  show n: "keeps (P i) (pragma_integer S J db name)" for name
    unfolding pragma_integer_def by (intro keeps_intros q)
  show "keeps (P i) (verify_integrity S J db)"
    unfolding verify_integrity_def by (intro keeps_intros q t n)
qed

lemma keeps_copy_rows:
  fixes S :: "'w sqlite_api" and J :: "'n json_api"
  assumes "statements_keep P S"
  shows "keeps (P i) (copy_rows S J source dest st sql n)"
proof (rule keepsI)
  let ?G = "\<lambda>(y :: unit result \<times> 'w). P i (snd y)"
  note s = statements_keepD(4) [OF assms, of i st for st]
  fix w r w'
  assume w: "P i w" and run: "copy_rows S J source dest st sql n w = Some (r, w')"
  have "S = S \<longrightarrow> P i w \<longrightarrow> ?G (r, w')"
  proof (rule copy_rows.raw_induct [where
        P = "\<lambda>S' J source dest st sql n w y. S' = S \<longrightarrow> P i w \<longrightarrow> ?G y", OF _ run], intro impI)
    fix f and S' :: "'w sqlite_api" and J :: "'n json_api" and source dest st sql n w y
    assume IH: "\<And>S' J source dest st sql n w y. f S' J source dest st sql n w = Some y \<Longrightarrow>
          S' = S \<longrightarrow> P i w \<longrightarrow> ?G y"
      and eq: "(case step S' st w of (code, w1) \<Rightarrow>
        if code = SQLITE_ROW then
          (case partial_traverse (copied_parameter S' J st w1) [0..<n] of
             None \<Rightarrow> None
           | Some (Inl e) \<Rightarrow> Some (Inl e, w1)
           | Some (Inr params) \<Rightarrow>
               (case execute_write S' dest sql params w1 of
                  None \<Rightarrow> None
                | Some (Inl e, w2) \<Rightarrow> Some (Inl e, w2)
                | Some (Inr _, w2) \<Rightarrow> f S' J source dest st sql n w2))
        else if code = SQLITE_DONE then Some (Inr (), w1)
        else Some (Inl (conn_error S' source ''step SQLite statement'' code w1), w1)) = Some y"
      and same: "S' = S" and Pw: "P i w"
    obtain code w1 where st: "step S st w = (code, w1)" by (cases "step S st w")
    with call_keepsD [OF s Pw] have P1: "P i w1" by blast
    consider "snd y = w1" | params e w2 where "execute_write S dest sql params w1 = Some (e, w2)" "snd y = w2"
      | params x w2 where "execute_write S dest sql params w1 = Some (Inr x, w2)"
          "f S J source dest st sql n w2 = Some y"
      using eq st same by (fastforce split: if_splits option.splits sum.splits prod.splits)
    then show "P i (snd y)"
    proof cases
      case 1
      with P1 show ?thesis by simp
    next
      case 2
      with keepsD [OF keeps_execute_write [OF assms] P1] show ?thesis by blast
    next
      case 3
      with keepsD [OF keeps_execute_write [OF assms] P1] have "P i w2" by blast
      with IH [OF 3(2)] show ?thesis by simp
    qed
  qed
  with w show "P i w'" by simp
qed

lemma keeps_rebuild_into:
  assumes "statements_keep P S"
  shows "keeps (P i) (rebuild_into S J source dest lock)"
proof -
  note k = keeps_query_rows [OF assms] keeps_run_sql [OF assms] keeps_configure [OF assms]
    keeps_pragma_integer [OF assms] keeps_verify_integrity [OF assms]
  have parts: "keeps (P i) (schema_objects S J source)" "keeps (P i) (has_sqlite_sequence S J source)"
    unfolding schema_objects_def has_sqlite_sequence_def by (intro keeps_intros k)+
  have "keeps (P i) (create_table_of S dest object)" for object
    unfolding create_table_of_def by (intro keeps_intros k)
  moreover have "keeps (P i) (copy_table_rows S J source dest table)" for table
    unfolding copy_table_rows_def table_columns_of_def
    by (intro keeps_intros k keeps_with_statement [OF assms] keeps_copy_rows [OF assms])
  ultimately show ?thesis
    unfolding rebuild_into_def by (intro keeps_intros k parts(1,2))
qed

lemma keeps_rebuild_database:
  assumes "sqlite_keeps P S"
  shows "keeps P (rebuild_database S J source temporary lock)"
  unfolding rebuild_database_def
  by (intro keeps_intros keeps_open_database [OF assms] keeps_close_or_drop [OF assms]
      keeps_rebuild_into [where P = "\<lambda>_. P", OF sqlite_keeps_statements [OF assms]])

end
