(* ===== verification/Path_Names.thy ===== *)
theory Path_Names
  imports Paths
begin

text \<open>
  Paths that end in a name, and what appending a suffix, joining and taking the parent do to
  their components.
\<close>

definition last_piece :: "string \<Rightarrow> string" where
  "last_piece p = snd (last (path_pieces 0 [] p))"

text \<open>The path ends in a name: not in a separator, \<open>.\<close> or \<open>..\<close>.\<close>

definition ends_in_name :: "string \<Rightarrow> bool" where
  "ends_in_name p \<longleftrightarrow> last_piece p \<notin> {[], ''.'', ''..''}"

lemma path_pieces_nonempty [simp]: "path_pieces pos acc s \<noteq> []"
  by (induction pos acc s rule: path_pieces.induct) auto

lemma path_pieces_no_slash:
  "(e, piece) \<in> set (path_pieces pos acc s) \<Longrightarrow> slash \<notin> set acc \<Longrightarrow> slash \<notin> set piece"
  by (induction pos acc s rule: path_pieces.induct) (auto split: if_splits)

lemma last_piece_no_slash: "slash \<notin> set (last_piece p)"
  using path_pieces_no_slash [of "fst (last (path_pieces 0 [] p))" "last_piece p" 0 "[]" p]
  by (simp add: last_piece_def)

lemma path_pieces_join:
  "path_pieces pos acc (s @ slash # t) = path_pieces pos acc s @ path_pieces (pos + length s + 1) [] t"
  by (induction pos acc s rule: path_pieces.induct) (auto simp: add.commute)

lemma path_pieces_plain: "slash \<notin> set t \<Longrightarrow> path_pieces pos acc t = [(pos + length t, acc @ t)]"
  by (induction pos acc t rule: path_pieces.induct) auto

lemma last_piece_join:
  assumes "slash \<notin> set t"
  shows "last_piece (s @ slash # t) = t" "last_piece t = t"
  using assms by (simp_all add: last_piece_def path_pieces_join path_pieces_plain)

lemma last_piece_append:
  assumes "slash \<notin> set t"
  shows "last_piece (p @ t) = last_piece p @ t"
  using path_pieces_append [OF assms, of 0 "[]" p] by (auto simp: last_piece_def)

text \<open>The components of a path that ends in a name: those before it, then the name.\<close>

lemma components_name:
  assumes "ends_in_name p"
  shows "components p =
    (if starts_with p [slash] then [[slash]] else if starts_with p ''./'' then [''.''] else []) @
    filter (\<lambda>piece. piece \<noteq> [] \<and> piece \<noteq> ''.'') (map snd (butlast (path_pieces 0 [] p))) @ [last_piece p]"
proof -
  let ?ps = "path_pieces 0 [] p"
  have split: "?ps = butlast ?ps @ [(fst (last ?ps), last_piece p)]"
    by (simp add: last_piece_def)
  have "p \<noteq> ''.''" using assms by (auto simp: ends_in_name_def last_piece_def)
  moreover have "filter (\<lambda>(pos, piece). piece \<noteq> [] \<and> piece \<noteq> ''.'') ?ps =
      filter (\<lambda>(pos, piece). piece \<noteq> [] \<and> piece \<noteq> ''.'') (butlast ?ps) @ [(fst (last ?ps), last_piece p)]"
    using assms by (subst split) (simp add: ends_in_name_def)
  moreover have "map snd (filter (\<lambda>(pos, piece). piece \<noteq> [] \<and> piece \<noteq> ''.'') xs) =
      filter (\<lambda>piece. piece \<noteq> [] \<and> piece \<noteq> ''.'') (map snd xs)" for xs :: "(nat \<times> string) list"
    by (induction xs) auto
  ultimately show ?thesis by (simp add: components_def path_spans_def)
qed

lemma components_last:
  assumes "ends_in_name p"
  shows "components p \<noteq> []" "last (components p) = last_piece p"
  by (simp_all add: components_name [OF assms])

lemma components_suffix:
  assumes "ends_in_name p" and "slash \<notin> set t"
  shows "components (p @ t) = butlast (components p) @ [last_piece p @ t]" "ends_in_name (p @ t)"
proof -
  obtain us e piece where u: "path_pieces 0 [] p = us @ [(e, piece)]"
    "path_pieces 0 [] (p @ t) = us @ [(e + length t, piece @ t)]"
    using path_pieces_append [OF assms(2), of 0 "[]" p] by blast
  have l: "last_piece p = piece" using u by (simp add: last_piece_def)
  have nonempty: "p \<noteq> []" using assms(1) by (auto simp: ends_in_name_def last_piece_def)
  show e: "ends_in_name (p @ t)"
  proof -
    have "last_piece p @ t \<noteq> ''.''" "last_piece p @ t \<noteq> ''..''" "last_piece p @ t \<noteq> []"
      using assms by (auto simp: ends_in_name_def append_eq_Cons_conv)
    then show ?thesis by (simp add: ends_in_name_def last_piece_append [OF assms(2)])
  qed
  have "p \<noteq> ''.''" using assms(1) by (auto simp: ends_in_name_def last_piece_def)
  with nonempty have s: "starts_with (p @ t) [slash] = starts_with p [slash]"
    "starts_with (p @ t) ''./'' = starts_with p ''./''"
    using assms(2) by (cases p; cases "tl p"; cases t; auto)+
  show "components (p @ t) = butlast (components p) @ [last_piece p @ t]"
    by (simp add: components_name [OF e] components_name [OF assms(1)] s u last_piece_append [OF assms(2)]
        butlast_append)
qed

lemma components_join:
  assumes "slash \<notin> set t" and "t \<notin> {[], ''.'', ''..''}"
  shows "ends_in_name (path_join p t)" "last_piece (path_join p t) = t"
proof -
  have "\<not> is_absolute t" using assms(1) by (cases t) (auto simp: is_absolute_def)
  then consider "path_join p t = t" | q where "path_join p t = q @ slash # t"
    by (cases p rule: rev_cases) (fastforce simp: path_join_def split: if_splits)+
  then show l: "last_piece (path_join p t) = t"
    using last_piece_join [OF assms(1)] by cases auto
  with assms(2) show "ends_in_name (path_join p t)" by (simp add: ends_in_name_def)
qed

section \<open>Parents\<close>

text \<open>Cutting a path where one of its pieces ends cuts its pieces there.\<close>

lemma path_pieces_take:
  "(e, piece) \<in> set (path_pieces pos acc s) \<Longrightarrow>
     path_pieces pos acc (take (e - pos) s) = takeWhile (\<lambda>(e', _). e' \<le> e) (path_pieces pos acc s)"
proof (induction pos acc s rule: path_pieces.induct)
  case (1 pos acc)
  then show ?case by simp
next
  case (2 pos acc c s)
  show ?case
  proof (cases "c = slash \<and> e = pos")
    case True
    have "takeWhile (\<lambda>(e', _). e' \<le> pos) (path_pieces (pos + 1) [] s) = []"
      using path_pieces_bound [of "fst (hd (path_pieces (pos + 1) [] s))" "snd (hd (path_pieces (pos + 1) [] s))"
          "pos + 1" "[]" s]
      by (cases "path_pieces (pos + 1) [] s") auto
    with True show ?thesis by simp
  next
    case False
    with 2(3) have "e \<ge> pos + 1"
      by (auto dest: path_pieces_bound split: if_splits)
    then obtain k where k: "e - pos = Suc k" "e - (pos + 1) = k" by (cases "e - pos") auto
    show ?thesis
    proof (cases "c = slash")
      case True
      with False 2(3) \<open>e \<ge> pos + 1\<close> have "(e, piece) \<in> set (path_pieces (pos + 1) [] s)" by auto
      from 2(1) [OF True this] True k \<open>e \<ge> pos + 1\<close> show ?thesis by simp
    next
      case no: False
      with 2(3) have "(e, piece) \<in> set (path_pieces (pos + 1) (acc @ [c]) s)" by simp
      from 2(2) [OF no this] no k show ?thesis by simp
    qed
  qed
qed

lemma filter_takeWhile_sorted:
  assumes "sorted_wrt (<) (map fst (xs :: (nat \<times> 'a) list))" and "filter Q xs = us @ (e, y) # vs"
  shows "filter Q (takeWhile (\<lambda>(e', _). e' \<le> e) xs) = us @ [(e, y)]"
  using assms
proof (induction xs arbitrary: us)
  case Nil
  then show ?case by simp
next
  case (Cons x xs)
  have mem: "(e, y) \<in> set (x # xs)"
  proof -
    have "(e, y) \<in> set (filter Q (x # xs))" by (subst Cons.prems(2)) simp
    then show ?thesis by (simp split: if_splits) auto
  qed
  with Cons.prems(1) have le: "fst x \<le> e" by force
  show ?case
  proof (cases "x = (e, y) \<and> Q x")
    case True
    have "takeWhile (\<lambda>(e', _). e' \<le> e) xs = []"
      using Cons.prems(1) True by (cases xs) auto
    moreover have "us = []"
    proof (rule ccontr)
      assume "us \<noteq> []"
      with Cons.prems(2) True obtain us' where "us = x # us'" "filter Q xs = us' @ (e, y) # vs"
        by (cases us) auto
      then have "(e, y) \<in> set (filter Q xs)" by simp
      then have "(e, y) \<in> set xs" by simp
      with Cons.prems(1) True show False by force
    qed
    ultimately show ?thesis using True by auto
  next
    case False
    show ?thesis
    proof (cases "Q x")
      case True
      with False Cons.prems(2) obtain us' where "us = x # us'" "filter Q xs = us' @ (e, y) # vs"
        by (cases us) auto
      with Cons.IH [of us'] Cons.prems(1) True le show ?thesis by (auto split: prod.splits)
    next
      case no: False
      with Cons.IH [of us] Cons.prems le show ?thesis by (auto split: prod.splits)
    qed
  qed
qed

text \<open>The parent of a path that ends in a name has the components before it.\<close>

lemma components_parent:
  assumes "ends_in_name p"
  shows "\<exists>q. parent p = Some q \<and> components q = butlast (components p)"
proof -
  let ?ps = "path_pieces 0 [] p"
  let ?Q = "\<lambda>(pos :: nat, piece). piece \<noteq> [] \<and> piece \<noteq> ''.''"
  let ?root = "if starts_with p [slash] then [(1 :: nat, [slash])]
      else if p = ''.'' \<or> starts_with p ''./'' then [(1, ''.'')] else []"
  have spans: "path_spans p = ?root @ filter ?Q ?ps" by (simp add: path_spans_def)
  have notdot: "p \<noteq> ''.''" using assms by (auto simp: ends_in_name_def last_piece_def)
  have split: "?ps = butlast ?ps @ [(fst (last ?ps), last_piece p)]" by (simp add: last_piece_def)
  have fps: "filter ?Q ?ps = filter ?Q (butlast ?ps) @ [(fst (last ?ps), last_piece p)]"
    using assms by (subst split) (simp add: ends_in_name_def)
  then have lst: "snd (last (path_spans p)) = last_piece p" "path_spans p \<noteq> []" by (simp_all add: spans)
  have noroot: "last_piece p \<noteq> [slash]" using last_piece_no_slash [of p] by auto
  have bl: "butlast (path_spans p) = ?root @ filter ?Q (butlast ?ps)"
    by (simp add: spans fps butlast_append)
  define q where "q = take (if butlast (path_spans p) = [] then 0 else fst (last (butlast (path_spans p)))) p"
  have parent: "parent p = Some q" using lst noroot by (simp add: parent_def Let_def q_def)
  have "path_spans q = butlast (path_spans p)"
  proof (cases "filter ?Q (butlast ?ps) = []")
    case True
    have "path_spans q = ?root"
    proof (cases "?root = []")
      case True
      with \<open>filter ?Q (butlast ?ps) = []\<close> bl have "q = []" by (simp add: q_def)
      with True show ?thesis by (simp add: path_spans_def)
    next
      case False
      with \<open>filter ?Q (butlast ?ps) = []\<close> bl have q: "q = take 1 p" by (auto simp: q_def)
      from False have "starts_with p [slash] \<or> starts_with p ''./''"
        using notdot by (simp split: if_splits)
      then consider s where "p = slash # s" | s where "p = ''.'' @ slash # s"
        by (auto simp: starts_with_iff)
      then show ?thesis
      proof cases
        case 1
        then have "q = [slash]" by (simp add: q)
        moreover have "path_spans [slash] = [(1, [slash])]" by (simp add: path_spans_def)
        ultimately show ?thesis using 1 by simp
      next
        case 2
        then have "q = ''.''" by (simp add: q)
        moreover have "path_spans ''.'' = [(1, ''.'')]" by (simp add: path_spans_def)
        ultimately show ?thesis using 2 by simp
      qed
    qed
    then show ?thesis unfolding bl True append_Nil2 .
  next
    case False
    then obtain us y where y: "filter ?Q (butlast ?ps) = us @ [y]" using rev_exhaust by blast
    obtain e piece where e: "y = (e, piece)" by (cases y)
    note u = y [unfolded e]
    have q: "q = take e p" unfolding q_def bl u by simp
    have "(e, piece) \<in> set (filter ?Q (butlast ?ps))" using u by simp
    then have mem: "(e, piece) \<in> set ?ps" "piece \<noteq> []" "piece \<noteq> ''.''" by (auto dest: in_set_butlastD)
    have "filter ?Q ?ps = us @ (e, piece) # [(fst (last ?ps), last_piece p)]" using fps u by simp
    from filter_takeWhile_sorted [OF path_pieces_sorted this]
    have fq: "filter ?Q (path_pieces 0 [] q) = us @ [(e, piece)]"
      using path_pieces_take [OF mem(1)] by (simp add: q)
    have long: "Suc 0 \<le> e" "e = Suc 0 \<Longrightarrow> length piece = 1"
      using path_pieces_length [OF mem(1)] mem(2) by (cases piece; auto)+
    have "starts_with q [slash] = starts_with p [slash]"
      using long(1) by (cases p; cases e) (auto simp: q)
    moreover have "(q = ''.'' \<or> starts_with q ''./'') = (p = ''.'' \<or> starts_with p ''./'')"
    proof (cases "e = Suc 0")
      case False
      then obtain k where k: "e = Suc (Suc k)" using long(1) by (cases e; cases "e - 1") auto
      have "q \<noteq> ''.''"
      proof
        assume "q = ''.''"
        with q k have "p = ''.''" by (cases p; cases "tl p") auto
        with notdot show False by simp
      qed
      moreover have "starts_with q ''./'' = starts_with p ''./''"
        by (cases p; cases "tl p") (auto simp: q k)
      ultimately show ?thesis using notdot by simp
    next
      case True
      then have "q = take 1 p" by (simp add: q)
      have "path_pieces 0 [] q = takeWhile (\<lambda>(e', _). e' \<le> e) ?ps"
        using path_pieces_take [OF mem(1)] by (simp add: q)
      moreover have "(e, piece) \<in> set (filter ?Q (path_pieces 0 [] q))" by (simp add: fq)
      ultimately have "(e, piece) \<in> set (path_pieces 0 [] (take 1 p))" using \<open>q = take 1 p\<close> by auto
      with mem(2,3) have "take 1 p \<noteq> ''.''" by (auto split: if_splits)
      then have "\<not> starts_with p ''./''" by (cases p) auto
      with \<open>take 1 p \<noteq> ''.''\<close> \<open>q = take 1 p\<close> notdot show ?thesis by (cases p) auto
    qed
    ultimately show ?thesis unfolding bl u by (simp add: path_spans_def fq)
  qed
  with parent show ?thesis by (auto simp: components_def map_butlast)
qed

end
