(* ===== verification/Recovery_Custody.thy ===== *)
theory Recovery_Custody
  imports Recovery Sqlite_Keeps Path_Names
begin

text \<open>
  Who holds the original database while recovery moves names around. The file system is seen
  through a view \<open>held\<close>: the inode of the file each directory entry names. The laws say what the
  calls do to it; every call may fail.
\<close>

section \<open>Entries and the laws of names\<close>

text \<open>
  The entry a path denotes: its last component in the directory the others resolve to. \<open>dir\<close> is
  that resolution.
\<close>

definition entry :: "(string list \<Rightarrow> string list) \<Rightarrow> string \<Rightarrow> string list" where
  "entry dir p =
     (let cs = components p in if cs = [] then [] else dir (butlast cs) @ [last cs])"

definition beneath :: "string list \<Rightarrow> string list \<Rightarrow> bool" where
  "beneath d e \<longleftrightarrow> take (length d) e = d"

definition sidecar_name :: "string \<Rightarrow> bool" where
  "sidecar_name n \<longleftrightarrow> list_ex (ends_with n) sidecars"

text \<open>
  \<open>name_laws\<close>, for a file system that nobody else changes meanwhile. Files keep their names
  under every call but \<open>renameat2\<close> and \<open>remove_file\<close>; \<open>lstat\<close> shows the file an entry names; a
  file just created exclusively has an inode no other file has; \<open>remove_file\<close> takes away one
  name; a rename that fails changes no name, and one that succeeds found the target free and
  moves the entry, with what is beneath it when it is a directory.
\<close>

definition name_laws ::
  "'w host_api \<Rightarrow> (string list \<Rightarrow> string list) \<Rightarrow> ('w \<Rightarrow> string list \<Rightarrow> identity option) \<Rightarrow> bool" where
  "name_laws H dir held \<longleftrightarrow>
     (\<forall>e i. host_keeps (\<lambda>w. held w e = Some i) H) \<and>
     (\<forall>p w md w1. lstat H p w = (Inr md, w1) \<longrightarrow> \<not> (md_is_file md \<and> md_is_dir md) \<and>
        (if md_is_dir md then held w1 (entry dir p) = None \<and> (\<forall>e. held w1 e \<noteq> Some (identity_of md))
         else held w1 (entry dir p) = Some (identity_of md))) \<and>
     (\<forall>p m w f w1 md w2. create_new H p m w = (Inr f, w1) \<longrightarrow> fstat H f w1 = (Inr md, w2) \<longrightarrow>
        held w2 (entry dir p) = Some (identity_of md) \<and> (\<forall>e. held w e \<noteq> Some (identity_of md))) \<and>
     (\<forall>p e i w r w1. remove_file H p w = (r, w1) \<longrightarrow> held w e = Some i \<longrightarrow> e \<noteq> entry dir p \<longrightarrow>
        held w1 e = Some i) \<and>
     (\<forall>a b e i w err w1. renameat2 H a b w = (Inl err, w1) \<longrightarrow> held w e = Some i \<longrightarrow> held w1 e = Some i) \<and>
     (\<forall>a b w w1. renameat2 H a b w = (Inr (), w1) \<longrightarrow>
        held w (entry dir b) = None \<and> held w1 (entry dir b) = held w (entry dir a) \<and>
        (\<forall>e i. held w e = Some i \<longrightarrow> e \<noteq> entry dir a \<longrightarrow>
           held w (entry dir a) \<noteq> None \<or> \<not> beneath (entry dir a) e \<longrightarrow> held w1 e = Some i))"

text \<open>SQLite takes away, and renames, no file but its sidecars.\<close>

definition sqlite_names :: "'w sqlite_api \<Rightarrow> ('w \<Rightarrow> string list \<Rightarrow> identity option) \<Rightarrow> bool" where
  "sqlite_names S held \<longleftrightarrow>
     (\<forall>e i. e \<noteq> [] \<longrightarrow> \<not> sidecar_name (last e) \<longrightarrow> sqlite_keeps (\<lambda>w. held w e = Some i) S)"

section \<open>Entries of the database directory\<close>

lemma entry_name:
  assumes "ends_in_name p"
  shows "entry dir p = dir (butlast (components p)) @ [last_piece p]"
  using components_last [OF assms] by (simp add: entry_def)

lemma no_slash_sidecar: "suffix \<in> set sidecars \<Longrightarrow> slash \<notin> set suffix"
  by (auto simp: sidecars_def)

lemma sidecar_nonempty: "suffix \<in> set sidecars \<Longrightarrow> suffix \<noteq> []"
  by (auto simp: sidecars_def)

lemma entry_sidecar:
  assumes "ends_in_name p" and "suffix \<in> set sidecars"
  shows "entry dir (sidecar_path p suffix) = dir (butlast (components p)) @ [last_piece p @ suffix]"
  using components_suffix [OF assms(1) no_slash_sidecar [OF assms(2)]]
  by (simp add: entry_def sidecar_path_def)

lemma not_beneath_sibling: "m \<noteq> n \<Longrightarrow> \<not> beneath (d @ [m]) (d @ [n])"
  by (simp add: beneath_def)

text \<open>What the validation of the two paths gives: siblings, none a sidecar of the other.\<close>

lemma validated_siblings:
  assumes "validate_recovery_paths source archive = Inr ()"
    and "ends_in_name source" and "ends_in_name archive"
  shows "butlast (components archive) = butlast (components source)"
    and "last_piece archive \<noteq> last_piece source"
    and "suffix \<in> set sidecars \<Longrightarrow> last_piece archive \<noteq> last_piece source @ suffix"
proof -
  obtain p q where p: "parent source = Some p" "components p = butlast (components source)"
    and q: "parent archive = Some q" "components q = butlast (components archive)"
    using components_parent [OF assms(2)] components_parent [OF assms(3)] by blast
  from assms(1) have v: "path_eq p q" "\<not> path_eq source archive"
    "\<And>suffix. suffix \<in> set sidecars \<Longrightarrow> \<not> path_eq archive (sidecar_path source suffix)"
    by (auto simp: validate_recovery_paths_def Let_def p q list_ex_iff split: if_splits)
  show d: "butlast (components archive) = butlast (components source)"
    using v(1) p q by (simp add: path_eq_def)
  have cs: "components source = butlast (components source) @ [last_piece source]"
    "components archive = butlast (components source) @ [last_piece archive]"
    using components_last [OF assms(2)] components_last [OF assms(3)] d
    by (metis append_butlast_last_id)+
  show "last_piece archive \<noteq> last_piece source"
    using v(2) cs by (metis path_eq_def)
  show "last_piece archive \<noteq> last_piece source @ suffix" if "suffix \<in> set sidecars"
    using v(3) [OF that] cs components_suffix(1) [OF assms(2) no_slash_sidecar [OF that]]
    by (metis path_eq_def sidecar_path_def)
qed

lemma rebuilt_entry:
  "entry dir (rebuilt st) \<noteq> [] \<and> last (entry dir (rebuilt st)) = ''rebuilt.db''"
proof -
  have "slash \<notin> set ''rebuilt.db''" by simp
  from components_join [OF this, of "st_path st"] have "ends_in_name (rebuilt st)" "last_piece (rebuilt st) = ''rebuilt.db''"
    by (simp_all add: rebuilt_def)
  then show ?thesis by (simp add: entry_name)
qed

lemma rebuilt_no_sidecar: "\<not> sidecar_name ''rebuilt.db''"
  by (simp add: sidecar_name_def sidecars_def ends_with_def)

section \<open>Invariants of the helpers\<close>

lemma keeps_conj: "keeps P m \<Longrightarrow> keeps Q m \<Longrightarrow> keeps (\<lambda>w. P w \<and> Q w) m"
  unfolding keeps_def by blast

lemma checks_keep:
  assumes "host_keeps P H"
  shows keeps_identity_check: "keeps P (identity_check H i p)"
    and keeps_regular: "keeps P (regular H p)"
    and keeps_absent: "keeps P (absent H p)"
    and keeps_absent_sidecars: "keeps P (absent_sidecars H p)"
    and keeps_reject: "keeps P (reject_extended_metadata H p b)"
    and keeps_check_directory: "keeps P (check_directory H p)"
    and keeps_fresh_directory: "keeps P (fresh_directory H candidate attempts)"
proof -
  note h = host_keepsD [OF assms]
  show "keeps P (identity_check H i p)"
    unfolding identity_check_def by (intro keeps_intros h)
  show "keeps P (regular H p)"
    unfolding regular_def by (intro keeps_intros h)
  show a: "keeps P (absent H p)" for p
    unfolding absent_def by (intro keeps_intros h)
  show "keeps P (absent_sidecars H p)"
    unfolding absent_sidecars_def by (intro keeps_intros a)
  show "keeps P (reject_extended_metadata H p b)"
    unfolding reject_extended_metadata_def by (intro keeps_intros h)
  show "keeps P (check_directory H p)"
    unfolding check_directory_def by (intro keeps_intros h)
  show "keeps P (fresh_directory H candidate attempts)"
    by (induction attempts) (auto intro!: keeps_intros h)
qed

lemma stage_keeps:
  assumes "host_keeps P H"
  shows keeps_stage_check: "keeps P (stage_check H st)"
    and keeps_apply_mode: "keeps P (apply_mode H st md)"
    and keeps_stage_sync: "keeps P (stage_sync H st)"
    and keeps_take_ownership: "keeps P (take_ownership H st md)"
    and keeps_stage_journal: "keeps P (stage_journal H st)"
    and keeps_inspect_original: "keeps P (inspect_original H a source archive)"
    and keeps_verify_staged: "keeps P (verify_staged H md source st)"
proof -
  note h = host_keepsD [OF assms] and c = checks_keep [OF assms] and f = file_helpers_keep [OF assms]
  show sc: "keeps P (stage_check H st)" for st
    unfolding stage_check_def by (intro keeps_intros h c)
  show am: "keeps P (apply_mode H st md)"
    unfolding apply_mode_def by (intro keeps_intros h c)
  show "keeps P (stage_sync H st)"
    unfolding stage_sync_def by (intro keeps_intros sc f)
  show "keeps P (take_ownership H st md)"
    unfolding take_ownership_def by (intro keeps_intros h)
  show "keeps P (stage_journal H st)"
    unfolding stage_journal_def private_file_def by (intro keeps_intros h)
  show "keeps P (inspect_original H a source archive)"
    unfolding inspect_original_def inspect_sidecar_def by (intro keeps_intros h c)
  show "keeps P (verify_staged H md source st)"
    unfolding verify_staged_def by (intro keeps_intros sc c am f)
qed

section \<open>Names under single calls\<close>

lemma name_lawsD:
  assumes "name_laws H dir held"
  shows name_host: "host_keeps (\<lambda>w. held w e = Some i) H"
    and name_lstat: "lstat H p w = (Inr md, w1) \<Longrightarrow> \<not> (md_is_file md \<and> md_is_dir md) \<and>
      (if md_is_dir md then held w1 (entry dir p) = None \<and> (\<forall>e. held w1 e \<noteq> Some (identity_of md))
       else held w1 (entry dir p) = Some (identity_of md))"
    and name_create: "create_new H p m w = (Inr f, w1) \<Longrightarrow> fstat H f w1 = (Inr md, w2) \<Longrightarrow>
      held w2 (entry dir p) = Some (identity_of md) \<and> (\<forall>e. held w e \<noteq> Some (identity_of md))"
    and name_remove: "remove_file H p w = (r, w1) \<Longrightarrow> held w e = Some i \<Longrightarrow> e \<noteq> entry dir p \<Longrightarrow> held w1 e = Some i"
    and name_rename_err: "renameat2 H a b w = (Inl err, w1) \<Longrightarrow> held w e = Some i \<Longrightarrow> held w1 e = Some i"
    and name_rename: "renameat2 H a b w = (Inr (), w1) \<Longrightarrow>
      held w (entry dir b) = None \<and> held w1 (entry dir b) = held w (entry dir a)"
    and name_rename_others: "renameat2 H a b w = (Inr (), w1) \<Longrightarrow> held w e = Some i \<Longrightarrow> e \<noteq> entry dir a \<Longrightarrow>
      held w (entry dir a) \<noteq> None \<or> \<not> beneath (entry dir a) e \<Longrightarrow> held w1 e = Some i"
proof -
  note c2 = conjunct2
  note L = assms [unfolded name_laws_def]
  note l1 = L [THEN conjunct1] and l2 = L [THEN c2, THEN conjunct1]
    and l3 = L [THEN c2, THEN c2, THEN conjunct1]
    and l4 = L [THEN c2, THEN c2, THEN c2, THEN conjunct1]
    and l5 = L [THEN c2, THEN c2, THEN c2, THEN c2, THEN conjunct1]
    and l6 = L [THEN c2, THEN c2, THEN c2, THEN c2, THEN c2]
  show "host_keeps (\<lambda>w. held w e = Some i) H" using l1 by blast
  show "lstat H p w = (Inr md, w1) \<Longrightarrow> \<not> (md_is_file md \<and> md_is_dir md) \<and>
      (if md_is_dir md then held w1 (entry dir p) = None \<and> (\<forall>e. held w1 e \<noteq> Some (identity_of md))
       else held w1 (entry dir p) = Some (identity_of md))" using l2 by blast
  show "create_new H p m w = (Inr f, w1) \<Longrightarrow> fstat H f w1 = (Inr md, w2) \<Longrightarrow>
      held w2 (entry dir p) = Some (identity_of md) \<and> (\<forall>e. held w e \<noteq> Some (identity_of md))"
    using l3 by blast
  show "remove_file H p w = (r, w1) \<Longrightarrow> held w e = Some i \<Longrightarrow> e \<noteq> entry dir p \<Longrightarrow> held w1 e = Some i"
    using l4 by blast
  show "renameat2 H a b w = (Inl err, w1) \<Longrightarrow> held w e = Some i \<Longrightarrow> held w1 e = Some i"
    using l5 by blast
  show "renameat2 H a b w = (Inr (), w1) \<Longrightarrow>
      held w (entry dir b) = None \<and> held w1 (entry dir b) = held w (entry dir a)"
    using l6 by blast
  show "renameat2 H a b w = (Inr (), w1) \<Longrightarrow> held w e = Some i \<Longrightarrow> e \<noteq> entry dir a \<Longrightarrow>
      held w (entry dir a) \<noteq> None \<or> \<not> beneath (entry dir a) e \<Longrightarrow> held w1 e = Some i"
    using l6 by blast
qed

text \<open>A check compares an inode with the file an entry names.\<close>

lemma identity_check_triple:
  assumes "name_laws H dir held"
  shows "triple (\<lambda>w. held w e = Some i) (identity_check H j p)
     (\<lambda>_ w. held w e = Some i \<and> (i \<noteq> j \<longrightarrow> e \<noteq> entry dir p) \<and> (i = j \<longrightarrow> held w (entry dir p) = Some i))
     (\<lambda>_ w. held w e = Some i)"
proof -
  note keep = keeps_identity_check [OF name_host [OF assms, of e i], of j p]
  show ?thesis
  proof (rule tripleI)
    fix w x w'
    assume w: "held w e = Some i" and c: "identity_check H j p w = Some (Inr x, w')"
    from c obtain md where md: "lstat H p w = (Inr md, w')" "identity_of md = j"
      by (auto simp: identity_check_def host_iffs split: if_splits)
    from keepsD [OF keep w c] name_lstat [OF assms md(1)] md(2)
    show "held w' e = Some i \<and> (i \<noteq> j \<longrightarrow> e \<noteq> entry dir p) \<and> (i = j \<longrightarrow> held w' (entry dir p) = Some i)"
      by (auto split: if_splits)
  qed (use keepsD [OF keep] in blast)
qed

lemma regular_triple:
  assumes "name_laws H dir held"
  shows "triple (\<lambda>_. True) (regular H p) (\<lambda>md w. held w (entry dir p) = Some (identity_of md)) (\<lambda>_ _. True)"
proof (rule tripleI)
  fix w md w'
  assume "regular H p w = Some (Inr md, w')"
  then have "lstat H p w = (Inr md, w')" "md_is_file md"
    by (auto simp: regular_def host_iffs split: if_splits)
  from name_lstat [OF assms this(1)] this(2) show "held w' (entry dir p) = Some (identity_of md)"
    by (auto split: if_splits)
qed simp

lemma triple_conj:
  "triple P m Q E \<Longrightarrow> triple P' m Q' E' \<Longrightarrow>
     triple (\<lambda>w. P w \<and> P' w) m (\<lambda>x w. Q x w \<and> Q' x w) (\<lambda>e w. E e w \<and> E' e w)"
  unfolding triple_def by blast

text \<open>A move leaves every other file where it is \<dots>\<close>

lemma move_keeps:
  assumes "name_laws H dir held"
  shows "triple (\<lambda>w. held w e = Some i \<and>
       (\<not> beneath (entry dir a) e \<or> e \<noteq> entry dir a \<and> held w (entry dir a) = Some k))
     (move_noreplace H a b j) (\<lambda>_ w. held w e = Some i) (\<lambda>_ w. held w e = Some i)"
    (is "triple ?P _ _ _")
proof -
  have check: "keeps (\<lambda>w. held w e' = Some i') (identity_check H j p)" for e' i' p
    by (rule keeps_identity_check [OF name_host [OF assms]])
  have first: "triple ?P (identity_check H j a) (\<lambda>_. ?P) (\<lambda>_ w. held w e = Some i)"
    using check [of e i a] check [of "entry dir a" k a] by (auto simp: triple_def keeps_def)
  have move: "triple ?P (io_map_err g (call (renameat2 H a b))) (\<lambda>_ w. held w e = Some i) (\<lambda>_ w. held w e = Some i)" for g :: "errno \<Rightarrow> dactyl_error"
  proof (rule tripleI)
    fix w x w'
    assume P: "?P w" and "io_map_err g (call (renameat2 H a b)) w = Some (Inr x, w')"
    then have r: "renameat2 H a b w = (Inr (), w')" by (auto simp: host_iffs)
    have "e \<noteq> entry dir a" using P by (auto simp: beneath_def)
    with name_rename_others [OF assms r] P show "held w' e = Some i" by blast
  next
    fix w x w'
    assume P: "?P w" and "io_map_err g (call (renameat2 H a b)) w = Some (Inl x, w')"
    then obtain err where r: "renameat2 H a b w = (Inl err, w')" by (auto simp: host_iffs)
    from name_rename_err [OF assms r] P show "held w' e = Some i" by blast
  qed
  show ?thesis
    unfolding move_noreplace_def
    by (rule triple_bind [OF first], rule triple_bind [OF move]) (use check [of e i b] in \<open>simp add: keeps_triple\<close>)
qed

text \<open>\<dots> and its own file under its old or its new name.\<close>

lemma move_moves:
  assumes "name_laws H dir held"
  shows "triple (\<lambda>w. held w (entry dir a) = Some k) (move_noreplace H a b j)
     (\<lambda>_ w. held w (entry dir b) = Some k) (\<lambda>_ w. held w (entry dir a) = Some k \<or> held w (entry dir b) = Some k)"
proof -
  have check: "triple (\<lambda>w. held w e' = Some i') (identity_check H j p) (\<lambda>_ w. held w e' = Some i') (\<lambda>_ w. held w e' = Some i')" for e' i' p
    using keeps_identity_check [OF name_host [OF assms, of e' i'], of j p] by (simp add: keeps_triple)
  show ?thesis
    unfolding move_noreplace_def
  proof (rule triple_bind [where R = "\<lambda>_ w. held w (entry dir a) = Some k"])
    fix x :: unit
    show "triple (\<lambda>w. held w (entry dir a) = Some k)
      (io_bind (io_map_err (move_error H b) (call (renameat2 H a b))) (\<lambda>_. identity_check H j b))
      (\<lambda>_ w. held w (entry dir b) = Some k) (\<lambda>_ w. held w (entry dir a) = Some k \<or> held w (entry dir b) = Some k)"
    proof (rule triple_bind [where R = "\<lambda>_ w. held w (entry dir b) = Some k"])
      show "triple (\<lambda>w. held w (entry dir a) = Some k) (io_map_err (move_error H b) (call (renameat2 H a b)))
        (\<lambda>_ w. held w (entry dir b) = Some k) (\<lambda>_ w. held w (entry dir a) = Some k \<or> held w (entry dir b) = Some k)"
        by (auto simp: triple_def host_iffs dest: name_rename [OF assms] name_rename_err [OF assms])
    qed (rule triple_conseq [OF check], auto)
  qed (rule triple_conseq [OF check], auto)
qed

text \<open>Both at once: the moved file changes its name, another one keeps its own.\<close>

lemma move_both:
  assumes "name_laws H dir held" and "i \<noteq> k"
  shows "triple (\<lambda>w. held w e = Some i \<and> held w (entry dir a) = Some k) (move_noreplace H a b j)
     (\<lambda>_ w. held w e = Some i \<and> held w (entry dir b) = Some k) (\<lambda>_ w. held w e = Some i)"
  by (rule triple_conseq [OF triple_conj [OF move_keeps [OF assms(1), of e i a k b j] move_moves [OF assms(1), of a k b j]]])
    (use assms(2) in auto)

section \<open>The stage\<close>

text \<open>Dropping the stage removes its own files only.\<close>

lemma removal_triple:
  assumes "name_laws H dir held" and "e \<noteq> entry dir p"
  shows "keeps (\<lambda>w. held w e = Some i) (call (remove_file H p))"
  using name_remove [OF assms(1)] assms(2) by (auto simp: keeps_def call_Some_iff)

lemma drop_files_keeps:
  assumes laws: "name_laws H dir held" and journal: "st_journal_identity st \<noteq> Some i"
  shows "keeps (\<lambda>w. held w e = Some i) (drop_files H st :: ('w, 'd, unit) io)"
proof -
  let ?P = "\<lambda>w. held w e = Some i" and ?j = "sidecar_path (rebuilt st) ''-journal''"
  note h = host_keepsD [OF name_host [OF laws, of e i]] and f = file_helpers_keep [OF name_host [OF laws, of e i]]
  have "keeps ?P (io_bind (io_result (identity_check H j ?j)) (\<lambda>r.
      if isl r then io_return () else io_bind (io_result (call (remove_file H ?j))) (\<lambda>_. io_return ()))
      :: ('w, 'd, unit) io)" if "j \<noteq> i" for j
    unfolding keeps_triple
  proof (rule triple_bind)
    show "triple ?P (io_result (identity_check H j ?j))
        (\<lambda>r w. ?P w \<and> (\<not> isl r \<longrightarrow> e \<noteq> entry dir ?j)) (\<lambda>_. ?P)"
      by (rule triple_result, rule triple_conseq [OF identity_check_triple [OF laws, of e i j ?j]])
        (use that in auto)
    fix r :: "dactyl_error + unit"
    have "triple ?P (io_bind (io_result (call (remove_file H ?j))) (\<lambda>_. io_return ()) :: ('w, 'd, unit) io) (\<lambda>_. ?P) (\<lambda>_. ?P)"
      if "e \<noteq> entry dir ?j"
      unfolding keeps_triple [symmetric] by (intro keeps_intros removal_triple [OF laws that])
    then show "triple (\<lambda>w. ?P w \<and> (\<not> isl r \<longrightarrow> e \<noteq> entry dir ?j))
        (if isl r then io_return () else io_bind (io_result (call (remove_file H ?j))) (\<lambda>_. io_return ()))
        (\<lambda>_. ?P) (\<lambda>_. ?P)"
      by (auto simp: triple_def io_iffs)
  qed
  note journal_removed = this
  show ?thesis
    unfolding drop_files_def
  proof (rule keeps_bind)
    show "keeps ?P (case st_journal_identity st of None \<Rightarrow> io_return () :: ('w, 'd, unit) io
       | Some j \<Rightarrow> io_bind (io_result (identity_check H j ?j)) (\<lambda>r. if isl r then io_return ()
             else io_bind (io_result (call (remove_file H ?j))) (\<lambda>_. io_return ())))"
      using journal journal_removed
      by (cases "st_journal_identity st") (simp_all only: option.case keeps_basic option.inject)
  qed (intro keeps_intros h f)
qed

lemma stage_drop_keeps:
  assumes laws: "name_laws H dir held" and journal: "st_journal_identity st \<noteq> Some i"
    and other: "st_file_identity st \<noteq> i \<or> e \<noteq> entry dir (rebuilt st)"
  shows "keeps (\<lambda>w. held w e = Some i) (stage_drop H st :: ('w, 'd, unit) io)"
proof -
  let ?P = "\<lambda>w. held w e = Some i"
  note h = host_keepsD [OF name_host [OF laws, of e i]]
  have look: "triple ?P (call (lstat H (rebuilt st)))
      (\<lambda>md w. ?P w \<and> (identity_of md = st_file_identity st \<longrightarrow> e \<noteq> entry dir (rebuilt st))) (\<lambda>_. ?P)"
  proof (rule tripleI)
    fix w md w'
    assume w: "?P w" and c: "call (lstat H (rebuilt st)) w = Some (Inr md, w')"
    then have l: "lstat H (rebuilt st) w = (Inr md, w')" by (simp add: call_Some_iff)
    from keepsD [OF keeps_call [OF h(4)] w] c keepsD [OF keeps_call [OF host_keepsD(5) [OF name_host [OF laws]]] w c]
    have "?P w'" by blast
    with name_lstat [OF laws l] other
    show "?P w' \<and> (identity_of md = st_file_identity st \<longrightarrow> e \<noteq> entry dir (rebuilt st))"
      by (auto split: if_splits)
  next
    fix w err w'
    assume "?P w" and "call (lstat H (rebuilt st)) w = Some (Inl err, w')"
    with keepsD [OF keeps_call [OF h(5)]] show "?P w'" by blast
  qed
  have rest: "keeps ?P (drop_files H st :: ('w, 'd, unit) io)"
    by (rule drop_files_keeps [OF laws journal])
  have body: "triple ?P (io_bind (io_result (call (lstat H (rebuilt st)))) (\<lambda>m.
          case m of
            Inl _ \<Rightarrow> drop_files H st
          | Inr md \<Rightarrow>
              if identity_of md \<noteq> st_file_identity st then io_return ()
              else io_bind (io_result (call (remove_file H (rebuilt st)))) (\<lambda>_. drop_files H st)) :: ('w, 'd, unit) io)
      (\<lambda>_. ?P) (\<lambda>_. ?P)"
  proof (rule triple_bind [OF triple_result])
    show "triple ?P (call (lstat H (rebuilt st)))
        (\<lambda>md. (\<lambda>m w. ?P w \<and> (\<forall>md. m = Inr md \<longrightarrow> identity_of md = st_file_identity st \<longrightarrow> e \<noteq> entry dir (rebuilt st))) (Inr md))
        (\<lambda>x. (\<lambda>m w. ?P w \<and> (\<forall>md. m = Inr md \<longrightarrow> identity_of md = st_file_identity st \<longrightarrow> e \<noteq> entry dir (rebuilt st))) (Inl x))"
      by (rule triple_conseq [OF look]) auto
    fix m :: "io_error + metadata"
    have "keeps ?P (io_bind (io_result (call (remove_file H (rebuilt st)))) (\<lambda>_. drop_files H st) :: ('w, 'd, unit) io)"
      if "e \<noteq> entry dir (rebuilt st)"
      by (intro keeps_intros removal_triple [OF laws that] rest)
    note remove = this
    show "triple (\<lambda>w. ?P w \<and> (\<forall>md. m = Inr md \<longrightarrow> identity_of md = st_file_identity st \<longrightarrow> e \<noteq> entry dir (rebuilt st)))
        (case m of
            Inl _ \<Rightarrow> drop_files H st :: ('w, 'd, unit) io
          | Inr md \<Rightarrow>
              if identity_of md \<noteq> st_file_identity st then io_return ()
              else io_bind (io_result (call (remove_file H (rebuilt st)))) (\<lambda>_. drop_files H st))
        (\<lambda>_. ?P) (\<lambda>_. ?P)"
    proof (cases m)
      case (Inl err)
      with rest show ?thesis by (auto simp: keeps_triple intro: triple_pre)
    next
      case (Inr md)
      show ?thesis
      proof (cases "identity_of md = st_file_identity st \<and> e \<noteq> entry dir (rebuilt st)")
        case True
        with Inr remove show ?thesis by (auto simp: keeps_triple intro: triple_pre)
      next
        case False
        with Inr show ?thesis by (auto simp: triple_def io_iffs)
      qed
    qed
  qed
  show ?thesis
    unfolding stage_drop_def
    by (rule keeps_if [OF keeps_basic(1)], rule keeps_bind [OF keeps_result [OF keeps_stage_check [OF name_host [OF laws]]]],
        rule keeps_if [OF keeps_basic(1)]) (use body in \<open>simp add: keeps_triple\<close>)
qed

end
