(* ===== verification/Recovery_Safety.thy ===== *)
theory Recovery_Safety
  imports Recovery_Custody
begin

text \<open>
  The custody theorems of recovery: whatever fails, the original database file keeps a name, and
  which name it is can be told from the result.
\<close>

section \<open>Creating the stage\<close>

lemma triple_bind_pair:
  assumes "triple P (io_bind m (\<lambda>x. io_bind (n x) (\<lambda>y. io_return (x, y)))) R E"
    and "\<And>x y. triple (R (x, y)) (K x y) Q E"
  shows "triple P (io_bind m (\<lambda>x. io_bind (n x) (K x))) Q E"
proof -
  have eq: "io_bind m (\<lambda>x. io_bind (n x) (K x)) =
      io_bind (io_bind m (\<lambda>x. io_bind (n x) (\<lambda>y. io_return (x, y)))) (\<lambda>(x, y). K x y)"
    by (rule ext) (auto simp: io_bind_def io_return_def split: option.splits sum.splits)
  have rest: "triple (R z) (case z of (x, y) \<Rightarrow> K x y) Q E" for z
    using assms(2) by (cases z) simp
  show ?thesis unfolding eq by (rule triple_bind [OF assms(1) rest])
qed

text \<open>A file created exclusively has an inode of its own.\<close>

lemma fresh_file_triple:
  assumes "name_laws H dir held"
  shows "triple (\<lambda>w. held w e = Some i)
     (io_bind (private_file H p) (\<lambda>f. io_bind (io_map_err g (call (fstat H f))) (\<lambda>md. io_return (f, md))))
     (\<lambda>x w. held w e = Some i \<and> identity_of (snd x) \<noteq> i \<and> held w (entry dir p) = Some (identity_of (snd x)))
     (\<lambda>_ w. held w e = Some i)" (is "triple ?P ?m _ _")
proof -
  note h = host_keepsD [OF name_host [OF assms, of e i]]
  have k: "keeps ?P ?m" unfolding private_file_def by (intro keeps_intros h)
  show ?thesis
  proof (rule tripleI)
    fix w x w'
    assume w: "?P w" and r: "?m w = Some (Inr x, w')"
    then obtain f w1 where c: "create_new H p 0x180 w = (Inr f, w1)" and s: "fstat H f w1 = (Inr (snd x), w')"
      by (auto simp: private_file_def host_iffs)
    from keepsD [OF k w r] name_create [OF assms c s] w
    show "held w' e = Some i \<and> identity_of (snd x) \<noteq> i \<and> held w' (entry dir p) = Some (identity_of (snd x))"
      by metis
  qed (use keepsD [OF k] in blast)
qed

lemma or_drop_triple:
  assumes "triple P m Q (\<lambda>_. R)" and "keeps R (stage_drop H st :: ('w, dactyl_error, unit) io)"
  shows "triple P (or_drop H st m :: ('w, dactyl_error, 'b) io) Q (\<lambda>_. R)"
  unfolding or_drop_def
proof (rule triple_bind)
  show "triple P (io_result m) (\<lambda>r w. case r of Inl _ \<Rightarrow> R w | Inr x \<Rightarrow> Q x w) (\<lambda>_. R)"
    by (rule triple_result) (use assms(1) in simp)
  fix r :: "dactyl_error + 'b"
  have failed: "triple R (io_bind (stage_drop H st) (\<lambda>_. io_fail e) :: ('w, dactyl_error, 'b) io) Q (\<lambda>_. R)" for e
    using assms(2) unfolding keeps_triple by (rule triple_bind) (rule triple_fail)
  show "triple (\<lambda>w. case r of Inl _ \<Rightarrow> R w | Inr x \<Rightarrow> Q x w)
      (case r of Inl e \<Rightarrow> io_bind (stage_drop H st) (\<lambda>_. io_fail e) | Inr x \<Rightarrow> io_return x) Q (\<lambda>_. R)"
  proof (cases r)
    case (Inl e)
    show ?thesis unfolding Inl sum.case by (rule failed)
  next
    case (Inr x)
    show ?thesis unfolding Inr sum.case by (rule triple_return)
  qed
qed

text \<open>
  What holds of a stage that exists: its file is where it says, and neither that file nor its
  journal is the one named by \<open>e\<close>.
\<close>

definition stage_safe :: "identity \<Rightarrow> stage \<Rightarrow> bool" where
  "stage_safe i st \<longleftrightarrow> st_file_identity st \<noteq> i \<and> st_journal_identity st \<noteq> Some i \<and>
     st_journal_identity st \<noteq> Some (st_file_identity st)"

lemma stage_journal_triple:
  assumes "name_laws H dir held"
  shows "triple (\<lambda>w. held w e = Some i \<and> held w e' = Some i') (stage_journal H st)
     (\<lambda>j w. held w e = Some i \<and> held w e' = Some i' \<and> j \<noteq> i \<and> j \<noteq> i') (\<lambda>_ w. held w e = Some i)"
proof -
  note f = triple_conj [OF fresh_file_triple [OF assms, of e i] fresh_file_triple [OF assms, of e' i']]
  show ?thesis
    unfolding stage_journal_def
    by (rule triple_bind_pair [OF triple_conseq [OF f, where E' = "\<lambda>_ w. held w e = Some i" and
          Q' = "\<lambda>x w. held w e = Some i \<and> held w e' = Some i' \<and> identity_of (snd x) \<noteq> i \<and> identity_of (snd x) \<noteq> i'"]])
      (auto simp: triple_def io_apply)
qed

text \<open>From the existing file on: ownership, the journal, the last checks.\<close>

definition stage_ready :: "('w \<Rightarrow> string list \<Rightarrow> identity option) \<Rightarrow> (string list \<Rightarrow> string list) \<Rightarrow>
    string list \<Rightarrow> identity \<Rightarrow> stage \<Rightarrow> 'w \<Rightarrow> bool" where
  "stage_ready held dir e i st w \<longleftrightarrow> held w e = Some i \<and> stage_safe i st \<and>
     held w (entry dir (rebuilt st)) = Some (st_file_identity st)"

lemma stage_owned_triple:
  assumes laws: "name_laws H dir held"
    and st: "st_file_identity st \<noteq> i" "st_journal_identity st = None"
  shows "triple (\<lambda>w. held w e = Some i \<and> held w (entry dir (rebuilt st)) = Some (st_file_identity st))
     (or_drop H st (io_bind (take_ownership H st metadata) (\<lambda>_. stage_journal H st)))
     (\<lambda>j. stage_ready held dir e i (st\<lparr>st_journal_identity := Some j\<rparr>)) (\<lambda>_ w. held w e = Some i)"
    (is "triple ?P _ _ _")
proof (rule or_drop_triple)
  have own: "triple ?P (take_ownership H st metadata) (\<lambda>_. ?P) (\<lambda>_ w. held w e = Some i)"
    using keeps_conj [OF keeps_take_ownership keeps_take_ownership, OF name_host name_host, OF laws laws]
    by (rule triple_conseq [OF iffD1 [OF keeps_triple]]) auto
  show "triple ?P (io_bind (take_ownership H st metadata) (\<lambda>_. stage_journal H st))
      (\<lambda>j. stage_ready held dir e i (st\<lparr>st_journal_identity := Some j\<rparr>)) (\<lambda>_ w. held w e = Some i)"
    by (rule triple_bind [OF own], rule triple_conseq [OF stage_journal_triple [OF laws, of e i "entry dir (rebuilt st)" "st_file_identity st" st]])
      (use st(1) in \<open>auto simp: stage_ready_def stage_safe_def rebuilt_def\<close>)
qed (rule stage_drop_keeps [OF laws], use st in simp_all)

lemma keeps_const: "keeps (\<lambda>_. c) m"
  by (simp add: keeps_def)

lemma stage_checked_triple:
  assumes laws: "name_laws H dir held"
  shows "triple (stage_ready held dir e i st)
     (or_drop H st (io_bind (stage_check H st) (\<lambda>_. io_bind (sync_parent H (st_path st)) (\<lambda>_. io_return st))))
     (stage_ready held dir e i) (\<lambda>_ w. held w e = Some i)"
proof (cases "stage_safe i st")
  case True
  show ?thesis
  proof (rule or_drop_triple)
    have "keeps (stage_ready held dir e i st) (io_bind (stage_check H st) (\<lambda>_. sync_parent H (st_path st)))"
      unfolding stage_ready_def
      by (intro keeps_conj keeps_const keeps_bind keeps_stage_check keeps_sync_parent name_host [OF laws])
    then have "triple (stage_ready held dir e i st)
        (io_bind (io_bind (stage_check H st) (\<lambda>_. sync_parent H (st_path st))) (\<lambda>_. io_return st))
        (stage_ready held dir e i) (\<lambda>_. stage_ready held dir e i st)"
      unfolding keeps_triple by (rule triple_bind) (rule triple_return)
    then show "triple (stage_ready held dir e i st)
        (io_bind (stage_check H st) (\<lambda>_. io_bind (sync_parent H (st_path st)) (\<lambda>_. io_return st)))
        (stage_ready held dir e i) (\<lambda>_ w. held w e = Some i)"
      unfolding io_bind_assoc by (rule triple_conseq) (simp_all add: stage_ready_def)
  qed (rule stage_drop_keeps [OF laws], use True in \<open>simp_all add: stage_safe_def\<close>)
qed (simp add: triple_def stage_ready_def)

lemma stage_in_triple:
  assumes laws: "name_laws H dir held"
  shows "triple (\<lambda>w. held w e = Some i) (stage_in H parent_path parent_identity metadata path)
     (stage_ready held dir e i) (\<lambda>_ w. held w e = Some i)"
proof -
  have look: "triple (\<lambda>w. held w e = Some i)
      (io_map_err (storage_io ''inspect private recovery directory'') (call (lstat H path)))
      (\<lambda>_ w. held w e = Some i) (\<lambda>_ w. held w e = Some i)"
    unfolding keeps_triple [symmetric] by (intro keeps_intros host_keepsD [OF name_host [OF laws]])
  have owned: "triple (\<lambda>w. held w e = Some i \<and> k \<noteq> i \<and> held w (entry dir (path_join path ''rebuilt.db'')) = Some k)
      (or_drop H st (io_bind (take_ownership H st metadata) (\<lambda>_. stage_journal H st)))
      (\<lambda>j. stage_ready held dir e i (st\<lparr>st_journal_identity := Some j\<rparr>)) (\<lambda>_ w. held w e = Some i)"
    if "st_path st = path" "st_file_identity st = k" "st_journal_identity st = None" for st k
  proof (cases "k = i")
    case False
    show ?thesis
      by (rule triple_pre [OF stage_owned_triple [OF laws, of st i e metadata]])
        (use that False in \<open>auto simp: rebuilt_def\<close>)
  qed (simp add: triple_def)
  show ?thesis
    unfolding stage_in_def Let_def
    by (intro triple_bind [OF look] triple_if triple_fail triple_bind_pair [OF fresh_file_triple [OF laws]]
        triple_bind [OF owned] stage_checked_triple [OF laws]) simp_all
qed

lemma stage_create_triple:
  assumes laws: "name_laws H dir held"
  shows "triple (\<lambda>w. held w e = Some i) (stage_create H source md)
     (stage_ready held dir e i) (\<lambda>_ w. held w e = Some i)"
proof -
  let ?P = "\<lambda>w. held w e = Some i"
  note hk = name_host [OF laws, of e i]
  have k: "triple ?P (ask (now_nanos H)) (\<lambda>_. ?P) (\<lambda>_. ?P)"
    "triple ?P (check_directory H p) (\<lambda>_. ?P) (\<lambda>_. ?P)"
    "triple ?P (fresh_directory H candidate attempts) (\<lambda>_. ?P) (\<lambda>_. ?P)" for p candidate attempts
    unfolding keeps_triple [symmetric]
    by (intro keeps_ask host_keepsD [OF hk] keeps_check_directory [OF hk] keeps_fresh_directory [OF hk])+
  show ?thesis
    unfolding stage_create_def stage_create_with_nonce_def Let_def
    by (intro triple_bind [OF k(1)] triple_bind [OF k(2)] triple_if triple_bind [OF k(3)]
        triple_fail stage_in_triple [OF laws])
qed

section \<open>The state of a recovery\<close>

text \<open>A property of the world and of the bookkeeping; the adapter does not matter to it.\<close>

definition rec_inv ::
  "('w \<Rightarrow> bool) \<Rightarrow> (stage \<Rightarrow> (string \<times> string \<times> identity) list \<Rightarrow> bool) \<Rightarrow> 'w recovering \<Rightarrow> bool" where
  "rec_inv P R s \<longleftrightarrow> P (rec_world s) \<and> R (rec_stage s) (rec_moved s)"

lemma triple_on_rec:
  assumes "triple P m Q E"
  shows "triple (rec_inv P R) (on_rec m) (\<lambda>x. rec_inv (Q x) R) (\<lambda>e. rec_inv (E e) R)"
  using assms by (auto simp: triple_def rec_inv_def on_rec_def split: option.splits)

lemma keeps_on_rec [keeps_intros]: "keeps P m \<Longrightarrow> keeps (rec_inv P R) (on_rec m)"
  unfolding keeps_triple by (rule triple_on_rec)

lemma keeps_rec_gets [keeps_intros]: "keeps I (rec_gets f)"
  by (auto simp: keeps_def rec_gets_def)

lemma keeps_rec_modify: "(\<And>s. I s \<Longrightarrow> I (f s)) \<Longrightarrow> keeps I (rec_modify f)"
  by (auto simp: keeps_def rec_modify_def)

lemma keeps_close_adapter:
  assumes "sqlite_keeps P S"
  shows "keeps (rec_inv P R) (close_adapter S)"
  by (auto simp: keeps_def close_adapter_def rec_inv_def set_database_def split: prod.splits
      dest: keeps_close [OF assms])

lemma keeps_reopen:
  assumes "host_keeps P H" and "sqlite_keeps P S"
  shows "keeps (rec_inv P R) (reopen_connection H S path)"
  unfolding reopen_connection_def
  by (intro keeps_intros keeps_open_database keeps_configure [where P = "\<lambda>_. P"] sqlite_keeps_statements keeps_close_adapter
      keeps_file_identity keeps_rec_modify assms) (simp_all add: rec_inv_def set_database_def)

section \<open>Where the files are\<close>

definition sidecar_moves :: "string \<Rightarrow> string \<Rightarrow> (string \<times> string \<times> identity) list \<Rightarrow> bool" where
  "sidecar_moves source archive ms \<longleftrightarrow>
     (\<forall>m \<in> set ms. \<exists>suffix \<in> set sidecars. fst m = sidecar_path source suffix \<and> fst (snd m) = sidecar_path archive suffix)"

definition stage_is :: "string \<Rightarrow> identity \<Rightarrow> identity \<Rightarrow> stage \<Rightarrow> bool" where
  "stage_is T fid orig st \<longleftrightarrow> rebuilt st = T \<and> st_file_identity st = fid \<and> stage_safe orig st"

text \<open>The bookkeeping before the first move, and after it.\<close>

definition unmoved :: "string \<Rightarrow> identity \<Rightarrow> identity \<Rightarrow> stage \<Rightarrow> (string \<times> string \<times> identity) list \<Rightarrow> bool" where
  "unmoved T fid orig st ms \<longleftrightarrow> stage_is T fid orig st \<and> ms = []"

definition moved_first ::
  "string \<Rightarrow> string \<Rightarrow> string \<Rightarrow> identity \<Rightarrow> identity \<Rightarrow> stage \<Rightarrow> (string \<times> string \<times> identity) list \<Rightarrow> bool" where
  "moved_first source archive T fid orig st ms \<longleftrightarrow> stage_is T fid orig st \<and>
     (\<exists>rest. ms = (source, archive, orig) # rest \<and> sidecar_moves source archive rest)"

text \<open>What is assumed of the host, of SQLite and of the two paths.\<close>

definition recovery_setting ::
  "'w host_api \<Rightarrow> 'w sqlite_api \<Rightarrow> (string list \<Rightarrow> string list) \<Rightarrow> ('w \<Rightarrow> string list \<Rightarrow> identity option) \<Rightarrow>
     string \<Rightarrow> string \<Rightarrow> bool" where
  "recovery_setting H S dir held source archive \<longleftrightarrow>
     name_laws H dir held \<and> sqlite_names S held \<and> ends_in_name source \<and> ends_in_name archive \<and>
     \<not> sidecar_name (last_piece source) \<and> \<not> sidecar_name (last_piece archive)"

lemma recovery_settingD:
  assumes "recovery_setting H S dir held source archive"
  shows set_laws: "name_laws H dir held"
    and set_host: "host_keeps (\<lambda>w. held w e = Some i) H"
    and set_source: "sqlite_keeps (\<lambda>w. held w (entry dir source) = Some i) S"
    and set_archive: "sqlite_keeps (\<lambda>w. held w (entry dir archive) = Some i) S"
    and set_rebuilt: "sqlite_keeps (\<lambda>w. held w (entry dir (rebuilt st)) = Some i) S"
proof -
  note a = assms [unfolded recovery_setting_def]
  show "name_laws H dir held" using a by blast
  then show "host_keeps (\<lambda>w. held w e = Some i) H" by (rule name_host)
  have S: "sqlite_keeps (\<lambda>w. held w e = Some i) S" if "e \<noteq> []" "\<not> sidecar_name (last e)" for e i
    using a that unfolding sqlite_names_def by blast
  show "sqlite_keeps (\<lambda>w. held w (entry dir source) = Some i) S"
    by (rule S) (use a in \<open>simp_all add: entry_name\<close>)
  show "sqlite_keeps (\<lambda>w. held w (entry dir archive) = Some i) S"
    by (rule S) (use a in \<open>simp_all add: entry_name\<close>)
  show "sqlite_keeps (\<lambda>w. held w (entry dir (rebuilt st)) = Some i) S"
    by (rule S) (use rebuilt_entry [of dir st] rebuilt_no_sidecar in simp_all)
qed

lemma setting_entries:
  assumes "recovery_setting H S dir held source archive"
    and "validate_recovery_paths source archive = Inr ()"
  shows source_not_archive: "\<not> beneath (entry dir source) (entry dir archive)"
    and sidecar_not_archive: "suffix \<in> set sidecars \<Longrightarrow>
      \<not> beneath (entry dir (sidecar_path source suffix)) (entry dir archive)"
    and archived_not_archive: "suffix \<in> set sidecars \<Longrightarrow>
      \<not> beneath (entry dir (sidecar_path archive suffix)) (entry dir archive)"
    and sidecar_not_rebuilt: "suffix \<in> set sidecars \<Longrightarrow>
      entry dir (rebuilt st) \<noteq> entry dir (sidecar_path source suffix)"
proof -
  have n: "ends_in_name source" "ends_in_name archive" using assms(1) by (simp_all add: recovery_setting_def)
  note v = validated_siblings [OF assms(2) n]
  note e = entry_name [OF n(1)] entry_name [OF n(2)]
  show "\<not> beneath (entry dir source) (entry dir archive)"
    unfolding e v(1) by (rule not_beneath_sibling [OF not_sym [OF v(2)]])
  assume s: "suffix \<in> set sidecars"
  show "\<not> beneath (entry dir (sidecar_path source suffix)) (entry dir archive)"
    unfolding entry_sidecar [OF n(1) s] e v(1) by (rule not_beneath_sibling [OF not_sym [OF v(3) [OF s]]])
  show "\<not> beneath (entry dir (sidecar_path archive suffix)) (entry dir archive)"
    unfolding entry_sidecar [OF n(2) s] e
    by (rule not_beneath_sibling) (use sidecar_nonempty [OF s] in simp)
  have "sidecar_name (last_piece source @ suffix)"
    using s by (auto simp: sidecar_name_def sidecars_def ends_with_def starts_with_iff)
  then have "last_piece source @ suffix \<noteq> ''rebuilt.db''" using rebuilt_no_sidecar by metis
  then show "entry dir (rebuilt st) \<noteq> entry dir (sidecar_path source suffix)"
    using rebuilt_entry [of dir st] by (auto simp: entry_sidecar [OF n(1) s])
qed

section \<open>Moving\<close>

lemma keeps_both: "keeps P m \<Longrightarrow> keeps Q m \<Longrightarrow> triple (\<lambda>w. P w \<and> Q w) m (\<lambda>_ w. P w \<and> Q w) (\<lambda>_. P)"
  unfolding keeps_def triple_def by blast

lemma move_sidecar_triple:
  assumes set: "recovery_setting H S dir held source archive"
    and valid: "validate_recovery_paths source archive = Inr ()" and suffix: "suffix \<in> set sidecars"
  shows "triple (rec_inv (\<lambda>w. held w (entry dir archive) = Some orig \<and> held w (entry dir (rebuilt st)) = Some fid)
        (moved_first source archive T fid orig))
     (move_sidecar H source archive suffix)
     (\<lambda>_. rec_inv (\<lambda>w. held w (entry dir archive) = Some orig \<and> held w (entry dir (rebuilt st)) = Some fid)
        (moved_first source archive T fid orig))
     (\<lambda>_. rec_inv (\<lambda>w. held w (entry dir archive) = Some orig) (moved_first source archive T fid orig))"
    (is "triple (rec_inv ?P ?R) _ _ (\<lambda>_. rec_inv ?E ?R)")
proof -
  let ?from = "sidecar_path source suffix" and ?to = "sidecar_path archive suffix"
  note laws = set_laws [OF set] and host = set_host [OF set]
  have both: "triple ?P m (\<lambda>_. ?P) (\<lambda>_. ?E)" if "\<And>e i. keeps (\<lambda>w. held w e = Some i) m" for m :: "('a, 'x, 'y) io"
    by (rule keeps_both [OF that that])
  have reg: "triple ?P (regular H ?from)
      (\<lambda>md w. ?P w \<and> held w (entry dir ?from) = Some (identity_of md)) (\<lambda>_. ?E)"
    by (rule triple_conseq [OF triple_conj [OF both [OF keeps_regular [OF host]] regular_triple [OF laws]]]) simp_all
  have move: "triple (\<lambda>w. ?P w \<and> held w (entry dir ?from) = Some k) (move_noreplace H ?from ?to j) (\<lambda>_. ?P) (\<lambda>_. ?E)" for k j
    by (rule triple_conseq [OF triple_conj [OF move_keeps [OF laws, of "entry dir archive" orig ?from k ?to j]
            move_keeps [OF laws, of "entry dir (rebuilt st)" fid ?from k ?to j]]])
      (use sidecar_not_archive [OF set valid suffix] sidecar_not_rebuilt [OF set valid suffix] in auto)
  have logged: "triple (rec_inv ?P ?R) (rec_modify (\<lambda>s. s\<lparr>rec_moved := rec_moved s @ [(?from, ?to, k)]\<rparr>))
      (\<lambda>_. rec_inv ?P ?R) (\<lambda>_. rec_inv ?E ?R)" for k
    using suffix by (auto simp: triple_def rec_modify_def rec_inv_def moved_first_def sidecar_moves_def)
  show ?thesis
    unfolding move_sidecar_def move_original_def
  proof (rule triple_bind [OF triple_result, where R = "\<lambda>_. rec_inv ?P ?R"], goal_cases)
    case 1
    show ?case
      by (rule triple_conseq [OF triple_on_rec [OF iffD1 [OF keeps_triple keeps_conj [OF keeps_call keeps_call]]]])
        (simp_all add: host_keepsD [OF host])
  next
    case (2 r)
    show ?case
    proof (cases r)
      case (Inl e)
      show ?thesis unfolding Inl sum.case by (intro triple_if triple_return triple_fail) (auto simp: rec_inv_def)
    next
      case (Inr md)
      show ?thesis unfolding Inr sum.case
        by (rule triple_bind [OF triple_on_rec [OF reg]], rule triple_bind [OF triple_on_rec [OF move] logged])
    qed
  qed
qed

text \<open>The originals: where they can be when preserving them stopped.\<close>

definition not_lost ::
  "('w \<Rightarrow> string list \<Rightarrow> identity option) \<Rightarrow> (string list \<Rightarrow> string list) \<Rightarrow> string \<Rightarrow> string \<Rightarrow> string \<Rightarrow>
     identity \<Rightarrow> identity \<Rightarrow> 'w recovering \<Rightarrow> bool" where
  "not_lost held dir source archive T fid orig s \<longleftrightarrow>
     rec_inv (\<lambda>w. held w (entry dir source) = Some orig \<or> held w (entry dir archive) = Some orig) (unmoved T fid orig) s \<or>
     rec_inv (\<lambda>w. held w (entry dir archive) = Some orig) (moved_first source archive T fid orig) s"

lemma preserve_triple:
  assumes set: "recovery_setting H S dir held source archive"
    and valid: "validate_recovery_paths source archive = Inr ()" and fid: "fid \<noteq> orig"
  shows "triple (rec_inv (\<lambda>w. held w (entry dir source) = Some orig \<and> held w (entry dir (rebuilt st)) = Some fid)
        (unmoved T fid orig))
     (preserve H source archive orig)
     (\<lambda>_. rec_inv (\<lambda>w. held w (entry dir archive) = Some orig \<and> held w (entry dir (rebuilt st)) = Some fid)
        (moved_first source archive T fid orig))
     (\<lambda>_. not_lost held dir source archive T fid orig)"
proof -
  let ?P = "\<lambda>w. held w (entry dir source) = Some orig \<and> held w (entry dir (rebuilt st)) = Some fid"
  let ?Q = "\<lambda>w. held w (entry dir archive) = Some orig \<and> held w (entry dir (rebuilt st)) = Some fid"
  let ?U = "unmoved T fid orig" and ?R = "moved_first source archive T fid orig"
  let ?E = "not_lost held dir source archive T fid orig"
  note laws = set_laws [OF set] and host = set_host [OF set]
  have err0: "rec_inv ?P ?U s \<Longrightarrow> ?E s" and err1: "rec_inv ?Q ?R s \<Longrightarrow> ?E s"
    and err2: "rec_inv (\<lambda>w. held w (entry dir archive) = Some orig) ?R s \<Longrightarrow> ?E s" for s
    by (auto simp: not_lost_def rec_inv_def)
  have k0: "triple (rec_inv ?P ?U) (on_rec (absent_sidecars H archive)) (\<lambda>_. rec_inv ?P ?U) (\<lambda>_. ?E)"
    by (rule triple_conseq [OF triple_on_rec [OF iffD1 [OF keeps_triple keeps_conj [OF keeps_absent_sidecars keeps_absent_sidecars]]]])
      (auto intro: host dest: err0)
  have move: "triple (rec_inv ?P ?U) (on_rec (move_noreplace H source archive orig)) (\<lambda>_. rec_inv ?Q ?U) (\<lambda>_. ?E)"
    by (rule triple_conseq [OF triple_on_rec [where R = ?U, OF triple_conj [OF move_both [OF laws fid, of "entry dir (rebuilt st)" source archive orig]
              move_moves [OF laws, of source orig archive orig]]]])
      (auto simp: rec_inv_def not_lost_def)
  have logged: "triple (rec_inv ?Q ?U) (rec_modify (\<lambda>s. s\<lparr>rec_moved := rec_moved s @ [(source, archive, orig)]\<rparr>))
      (\<lambda>_. rec_inv ?Q ?R) (\<lambda>_. ?E)"
    by (auto simp: triple_def rec_modify_def rec_inv_def unmoved_def moved_first_def sidecar_moves_def)
  have sidecar: "triple (rec_inv ?Q ?R) (io_traverse (move_sidecar H source archive) sidecars) (\<lambda>_. rec_inv ?Q ?R) (\<lambda>_. ?E)"
    by (rule triple_traverse, rule triple_conseq [OF move_sidecar_triple [OF set valid]]) (auto dest: err2)
  have k1: "triple (rec_inv ?Q ?R) (on_rec m) (\<lambda>_. rec_inv ?Q ?R) (\<lambda>_. ?E)"
    if "\<And>e i. keeps (\<lambda>w. held w e = Some i) m" for m :: "('a, dactyl_error, 'y) io"
    by (rule triple_conseq [OF triple_on_rec [OF iffD1 [OF keeps_triple keeps_conj [OF that that]]]]) (auto dest: err1)
  have last: "triple (rec_inv ?Q ?R) (io_bind (rec_gets rec_stage) (\<lambda>st'. on_rec (stage_check H st'))) (\<lambda>_. rec_inv ?Q ?R) (\<lambda>_. ?E)"
    by (rule triple_bind [where R = "\<lambda>_. rec_inv ?Q ?R"], simp add: triple_def rec_gets_def,
        rule k1, rule keeps_stage_check [OF host])
  show ?thesis
    unfolding preserve_def move_original_def
    by (rule triple_bind [OF k0], rule triple_bind [OF triple_bind [OF move logged]], rule triple_bind [OF sidecar],
        rule triple_bind [OF k1 [OF keeps_sync_files [OF host]] last])
qed

lemma activate_triple:
  assumes set: "recovery_setting H S dir held source archive" and fid: "fid \<noteq> orig"
  shows "triple (rec_inv (\<lambda>w. held w (entry dir archive) = Some orig \<and> held w (entry dir T) = Some fid)
        (moved_first source archive T fid orig))
     (activate H source)
     (\<lambda>_. rec_inv (\<lambda>w. held w (entry dir archive) = Some orig \<and> held w (entry dir source) = Some fid)
        (moved_first source archive T fid orig))
     (\<lambda>_. not_lost held dir source archive T fid orig)"
proof -
  let ?P = "\<lambda>w. held w (entry dir archive) = Some orig \<and> held w (entry dir T) = Some fid"
  let ?Q = "\<lambda>w. held w (entry dir archive) = Some orig \<and> held w (entry dir source) = Some fid"
  let ?R = "moved_first source archive T fid orig" and ?E = "not_lost held dir source archive T fid orig"
  note laws = set_laws [OF set] and host = set_host [OF set]
  have err: "rec_inv ?P ?R s \<Longrightarrow> ?E s" and err2: "rec_inv (\<lambda>w. held w (entry dir archive) = Some orig) ?R s \<Longrightarrow> ?E s" for s
    by (auto simp: not_lost_def rec_inv_def)
  have k0: "triple (rec_inv ?P ?R) (on_rec (absent_sidecars H source)) (\<lambda>_. rec_inv ?P ?R) (\<lambda>_. ?E)"
    by (rule triple_conseq [OF triple_on_rec [OF iffD1 [OF keeps_triple keeps_conj [OF keeps_absent_sidecars keeps_absent_sidecars]]]])
      (auto intro: host dest: err)
  have get: "triple (rec_inv ?P ?R) (rec_gets rec_stage) (\<lambda>st s. rec_inv ?P ?R s \<and> rebuilt st = T) (\<lambda>_. ?E)"
    by (auto simp: triple_def rec_gets_def rec_inv_def moved_first_def stage_is_def)
  have move: "triple (\<lambda>s. rec_inv ?P ?R s \<and> rebuilt st = T) (on_rec (move_noreplace H (rebuilt st) source j)) (\<lambda>_. rec_inv ?Q ?R) (\<lambda>_. ?E)" for st j
  proof (cases "rebuilt st = T")
    case True
    show ?thesis unfolding True
      by (rule triple_conseq [OF triple_on_rec [OF move_both [OF laws not_sym [OF fid], of "entry dir archive" T source j]]])
        (auto dest: err2)
  qed (simp add: triple_def)
  show ?thesis
    unfolding activate_def by (rule triple_bind [OF k0], rule triple_bind [OF get move])
qed

end
