(* ===== verification/Recovery_Outcome.thy ===== *)
theory Recovery_Outcome
  imports Recovery_Safety
begin

text \<open>
  The outcome of recovery: the rollback, the failed activation and the whole call, and what its
  result says about the files.
\<close>

section \<open>Rolling back\<close>

definition rollback_failed :: "dactyl_error \<Rightarrow> bool" where
  "rollback_failed e \<longleftrightarrow> adapter_code e = Some ''recovery_rollback_failed''"

lemma rollback_failed_error [simp]: "rollback_failed (recovery_rollback_error e r)"
  by (simp add: rollback_failed_def recovery_rollback_error_def adapter_with_code_def)

text \<open>An error that does not report a failed rollback has the original back in its place.\<close>

definition undone ::
  "('w \<Rightarrow> string list \<Rightarrow> identity option) \<Rightarrow> (string list \<Rightarrow> string list) \<Rightarrow> string \<Rightarrow> string \<Rightarrow>
     identity \<Rightarrow> dactyl_error \<Rightarrow> 'w \<Rightarrow> bool" where
  "undone held dir source archive orig e w \<longleftrightarrow>
     held w (entry dir source) = Some orig \<or> held w (entry dir archive) = Some orig \<and> rollback_failed e"

lemma move_back_append:
  "move_back H error (xs @ ys) = io_bind (move_back H error xs) (\<lambda>_. move_back H error ys)"
proof (induction xs)
  case Nil
  then show ?case by (simp add: io_bind_def io_return_def)
next
  case (Cons m xs)
  then show ?case by (cases m) (simp add: io_bind_assoc)
qed

lemma move_back_sidecars:
  assumes set: "recovery_setting H S dir held source archive"
    and valid: "validate_recovery_paths source archive = Inr ()" and "sidecar_moves source archive ms"
  shows "triple (\<lambda>w. held w (entry dir archive) = Some orig) (move_back H error ms)
     (\<lambda>_ w. held w (entry dir archive) = Some orig)
     (\<lambda>e w. held w (entry dir archive) = Some orig \<and> rollback_failed e)"
  using assms(3)
proof (induction ms)
  case Nil
  then show ?case by (simp add: triple_return)
next
  case (Cons m ms)
  obtain suffix where s: "suffix \<in> set sidecars" and m: "fst m = sidecar_path source suffix"
    "fst (snd m) = sidecar_path archive suffix"
    using Cons.prems by (auto simp: sidecar_moves_def)
  have move: "triple (\<lambda>w. held w (entry dir archive) = Some orig)
      (io_map_err (recovery_rollback_error error) (move_noreplace H (sidecar_path archive suffix) to i))
      (\<lambda>_ w. held w (entry dir archive) = Some orig)
      (\<lambda>e w. held w (entry dir archive) = Some orig \<and> rollback_failed e)" for to i
    by (rule triple_map_err, rule triple_conseq [OF move_keeps [OF set_laws [OF set], of _ orig]])
      (use archived_not_archive [OF set valid s] in auto)
  have "sidecar_moves source archive ms" using Cons.prems by (simp add: sidecar_moves_def)
  from triple_bind [OF move Cons.IH [OF this]] m show ?case
    by (cases m) simp
qed

lemma move_back_all:
  assumes set: "recovery_setting H S dir held source archive"
    and valid: "validate_recovery_paths source archive = Inr ()" and rest: "sidecar_moves source archive rest"
  shows "triple (\<lambda>w. held w (entry dir archive) = Some orig)
     (move_back H error (rev ((source, archive, orig) # rest)))
     (\<lambda>_ w. held w (entry dir source) = Some orig) (undone held dir source archive orig)"
proof -
  have "sidecar_moves source archive (rev rest)" using rest by (simp add: sidecar_moves_def)
  note first = move_back_sidecars [OF set valid this, of orig error]
  have last: "triple (\<lambda>w. held w (entry dir archive) = Some orig) (move_back H error [(source, archive, orig)])
      (\<lambda>_ w. held w (entry dir source) = Some orig) (undone held dir source archive orig)"
  proof -
    have "triple (\<lambda>w. held w (entry dir archive) = Some orig)
        (io_map_err (recovery_rollback_error error) (move_noreplace H archive source orig))
        (\<lambda>_ w. held w (entry dir source) = Some orig) (undone held dir source archive orig)"
      by (rule triple_map_err, rule triple_conseq [OF move_moves [OF set_laws [OF set]]]) (auto simp: undone_def)
    then show ?thesis unfolding move_back.simps by (rule triple_bind) (rule triple_return)
  qed
  show ?thesis
    unfolding rev.simps move_back_append
    by (rule triple_bind [OF triple_conseq [OF first] last]) (auto simp: undone_def)
qed

definition outcome ::
  "('w \<Rightarrow> string list \<Rightarrow> identity option) \<Rightarrow> (string list \<Rightarrow> string list) \<Rightarrow> string \<Rightarrow> string \<Rightarrow> string \<Rightarrow>
     identity \<Rightarrow> identity \<Rightarrow> dactyl_error \<Rightarrow> 'w recovering \<Rightarrow> bool" where
  "outcome held dir source archive T fid orig e =
     rec_inv (undone held dir source archive orig e) (\<lambda>st _. stage_is T fid orig st)"

text \<open>After the moves back: the check on the original, the sync and the reopening.\<close>

lemma original_checked:
  assumes "name_laws H dir held"
  shows "triple (\<lambda>w. held w (entry dir source) = Some orig \<or> held w (entry dir archive) = Some orig)
     (identity_check H orig source)
     (\<lambda>_ w. held w (entry dir source) = Some orig)
     (\<lambda>_ w. held w (entry dir source) = Some orig \<or> held w (entry dir archive) = Some orig)"
proof -
  note c = identity_check_triple [OF assms, of _ orig orig source]
  show ?thesis
    by (rule tripleI; elim disjE) (blast dest: triple_ok [OF c] triple_err [OF c])+
qed

lemma rollback_triple:
  assumes set: "recovery_setting H S dir held source archive"
    and valid: "validate_recovery_paths source archive = Inr ()"
  shows "triple (not_lost held dir source archive T fid orig) (rollback_original H S error source orig)
     (\<lambda>_ _. False) (outcome held dir source archive T fid orig)"
proof -
  let ?home = "\<lambda>w. held w (entry dir source) = Some orig" and ?st = "\<lambda>st _. stage_is T fid orig st"
  let ?some = "\<lambda>w. held w (entry dir source) = Some orig \<or> held w (entry dir archive) = Some orig"
  let ?O = "outcome held dir source archive T fid orig"
  note laws = set_laws [OF set] and host = set_host [OF set]
  have restored: "triple (not_lost held dir source archive T fid orig)
      (io_bind (rec_gets rec_moved) (\<lambda>moved. on_rec (move_back H error (rev moved))))
      (\<lambda>_. rec_inv ?some ?st) ?O"
  proof (rule triple_bind)
    show "triple (not_lost held dir source archive T fid orig) (rec_gets rec_moved)
        (\<lambda>ms s. not_lost held dir source archive T fid orig s \<and> rec_moved s = ms) ?O"
      by (auto simp: triple_def rec_gets_def)
    fix ms
    consider (none) "ms = []" | (moves) rest where "ms = (source, archive, orig) # rest" "sidecar_moves source archive rest"
      | (other) "\<And>s. \<not> (not_lost held dir source archive T fid orig s \<and> rec_moved s = ms)"
      unfolding not_lost_def rec_inv_def unmoved_def moved_first_def by blast
    then show "triple (\<lambda>s. not_lost held dir source archive T fid orig s \<and> rec_moved s = ms)
        (on_rec (move_back H error (rev ms))) (\<lambda>_. rec_inv ?some ?st) ?O"
    proof cases
      case none
      then show ?thesis
        by (auto simp: triple_def on_rec_def io_return_def not_lost_def rec_inv_def unmoved_def moved_first_def)
    next
      case moves
      show ?thesis
        unfolding moves(1)
        by (rule triple_conseq [OF triple_on_rec [where R = ?st, OF move_back_all [OF set valid moves(2), of orig error]]])
          (auto simp: not_lost_def rec_inv_def unmoved_def moved_first_def outcome_def)
    next
      case other
      then show ?thesis unfolding triple_def by blast
    qed
  qed
  have check: "triple (rec_inv ?some ?st)
      (io_map_err (recovery_rollback_error error) (on_rec (identity_check H orig source)))
      (\<lambda>_. rec_inv ?home ?st) ?O"
    by (rule triple_map_err, rule triple_conseq [OF triple_on_rec [where R = ?st, OF original_checked [OF laws]]])
      (auto simp: outcome_def rec_inv_def undone_def)
  have sync: "triple (rec_inv ?home ?st) (io_result (on_rec (sync_database_files H source True)))
      (\<lambda>_. rec_inv ?home ?st) ?O"
    by (rule triple_conseq [OF iffD1 [OF keeps_triple keeps_result [OF keeps_on_rec [OF keeps_sync_files [OF host]]]]])
      (auto simp: outcome_def rec_inv_def undone_def)
  have reopen: "triple (rec_inv ?home ?st) (io_result (reopen_connection H S source)) (\<lambda>_. rec_inv ?home ?st) ?O"
    by (rule triple_conseq [OF iffD1 [OF keeps_triple keeps_result [OF keeps_reopen [OF host set_source [OF set]]]]])
      (auto simp: outcome_def rec_inv_def undone_def)
  have finish: "triple (rec_inv ?home ?st) (case q of Inl rollback \<Rightarrow> io_fail (recovery_rollback_error error rollback)
      | Inr _ \<Rightarrow> io_fail error) (\<lambda>_ _. False) ?O" for q :: "dactyl_error + unit"
    by (cases q) (auto simp: triple_def io_apply outcome_def rec_inv_def undone_def)
  have split: "rollback_original H S error source orig =
      io_bind (io_bind (rec_gets rec_moved) (\<lambda>moved. on_rec (move_back H error (rev moved)))) (\<lambda>_.
      io_bind (io_map_err (recovery_rollback_error error) (on_rec (identity_check H orig source))) (\<lambda>_.
      io_bind (io_result (on_rec (sync_database_files H source True))) (\<lambda>sync.
      io_bind (io_result (reopen_connection H S source)) (\<lambda>reopen.
       case rbind sync (\<lambda>_. reopen) of
         Inl rollback \<Rightarrow> io_fail (recovery_rollback_error error rollback)
       | Inr _ \<Rightarrow> io_fail error))))"
    by (simp add: rollback_original_def io_bind_assoc)
  show ?thesis
    unfolding split
    by (rule triple_bind [OF restored], rule triple_bind [OF check], rule triple_bind [OF sync],
        rule triple_bind [OF reopen finish])
qed

section \<open>After the activation\<close>

lemma not_lost_moved:
  "rec_inv (\<lambda>w. held w (entry dir archive) = Some orig) (moved_first source archive T fid orig) s \<Longrightarrow>
     not_lost held dir source archive T fid orig s"
  by (simp add: not_lost_def)

lemma quarantine_keeps:
  assumes set: "recovery_setting H S dir held source archive"
    and valid: "validate_recovery_paths source archive = Inr ()"
  shows "keeps (rec_inv (\<lambda>w. held w (entry dir archive) = Some orig) (moved_first source archive T fid orig))
     (quarantine H source)"
proof -
  note host = set_host [OF set]
  have move: "keeps (\<lambda>w. held w (entry dir archive) = Some orig) (move_noreplace H source to i)" for to i
    unfolding keeps_triple
    by (rule triple_conseq [OF move_keeps [OF set_laws [OF set]]]) (use source_not_archive [OF set valid] in auto)
  show ?thesis
    unfolding quarantine_def
    by (intro keeps_intros keeps_rec_modify keeps_stage_check [OF host] keeps_identity_check [OF host]
        keeps_absent_sidecars [OF host] keeps_stage_sync [OF host] host_keepsD [OF host] move)
      (auto simp: rec_inv_def moved_first_def stage_is_def stage_safe_def rebuilt_def)
qed

lemma fail_activation_triple:
  assumes set: "recovery_setting H S dir held source archive"
    and valid: "validate_recovery_paths source archive = Inr ()"
  shows "triple (rec_inv (\<lambda>w. held w (entry dir archive) = Some orig) (moved_first source archive T fid orig))
     (fail_activation H S error source orig) (\<lambda>_ _. False) (outcome held dir source archive T fid orig)"
proof -
  let ?I = "rec_inv (\<lambda>w. held w (entry dir archive) = Some orig) (moved_first source archive T fid orig)"
  let ?O = "outcome held dir source archive T fid orig"
  have keep: "triple ?I m (\<lambda>_. ?I) (\<lambda>_. ?I)" if "keeps ?I m" for m :: "('a recovering, 'x, 'y) io"
    using that by (simp add: keeps_triple)
  have gets: "triple ?I (rec_gets f) (\<lambda>_. ?I) E" for f :: "'a recovering \<Rightarrow> 'y" and E :: "dactyl_error \<Rightarrow> 'a recovering \<Rightarrow> bool"
    by (auto simp: triple_def rec_gets_def)
  have results: "triple ?I (io_result m) (\<lambda>_. ?I) E" if "keeps ?I m"
    for m :: "('a recovering, dactyl_error, unit) io" and E :: "dactyl_error \<Rightarrow> 'a recovering \<Rightarrow> bool"
    by (rule triple_result [OF keep [OF that]])
  have close: "triple ?I (if b then io_return () else io_bind (io_result (close_adapter S)) (\<lambda>_. io_return ())) (\<lambda>_. ?I) E"
    for b and E :: "dactyl_error \<Rightarrow> 'a recovering \<Rightarrow> bool"
    by (intro triple_if triple_return triple_bind [OF results] keeps_close_adapter set_archive [OF set])
  have rollback: "triple ?I (rollback_original H S e source orig) (\<lambda>_ _. False) ?O" for e
    by (rule triple_pre [OF rollback_triple [OF set valid] not_lost_moved])
  have fail: "triple ?I (io_fail (recovery_rollback_error e r)) (\<lambda>_ _. False) ?O" for e r
    by (auto simp: triple_def io_apply outcome_def rec_inv_def undone_def moved_first_def)
  have finish: "triple ?I (case q of
         Inr _ \<Rightarrow> rollback_original H S e source orig
       | Inl r \<Rightarrow> io_bind (rec_gets (\<lambda>s. st_quarantined (rec_stage s))) (\<lambda>quarantined.
             if quarantined then rollback_original H S (recovery_rollback_error e r) source orig
             else io_fail (recovery_rollback_error e r))) (\<lambda>_ _. False) ?O" for q :: "dactyl_error + unit" and e
  proof (cases q)
    case (Inl r)
    show ?thesis unfolding Inl sum.case by (rule triple_bind [OF gets]) (intro triple_if rollback fail)
  next
    case (Inr u)
    show ?thesis unfolding Inr sum.case by (rule rollback)
  qed
  show ?thesis
    unfolding fail_activation_def
    by (rule triple_bind [OF gets], rule triple_bind [OF gets], rule triple_bind [OF close],
        rule triple_bind [OF results [OF quarantine_keeps [OF set valid]] finish])
qed

section \<open>The whole call\<close>

lemma activation_keeps:
  assumes set: "recovery_setting H S dir held source archive"
  shows "keeps (rec_inv (\<lambda>w. held w (entry dir archive) = Some orig \<and> held w (entry dir source) = Some fid) R)
     (activation H S source)"
proof -
  let ?P = "\<lambda>w. held w (entry dir archive) = Some orig \<and> held w (entry dir source) = Some fid"
  note host = set_host [OF set]
  have both: "keeps ?P m" if "\<And>e i. keeps (\<lambda>w. held w e = Some i) m" for m :: "('a, dactyl_error, unit) io"
    by (intro keeps_conj that)
  have reopen: "keeps (rec_inv ?P R) (reopen_connection H S source)"
  proof -
    have "keeps (rec_inv (\<lambda>w. held w (entry dir archive) = Some orig) (\<lambda>_ _. True)) (reopen_connection H S source)"
      "keeps (rec_inv (\<lambda>w. held w (entry dir source) = Some fid) R) (reopen_connection H S source)"
      by (intro keeps_reopen host set_archive [OF set] set_source [OF set])+
    from keeps_conj [OF this] show ?thesis by (simp add: rec_inv_def [abs_def] conj_ac)
  qed
  show ?thesis
    unfolding activation_def
    by (intro keeps_intros reopen both keeps_stage_sync [OF host] keeps_identity_check [OF host])
qed

text \<open>
  From the stage on: a success has the original in the archive and the rebuilt file, another
  inode, under the name of the database; a failure has the original under its own name, or in
  the archive when the error says that rolling back failed.
\<close>

lemma recover_staged_triple:
  assumes set: "recovery_setting H S dir held source archive"
    and valid: "validate_recovery_paths source archive = Inr ()" and fid: "fid \<noteq> identity_of md"
  shows "triple (rec_inv (\<lambda>w. held w (entry dir source) = Some (identity_of md) \<and>
          held w (entry dir (rebuilt st)) = Some fid) (unmoved (rebuilt st) fid (identity_of md)))
     (recover_staged H S J md source archive)
     (\<lambda>_. rec_inv (\<lambda>w. held w (entry dir archive) = Some (identity_of md) \<and> held w (entry dir source) = Some fid)
        (moved_first source archive (rebuilt st) fid (identity_of md)))
     (outcome held dir source archive (rebuilt st) fid (identity_of md))"
proof -
  let ?orig = "identity_of md" and ?T = "rebuilt st"
  let ?P = "\<lambda>w. held w (entry dir source) = Some ?orig \<and> held w (entry dir ?T) = Some fid"
  let ?Q = "\<lambda>w. held w (entry dir archive) = Some ?orig \<and> held w (entry dir ?T) = Some fid"
  let ?A = "\<lambda>w. held w (entry dir archive) = Some ?orig \<and> held w (entry dir source) = Some fid"
  let ?U = "unmoved ?T fid ?orig" and ?R = "moved_first source archive ?T fid ?orig"
  let ?N = "not_lost held dir source archive ?T fid ?orig" and ?O = "outcome held dir source archive ?T fid ?orig"
  note host = set_host [OF set]
  have before: "triple (rec_inv ?P ?U) m (\<lambda>_. rec_inv ?P ?U) ?O"
    if "keeps (rec_inv (\<lambda>w. held w (entry dir source) = Some ?orig) ?U) m"
      "keeps (rec_inv (\<lambda>w. held w (entry dir ?T) = Some fid) ?U) m" for m :: "('a recovering, dactyl_error, 'y) io"
    by (rule triple_conseq [OF iffD1 [OF keeps_triple keeps_conj [OF that]]])
      (auto simp: rec_inv_def outcome_def undone_def unmoved_def)
  have snapshot: "keeps P (rebuild_snapshot S J db temporary lock)" if "sqlite_keeps P S" for P db temporary lock
    unfolding rebuild_snapshot_def by (intro keeps_intros keeps_run_sql [where P = "\<lambda>_. P"] keeps_rebuild_database sqlite_keeps_statements that)
  have rollback: "triple ?N (rollback_original H S e source ?orig) Q ?O"
    for e and Q :: "recovery_result \<Rightarrow> 'a recovering \<Rightarrow> bool"
    by (rule triple_conseq [OF rollback_triple [OF set valid]]) simp_all
  have ended: "triple (rec_inv ?A ?R) (io_result (activation H S source)) (\<lambda>_. rec_inv ?A ?R) ?O"
    by (rule triple_result [OF iffD1 [OF keeps_triple activation_keeps [OF set]]])
  have failed: "triple (rec_inv ?A ?R) (fail_activation H S e source ?orig) Q ?O"
    for e and Q :: "recovery_result \<Rightarrow> 'a recovering \<Rightarrow> bool"
    by (rule triple_conseq [OF fail_activation_triple [OF set valid]]) (auto simp: rec_inv_def)
  have last: "triple (rec_inv ?A ?R) (case q of Inl e \<Rightarrow> fail_activation H S e source ?orig | Inr _ \<Rightarrow> io_return x)
      (\<lambda>_. rec_inv ?A ?R) ?O" for q :: "dactyl_error + unit" and x :: recovery_result
    using failed by (cases q) (auto intro: triple_return)
  have activated: "triple (rec_inv ?Q ?R) (io_result (activate H source))
      (\<lambda>q s. case q of Inl _ \<Rightarrow> ?N s | Inr _ \<Rightarrow> rec_inv ?A ?R s) ?O"
    by (rule triple_result) (use activate_triple [OF set fid] in simp)
  have second: "triple (\<lambda>s. case q of Inl _ \<Rightarrow> ?N s | Inr _ \<Rightarrow> rec_inv ?A ?R s)
      (case q of Inl e \<Rightarrow> rollback_original H S e source ?orig
       | Inr _ \<Rightarrow> io_bind (io_result (activation H S source)) (\<lambda>reopened.
           case reopened of Inl e \<Rightarrow> fail_activation H S e source ?orig | Inr _ \<Rightarrow> io_return x))
      (\<lambda>_. rec_inv ?A ?R) ?O" for q :: "dactyl_error + unit" and x :: recovery_result
    by (cases q) (simp_all add: rollback triple_bind [OF ended last])
  have preserved: "triple (rec_inv ?P ?U) (io_result (preserve H source archive ?orig))
      (\<lambda>q s. case q of Inl _ \<Rightarrow> ?N s | Inr _ \<Rightarrow> rec_inv ?Q ?R s) ?O"
    by (rule triple_result) (use preserve_triple [OF set valid fid] in simp)
  have first: "triple (\<lambda>s. case q of Inl _ \<Rightarrow> ?N s | Inr _ \<Rightarrow> rec_inv ?Q ?R s)
      (case q of Inl e \<Rightarrow> rollback_original H S e source ?orig
       | Inr _ \<Rightarrow> io_bind (io_result (activate H source)) (\<lambda>activated.
           case activated of Inl e \<Rightarrow> rollback_original H S e source ?orig
           | Inr _ \<Rightarrow> io_bind (io_result (activation H S source)) (\<lambda>reopened.
               case reopened of Inl e \<Rightarrow> fail_activation H S e source ?orig | Inr _ \<Rightarrow> io_return x)))
      (\<lambda>_. rec_inv ?A ?R) ?O" for q :: "dactyl_error + unit" and x :: recovery_result
    by (cases q) (simp_all add: rollback triple_bind [OF activated second])
  have st: "triple (rec_inv ?P ?U) (rec_gets rec_stage) (\<lambda>st' s. rec_inv ?P ?U s \<and> rebuilt st' = ?T) ?O"
    by (auto simp: triple_def rec_gets_def rec_inv_def unmoved_def stage_is_def)
  have rest: "triple (\<lambda>s. rec_inv ?P ?U s \<and> rebuilt st' = ?T)
      (io_bind (io_lift (lock_connection a)) (\<lambda>db.
       io_bind (on_rec (rebuild_snapshot S J db (rebuilt st') (lock_timeout (adp_options a)))) (\<lambda>rebuild.
       io_bind (on_rec (verify_staged H md source st')) (\<lambda>_.
       io_bind (close_adapter S) (\<lambda>_.
       io_bind (io_result (preserve H source archive ?orig)) (\<lambda>q.
        case q of Inl e \<Rightarrow> rollback_original H S e source ?orig
       | Inr _ \<Rightarrow> io_bind (io_result (activate H source)) (\<lambda>activated.
           case activated of Inl e \<Rightarrow> rollback_original H S e source ?orig
           | Inr _ \<Rightarrow> io_bind (io_result (activation H S source)) (\<lambda>reopened.
               case reopened of Inl e \<Rightarrow> fail_activation H S e source ?orig | Inr _ \<Rightarrow> io_return (x rebuild)))))))))
      (\<lambda>_. rec_inv ?A ?R) ?O" for st' a and x :: "rebuild_result \<Rightarrow> recovery_result"
    by (rule triple_pre [where P = "rec_inv ?P ?U"], rule triple_bind [OF before], (intro keeps_intros)+,
        rule triple_bind [OF before], (intro keeps_intros snapshot set_source [OF set] set_rebuilt [OF set])+,
        rule triple_bind [OF before], (intro keeps_intros keeps_verify_staged [OF host])+,
        rule triple_bind [OF before], (intro keeps_close_adapter set_source [OF set] set_rebuilt [OF set])+,
        rule triple_bind [OF preserved first]) simp
  show ?thesis
    unfolding recover_staged_def
    by (rule triple_bind [OF before], (intro keeps_intros)+, rule triple_bind [OF st rest])
qed

section \<open>Properties\<close>

lemma inspect_original_Inr:
  assumes "name_laws H dir held" and "held w (entry dir source) = Some orig"
    and "inspect_original H a source archive w = Some (Inr md, w1)"
  shows "validate_recovery_paths source archive = Inr ()" "identity_of md = orig"
    "held w1 (entry dir source) = Some orig" "adp_identity a = Some orig"
proof -
  from assms(3) obtain v where "validate_recovery_paths source archive = Inr ()"
    and r: "regular H source w = Some (Inr md, v)" and i: "adp_identity a = Some (identity_of md)"
    unfolding inspect_original_def by (auto simp: io_iffs split: if_splits)
  then show "validate_recovery_paths source archive = Inr ()" by simp
  from triple_ok [OF regular_triple [OF assms(1)] _ r] have "held v (entry dir source) = Some (identity_of md)" by simp
  with keepsD [OF keeps_regular [OF name_host [OF assms(1)]] assms(2) r] show "identity_of md = orig" by simp
  with i show "adp_identity a = Some orig" by simp
  show "held w1 (entry dir source) = Some orig"
    by (rule keepsD [OF keeps_inspect_original [OF name_host [OF assms(1)]] assms(2,3)])
qed

text \<open>The calls of \<open>recover\<close> one after the other.\<close>

lemma recover_steps:
  assumes "recover H S J a options w = Some ((r, a'), w')"
  obtains (refused) e where "r = Inl e" "adp_path a = memory_path" "w' = w"
  | (inspected) e where "r = Inl e" "inspect_original H a (adp_path a) (preserve_original_at options) w = Some (Inl e, w')"
  | (unstaged) e md w1 where "r = Inl e"
      "inspect_original H a (adp_path a) (preserve_original_at options) w = Some (Inr md, w1)"
      "stage_create H (adp_path a) md w1 = Some (Inl e, w')"
  | (staged) md st w1 w2 s x where
      "inspect_original H a (adp_path a) (preserve_original_at options) w = Some (Inr md, w1)"
      "stage_create H (adp_path a) md w1 = Some (Inr st, w2)"
      "recover_staged H S J md (adp_path a) (preserve_original_at options)
         \<lparr>rec_world = w2, rec_adapter = a, rec_stage = st, rec_moved = []\<rparr> = Some (r, s)"
      "(stage_drop H (rec_stage s) :: ('a, dactyl_error, unit) io) (rec_world s) = Some (x, w')"
  using assms unfolding recover_def Let_def
  by (auto simp: io_iffs split: if_splits option.splits sum.splits prod.splits)

text \<open>From the stage on: the original is back or archived, and a success put another file in its place.\<close>

lemma staged_recovery_keeps:
  assumes set: "recovery_setting H S dir held (adp_path a) archive"
    and start: "held w (entry dir (adp_path a)) = Some orig"
    and inspected: "inspect_original H a (adp_path a) archive w = Some (Inr md, w1)"
    and created: "stage_create H (adp_path a) md w1 = Some (Inr st, w2)"
    and staged: "recover_staged H S J md (adp_path a) archive
       \<lparr>rec_world = w2, rec_adapter = a, rec_stage = st, rec_moved = []\<rparr> = Some (r, s)"
    and drop: "(stage_drop H (rec_stage s) :: ('a, dactyl_error, unit) io) (rec_world s) = Some (x, w')"
  shows "case r of
     Inr _ \<Rightarrow> held w' (entry dir (archive)) = Some orig \<and>
       st_file_identity st \<noteq> orig \<and> held w' (entry dir (adp_path a)) = Some (st_file_identity st)
   | Inl e \<Rightarrow> held w' (entry dir (adp_path a)) = Some orig \<or>
       held w' (entry dir (archive)) = Some orig \<and>
         adapter_code e = Some ''recovery_rollback_failed''"
proof -
  note laws = set_laws [OF set]
  note i = inspect_original_Inr [OF laws start inspected]
  let ?s0 = "\<lparr>rec_world = w2, rec_adapter = a, rec_stage = st, rec_moved = []\<rparr>"
  from triple_ok [OF stage_create_triple [OF laws] i(3) created]
  have ready: "stage_ready held dir (entry dir (adp_path a)) orig st w2" .
  then have apart: "entry dir (adp_path a) \<noteq> entry dir (rebuilt st)" "st_file_identity st \<noteq> orig"
    by (auto simp: stage_ready_def stage_safe_def)
  have pre: "rec_inv (\<lambda>w. held w (entry dir (adp_path a)) = Some (identity_of md) \<and>
        held w (entry dir (rebuilt st)) = Some (st_file_identity st))
      (unmoved (rebuilt st) (st_file_identity st) (identity_of md)) ?s0"
    using ready by (simp add: rec_inv_def unmoved_def stage_is_def stage_ready_def i(2))
  note t = recover_staged_triple [OF set i(1) apart(2) [folded i(2)], where J = J and st = st]
  note dropped = keepsD [OF stage_drop_keeps [OF laws]]
  show ?thesis
  proof (cases r)
    case (Inl e)
    with triple_err [OF t pre] staged
    have o: "outcome held dir (adp_path a) (archive) (rebuilt st) (st_file_identity st) orig e s"
      by (simp add: i(2))
    then have st: "st_journal_identity (rec_stage s) \<noteq> Some orig" "st_file_identity (rec_stage s) \<noteq> orig"
      by (auto simp: outcome_def rec_inv_def stage_is_def stage_safe_def)
    from o dropped [OF st(1) disjI1 [OF st(2)] _ drop] Inl show ?thesis
      by (auto simp: outcome_def rec_inv_def undone_def rollback_failed_def)
  next
    case (Inr res)
    with triple_ok [OF t pre] staged
    have o: "held (rec_world s) (entry dir (archive)) = Some orig"
      "held (rec_world s) (entry dir (adp_path a)) = Some (st_file_identity st)"
      "stage_is (rebuilt st) (st_file_identity st) orig (rec_stage s)"
      by (auto simp: rec_inv_def moved_first_def i(2))
    have st: "st_journal_identity (rec_stage s) \<noteq> Some orig" "st_file_identity (rec_stage s) \<noteq> orig"
      "st_journal_identity (rec_stage s) \<noteq> Some (st_file_identity st)"
      "entry dir (adp_path a) \<noteq> entry dir (rebuilt (rec_stage s))"
      using o(3) apart(1) by (auto simp: stage_is_def stage_safe_def)
    from dropped [OF st(1) disjI1 [OF st(2)] o(1) drop] dropped [OF st(3) disjI2 [OF st(4)] o(2) drop]
      apart(2)
    have "held w' (entry dir (archive)) = Some orig \<and>
        st_file_identity st \<noteq> orig \<and> held w' (entry dir (adp_path a)) = Some (st_file_identity st)" by blast
    with Inr show ?thesis by simp
  qed
qed

text \<open>
  C2: recovery never loses the database. The file that was under the database's name when
  recovery began is afterwards in the archive, with another file under the name of the database,
  when it succeeded; when it failed, at whatever call, it is back under its own name, unless the
  error is \<open>recovery_rollback_failed\<close>, and then it is at the latest in the archive.
\<close>

theorem recovery_keeps_the_original:
  assumes set: "recovery_setting H S dir held (adp_path a) (preserve_original_at options)"
    and start: "held w (entry dir (adp_path a)) = Some orig"
    and run: "recover H S J a options w = Some ((r, a'), w')"
  shows "case r of
     Inr _ \<Rightarrow> held w' (entry dir (preserve_original_at options)) = Some orig \<and>
       (\<exists>new. new \<noteq> orig \<and> held w' (entry dir (adp_path a)) = Some new)
   | Inl e \<Rightarrow> held w' (entry dir (adp_path a)) = Some orig \<or>
       held w' (entry dir (preserve_original_at options)) = Some orig \<and>
         adapter_code e = Some ''recovery_rollback_failed''"
  using run
proof (cases rule: recover_steps)
  case refused
  with start show ?thesis by simp
next
  case (inspected e)
  with keepsD [OF keeps_inspect_original [OF set_host [OF set]] start inspected(2)] show ?thesis by simp
next
  case (unstaged e md w1)
  note i = inspect_original_Inr [OF set_laws [OF set] start unstaged(2)]
  from triple_err [OF stage_create_triple [OF set_laws [OF set]] i(3) unstaged(3)] unstaged(1)
  show ?thesis by simp
next
  case (staged md st w1 w2 s x)
  from staged_recovery_keeps [OF set start staged] show ?thesis
    by (cases r) (auto simp del: split_paired_Ex)
qed

text \<open>The small host keeps the laws of names.\<close>

definition mh_held :: "'a mini_host_scheme \<Rightarrow> string list \<Rightarrow> identity option" where
  "mh_held w e =
     (case map_of (mh_names w) e of
        None \<Rightarrow> None
      | Some i \<Rightarrow>
          if mh_next w \<le> i then None
          else (case map_of (mh_inodes w) i of
                  None \<Rightarrow> None
                | Some n \<Rightarrow> if in_dir n then None else Some (1, i)))"

lemma entry_id: "entry (\<lambda>d. d) p = components p"
  by (cases "components p" rule: rev_cases) (simp_all add: entry_def)

lemma mh_held_Some: "mh_held w e = Some k \<longleftrightarrow>
    fst k = 1 \<and> map_of (mh_names w) e = Some (snd k) \<and> snd k < mh_next w \<and>
    (\<exists>n. map_of (mh_inodes w) (snd k) = Some n \<and> \<not> in_dir n)"
  by (cases k) (auto simp: mh_held_def split: option.splits)

lemma mh_lookup_Some: "mh_lookup p w = Some i \<longleftrightarrow> map_of (mh_names w) (components p) = Some i \<and> i < mh_next w"
  by (auto simp: mh_lookup_def split: option.splits)

lemma mh_add_keeps: "mh_lookup p w = None \<Longrightarrow> mh_held w e = Some k \<Longrightarrow> mh_held (mh_add p n w) e = Some k"
  by (auto simp: mh_held_Some mh_add_def mh_lookup_def)

lemma mini_host_held_keeps:
  "host_keeps (\<lambda>w :: 'a mini_host_scheme. mh_held w e = Some k) mini_host_api"
proof -
  have create: "mh_held w e = Some k \<Longrightarrow> mh_held (snd (mh_create_dir p m w)) e = Some k"
    "mh_held w e = Some k \<Longrightarrow> mh_held (snd (mh_create_new p m w)) e = Some k" for w :: "'a mini_host_scheme" and p m
    by (simp_all add: mh_create_dir_def mh_create_new_def mh_add_keeps)
  have sync: "mh_held w e = Some k \<Longrightarrow> mh_held (snd (mh_sync f w)) e = Some k" for w :: "'a mini_host_scheme" and f
    by (auto simp: mh_held_Some mh_sync_def split: list.split)
  have mode: "mh_held w e = Some k \<Longrightarrow> mh_held (snd (mh_set_mode f m w)) e = Some k" for w :: "'a mini_host_scheme" and f m
    by (auto simp: mh_held_Some mh_set_mode_def split: option.split)
  show ?thesis
    by (simp add: host_keeps_def call_keeps_def mini_host_api_def create sync mode mh_stat_def mh_open_def mh_read_def)
qed

lemma mini_host_name_laws: "name_laws mini_host_api (\<lambda>d. d) (mh_held :: 'a mini_host_scheme \<Rightarrow> _)"
proof -
  have lstat: "\<not> (md_is_file md \<and> md_is_dir md) \<and>
      (if md_is_dir md then mh_held w1 (components p) = None \<and> (\<forall>e. mh_held w1 e \<noteq> Some (identity_of md))
       else mh_held w1 (components p) = Some (identity_of md))" if stat: "mh_stat p w = (Inr md, w1)" for p md and w w1 :: "'a mini_host_scheme"
  proof -
    have w1: "w1 = w" and c: "(case mh_lookup p w of None \<Rightarrow> Inl mh_missing | Some i \<Rightarrow> mh_metadata i w) = Inr md"
      using stat unfolding mh_stat_def prod.inject by blast+
    obtain i where i: "mh_lookup p w = Some i" "mh_metadata i w = Inr md"
      using c by (cases "mh_lookup p w") simp_all
    obtain n where n: "map_of (mh_inodes w) i = Some n"
      using i(2) by (cases "map_of (mh_inodes w) i") (simp_all add: mh_metadata_def)
    with i(2) have md: "md_dev md = 1" "md_ino md = i" "md_is_dir md = in_dir n" "md_is_file md = (\<not> in_dir n)"
      by (auto simp: mh_metadata_def)
    show ?thesis using i(1) n w1 by (auto simp: mh_held_def mh_lookup_Some md identity_of_def split: option.split)
  qed
  have create: "mh_held w2 (components p) = Some (identity_of md) \<and> (\<forall>e. mh_held w e \<noteq> Some (identity_of md))"
    if "mh_create_new p m w = (Inr f, w1)" "mh_metadata f w1 = Inr md" "w2 = w1" for p m f md and w w1 w2 :: "'a mini_host_scheme"
  proof -
    from that(1) have "f = mh_next w" "w1 = mh_add p (mh_file m 0) w"
      by (auto simp: mh_create_new_def split: if_splits)
    with that(2,3) show ?thesis
      by (auto simp: mh_held_Some mh_add_def mh_metadata_def mh_file_def identity_of_def)
  qed
  have remove: "mh_held w1 e = Some k"
    if "mh_remove_file p w = (r, w1)" "mh_held w e = Some k" "e \<noteq> components p" for p e k r and w w1 :: "'a mini_host_scheme"
  proof -
    have "map_of (filter (\<lambda>(n, i). n \<noteq> components p) ns) e = map_of ns e" for ns :: "(string list \<times> nat) list"
      using that(3) by (induction ns) auto
    with that(1,2) show ?thesis
      by (auto simp: mh_remove_file_def mh_remove_def mh_held_Some split: if_splits)
  qed
  have others: "map_of (filter (\<lambda>(n, i). n \<noteq> c) ns) e = map_of ns e" if "e \<noteq> c"
    for e c and ns :: "(string list \<times> nat) list"
    using that by (induction ns) auto
  have failed: "mh_held w1 e = Some k" if "mh_renameat2 a b w = (Inl err, w1)" "mh_held w e = Some k" for a b e k err and w w1 :: "'a mini_host_scheme"
    using that by (auto simp: mh_renameat2_def split: option.splits if_splits)
  have renamed: "mh_held w (components b) = None \<and> mh_held w1 (components b) = mh_held w (components a) \<and>
      (\<forall>e k. mh_held w e = Some k \<longrightarrow> e \<noteq> components a \<longrightarrow> mh_held w1 e = Some k)"
    if "mh_renameat2 a b w = (Inr (), w1)" for a b and w w1 :: "'a mini_host_scheme"
  proof -
    from that obtain i where i: "mh_lookup a w = Some i" "mh_lookup b w = None" "w1 = mh_move a b i w"
      by (auto simp: mh_renameat2_def split: option.splits if_splits)
    then have b: "mh_held w (components b) = None"
      by (auto simp: mh_held_def mh_lookup_def split: option.splits if_splits)
    moreover have "mh_held w1 (components b) = mh_held w (components a)"
      using i by (simp add: mh_held_def mh_move_def mh_remove_def mh_lookup_Some Let_def)
    moreover have "mh_held w1 e = Some k" if "mh_held w e = Some k" "e \<noteq> components a" for e k
    proof -
      from that b have "e \<noteq> components b" by auto
      with that i show ?thesis
        by (auto simp: mh_held_Some mh_move_def mh_remove_def Let_def others)
    qed
    ultimately show ?thesis by blast
  qed
  show ?thesis
    unfolding name_laws_def entry_id
    using mini_host_held_keeps [where ?'a = 'a] lstat create remove failed renamed
    by (simp add: mini_host_api_def)
qed

lemma mini_host_sqlite_names: "sqlite_names mini_host_sqlite mh_held"
proof -
  have o: "mh_held w e = Some k \<Longrightarrow> mh_held (snd (mh_open_v2 p f w)) e = Some k" for w :: "'a mini_host_scheme" and e k p f
    using mh_add_keeps [of p w e k] by (auto simp: mh_open_v2_def Let_def mh_held_Some)
  have s: "mh_held w e = Some k \<Longrightarrow> mh_held (snd (mh_step st w)) e = Some k" for w :: "'a mini_host_scheme" and e k st
    by (auto simp: mh_step_def mh_held_Some split: option.split)
  have kept: "mh_held w e = Some k \<Longrightarrow> mh_held (snd (mh_prepare db sql w)) e = Some k"
    "mh_held w e = Some k \<Longrightarrow> mh_held (snd (mh_close db w)) e = Some k"
    "mh_held w e = Some k \<Longrightarrow> mh_held (snd (mh_finalize st w)) e = Some k"
    "mh_held w e = Some k \<Longrightarrow> mh_held (snd (mh_backup_init d s1 s s2 w)) e = Some k"
    "mh_held w e = Some k \<Longrightarrow> mh_held (snd (mh_backup_finish b w)) e = Some k"
    for w :: "'a mini_host_scheme" and e k st db sql d s1 s s2 b
    by (auto simp: mh_prepare_def mh_close_def mh_finalize_def mh_backup_init_def mh_backup_finish_def mh_fresh_def
        mh_held_Some)
  have "sqlite_keeps (\<lambda>w :: 'a mini_host_scheme. mh_held w e = Some k) mini_host_sqlite" for e k
    unfolding sqlite_keeps_def call_keeps_def mini_host_sqlite_def by (simp add: o s kept)
  then show ?thesis by (simp add: sqlite_names_def)
qed

text \<open>Code equations that unfold a call only once it has its state.\<close>

lemmas recovery_code [code] =
  rollback_original_def [THEN fun_cong] fail_activation_def [THEN fun_cong] preserve_def [THEN fun_cong] activate_def [THEN fun_cong]
  activation_def [THEN fun_cong] quarantine_def [THEN fun_cong] recover_staged_def [THEN fun_cong] move_sidecar_def [THEN fun_cong]
  move_original_def [THEN fun_cong] reopen_connection_def [THEN fun_cong] move_noreplace_def [THEN fun_cong] stage_check_def [THEN fun_cong]
  identity_check_def [THEN fun_cong] verify_staged_def [THEN fun_cong] rebuild_snapshot_def [THEN fun_cong] rebuild_database_def [THEN fun_cong]
  rebuild_into_def [THEN fun_cong] stage_sync_def [THEN fun_cong] sync_database_files_def [THEN fun_cong] sync_parent_def [THEN fun_cong]
  perform_file_sync_def [THEN fun_cong] apply_mode_def [THEN fun_cong] stage_drop_def [THEN fun_cong] stage_create_def [THEN fun_cong]
  stage_create_with_nonce_def [THEN fun_cong] drop_files_def [THEN fun_cong] or_drop_def [THEN fun_cong] inspect_original_def [THEN fun_cong]
  regular_def [THEN fun_cong] absent_def [THEN fun_cong] absent_sidecars_def [THEN fun_cong] verify_integrity_def [THEN fun_cong]
  check_directory_def [THEN fun_cong] stage_in_def [THEN fun_cong] reject_extended_metadata_def [THEN fun_cong]
definition recovering_adapter :: sqlite_adapter where
  "recovering_adapter =
     \<lparr>adp_database = 9, adp_path = ''/d/a.db'', adp_options = \<lparr>open_access_mode = ReadWrite, lock_timeout = 0\<rparr>,
      adp_identity = Some (1, 3), adp_poisoned = False\<rparr>"

definition archive_options :: recovery_options where
  "archive_options = \<lparr>preserve_original_at = ''/d/old.db'', recovery_mode = Delete\<rparr>"

text \<open>A recovery whose seventh sync fails, after the rebuilt file was activated.\<close>

theorem recovery_keeps_the_original_witness:
  "\<exists>e a' w'. recover mini_host_api mini_host_sqlite ref_json recovering_adapter archive_options
       (mh_start\<lparr>mh_faults := replicate 6 False @ [True]\<rparr>) = Some ((Inl e, a'), w') \<and>
     adapter_code e = Some ''recovery_sync_failed'' \<and> mh_held w' (components ''/d/a.db'') = Some (1, 3)"
proof -
  let ?w = "mh_start\<lparr>mh_faults := replicate 6 False @ [True]\<rparr>"
  let ?r = "recover mini_host_api mini_host_sqlite ref_json recovering_adapter archive_options ?w"
  have "case ?r of Some ((Inl e, a'), w') \<Rightarrow> adapter_code e = Some ''recovery_sync_failed'' | _ \<Rightarrow> False"
    by code_simp
  then obtain e a' w' where r: "?r = Some ((Inl e, a'), w')" and e: "adapter_code e = Some ''recovery_sync_failed''"
    by (auto split: option.split_asm sum.split_asm)
  have paths: "adp_path recovering_adapter = ''/d/a.db''" "preserve_original_at archive_options = ''/d/old.db''"
    by (simp_all add: recovering_adapter_def archive_options_def)
  have "ends_in_name ''/d/a.db'' \<and> ends_in_name ''/d/old.db'' \<and> \<not> sidecar_name (last_piece ''/d/a.db'') \<and>
      \<not> sidecar_name (last_piece ''/d/old.db'')" by code_simp
  then have set: "recovery_setting mini_host_api mini_host_sqlite (\<lambda>d. d) mh_held (adp_path recovering_adapter)
      (preserve_original_at archive_options)"
    by (simp add: recovery_setting_def paths mini_host_name_laws mini_host_sqlite_names)
  have "mh_held ?w (components ''/d/a.db'') = Some (1, 3)" by code_simp
  with recovery_keeps_the_original [OF set _ r, of "(1, 3)"] e
  have "mh_held w' (components ''/d/a.db'') = Some (1, 3)" by (simp add: entry_id paths)
  with r e show ?thesis by blast
qed

end
