(* ===== verification/Neon.thy ===== *)
theory Neon
  imports Driver
begin

text \<open>
  The Neon transport, \<open>src/adapter/neon/mod.rs\<close>: one HTTP request per call, the reading of its
  answer, and the mapping of remote errors. The HTTP client and the serde codecs are
  parameters: \<open>'w neon_http\<close> sends a request and decodes bodies.
\<close>

section \<open>Requests and answers\<close>

datatype 'n neon_body =
    NeonQuery string "parameter list" access_mode "'n storage_context"
  | NeonBatch access_mode "operation list" "'n storage_context"

record 'n neon_request =
  req_url :: string
  req_bearer :: "string option"
  req_body :: "'n neon_body"

text \<open>The status line of an answer and its body, whose reading may fail.\<close>

record http_answer =
  ans_status :: u16
  ans_body :: "string + u8 list"

record 'n neon_response =
  nr_columns :: "string list"
  nr_rows :: "'n json list"
  nr_affected :: "u64 option"
  nr_keys :: "generated_key list"

record error_envelope =
  env_code :: "string option"
  env_message :: "string option"

record ('w, 'n) neon_http =
  client_builds :: "'w \<Rightarrow> bool"
  neon_send :: "'n neon_request \<Rightarrow> 'w \<Rightarrow> (string + http_answer) \<times> 'w"
  decode_query :: "u8 list \<Rightarrow> string + 'n neon_response"
  decode_batch :: "u8 list \<Rightarrow> string + 'n neon_response list"
  decode_envelope :: "u8 list \<Rightarrow> error_envelope option"

record 'n neon_adapter =
  neon_endpoint :: string
  neon_bearer :: "string option"
  neon_mode :: access_mode
  neon_context :: "'n storage_context option"

text \<open>
  \<open>reqwest::blocking::Client::new\<close> panics when the TLS backend or the resolver cannot be set up, or
  inside an asynchronous runtime: there is no adapter then.
\<close>

definition neon_new ::
  "('w, 'n) neon_http \<Rightarrow> string \<Rightarrow> string option \<Rightarrow> open_options \<Rightarrow> 'n storage_context option \<Rightarrow>
     ('w, 'e, 'n neon_adapter) io"
where
  "neon_new H endpoint bearer options context = (\<lambda>w.
     if client_builds H w
     then Some (Inr \<lparr>neon_endpoint = trim_end_char CHR ''/'' endpoint, neon_bearer = bearer,
                    neon_mode = open_access_mode options, neon_context = context\<rparr>, w)
     else None)"

definition neon_default :: "('w, 'n) neon_http \<Rightarrow> string \<Rightarrow> string option \<Rightarrow> ('w, 'e, 'n neon_adapter) io" where
  "neon_default H endpoint bearer = neon_new H endpoint bearer default_open_options None"

section \<open>Remote errors\<close>

definition neon_code_kinds :: "(string \<times> adapter_error_kind) list" where
  "neon_code_kinds =
     [(''invalid_request'', InvalidOperation), (''unsupported_query'', Capability),
      (''authentication_required'', Authentication), (''missing_context'', Authentication),
      (''invalid_context'', Protocol), (''malformed_context'', Protocol),
      (''entitlement_required'', Authorization), (''repository_not_authorized'', Authorization),
      (''row_not_found'', NotFound), (''row_conflict'', Conflict),
      (''constraint_failed'', Constraint), (''unique_violation'', Constraint),
      (''not_null_violation'', Constraint), (''foreign_key_violation'', Constraint),
      (''busy'', Busy), (''locked'', Locked), (''timeout'', Timeout),
      (''version_conflict'', VersionConflict), (''idempotency_conflict'', IdempotencyConflict),
      (''idempotency_in_progress'', IdempotencyInProgress), (''transaction_aborted'', TransactionAborted),
      (''quota_exceeded'', Quota), (''payload_too_large'', Quota), (''rate_limited'', RateLimited),
      (''storage_failure'', Storage), (''storage_unavailable'', Unavailable)]"

definition neon_status_kind :: "u16 \<Rightarrow> adapter_error_kind" where
  "neon_status_kind status =
     (if status = 401 then Authentication
      else if status = 402 \<or> status = 403 then Authorization
      else if status = 404 then NotFound
      else if status = 408 then Timeout
      else if status = 409 then Conflict
      else if status = 429 then RateLimited
      else if status = 500 then Storage
      else if 502 \<le> status \<and> status \<le> 504 then Unavailable
      else Query)"

definition neon_kind :: "string option \<Rightarrow> u16 \<Rightarrow> adapter_error_kind" where
  "neon_kind code status =
     (case Option.bind code (map_of neon_code_kinds) of
        Some kind \<Rightarrow> kind
      | None \<Rightarrow> neon_status_kind status)"

definition neon_remote_error :: "('w, 'n) neon_http \<Rightarrow> u16 \<Rightarrow> u8 list \<Rightarrow> string \<Rightarrow> dactyl_error" where
  "neon_remote_error H status body operation =
     (let envelope = decode_envelope H body;
          code = Option.bind envelope env_code;
          msg = (case Option.bind envelope env_message of
            Some m \<Rightarrow> [Txt m]
          | None \<Rightarrow> [Txt operation, Txt '' returned HTTP status '', Num (uint status)]);
          kind = neon_kind code status
      in case code of
           Some c \<Rightarrow> adapter_with_code kind c msg
         | None \<Rightarrow> adapter kind msg)"

definition neon_decode_response ::
  "('w, 'n) neon_http \<Rightarrow> (u8 list \<Rightarrow> string + 'a) \<Rightarrow> http_answer \<Rightarrow> string \<Rightarrow> 'a result"
where
  "neon_decode_response H from_slice answer operation =
     (case ans_body answer of
        Inl error \<Rightarrow> Inl (adapter Transport [Txt operation, Txt '' response: '', Txt error])
      | Inr body \<Rightarrow>
          if \<not> (200 \<le> ans_status answer \<and> ans_status answer < 300)
          then Inl (neon_remote_error H (ans_status answer) body operation)
          else case from_slice body of
            Inl error \<Rightarrow> Inl (adapter Protocol [Txt operation, Txt '' decode: '', Txt error])
          | Inr v \<Rightarrow> Inr v)"

section \<open>Calls\<close>

definition neon_require_context :: "'n neon_adapter \<Rightarrow> 'n storage_context result" where
  "neon_require_context a =
     rbind (ok_or (adapter_with_code Authentication ''authentication_required''
              [Txt ''neon requests require an authenticated storage context'']) (neon_context a))
       (\<lambda>c. rbind (validate_context c) (\<lambda>_. Inr c))"

definition neon_post :: "('w, 'n) neon_http \<Rightarrow> 'n neon_request \<Rightarrow> string \<Rightarrow> ('w, dactyl_error, http_answer) io" where
  "neon_post H req label = (\<lambda>w.
     case neon_send H req w of
       (Inl error, w1) \<Rightarrow> Some (Inl (adapter Transport [Txt label, Txt '' send: '', Txt error]), w1)
     | (Inr answer, w1) \<Rightarrow> Some (Inr answer, w1))"

definition neon_query ::
  "('w, 'n) neon_http \<Rightarrow> 'n neon_adapter \<Rightarrow> string \<Rightarrow> parameter list \<Rightarrow> ('w, dactyl_error, 'n neon_response) io"
where
  "neon_query H a sql params =
     io_bind (io_lift (neon_require_context a)) (\<lambda>context.
     io_bind (neon_post H \<lparr>req_url = neon_endpoint a @ ''/query'', req_bearer = neon_bearer a,
                req_body = NeonQuery sql params (neon_mode a) context\<rparr> ''neon'') (\<lambda>answer.
     io_lift (neon_decode_response H (decode_query H) answer ''neon'')))"

definition neon_batch ::
  "('w, 'n) neon_http \<Rightarrow> 'n neon_adapter \<Rightarrow> operation list \<Rightarrow> ('w, dactyl_error, 'n neon_response list) io"
where
  "neon_batch H a ops =
     io_bind (io_lift (neon_require_context a)) (\<lambda>context.
     io_bind (neon_post H \<lparr>req_url = neon_endpoint a @ ''/batch'', req_bearer = neon_bearer a,
                req_body = NeonBatch (neon_mode a) ops context\<rparr> ''neon batch'') (\<lambda>answer.
     io_lift (neon_decode_response H (decode_batch H) answer ''neon batch'')))"

definition ensure_remote_writable :: "access_mode \<Rightarrow> unit result" where
  "ensure_remote_writable mode =
     (if mode = ReadOnly then Inl (adapter ReadOnlyKind [Txt ''route is read-only'']) else Inr ())"

text \<open>A column of a row object; the column names are those of the answer, or the object's own keys.\<close>

definition neon_row :: "string list \<Rightarrow> 'n json \<Rightarrow> 'n row result" where
  "neon_row response_columns v =
     rbind (ok_or (adapter Protocol [Txt ''neon row is not an object'']) (as_object v)) (\<lambda>es.
       let columns = (if response_columns = [] then map fst es else response_columns) in
       Inr \<lparr>row_columns = columns,
            row_values = map (\<lambda>c. case map_of es c of Some x \<Rightarrow> x | None \<Rightarrow> JNull) columns\<rparr>)"

definition neon_rows :: "'n neon_response \<Rightarrow> 'n rows result" where
  "neon_rows r = traverse (neon_row (nr_columns r)) (nr_rows r)"

definition neon_read ::
  "('w, 'n) neon_http \<Rightarrow> 'n neon_adapter \<Rightarrow> string \<Rightarrow> parameter list \<Rightarrow> ('w, dactyl_error, 'n rows) io"
where
  "neon_read H a sql params = io_bind (neon_query H a sql params) (\<lambda>r. io_lift (neon_rows r))"

definition neon_write ::
  "('w, 'n) neon_http \<Rightarrow> 'n neon_adapter \<Rightarrow> string \<Rightarrow> parameter list \<Rightarrow> ('w, dactyl_error, write_result) io"
where
  "neon_write H a sql params =
     io_bind (io_lift (ensure_remote_writable (neon_mode a))) (\<lambda>_.
     io_bind (neon_query H a sql params) (\<lambda>r.
     io_return \<lparr>affected_rows = (case nr_affected r of Some n \<Rightarrow> n | None \<Rightarrow> of_nat (length (nr_rows r))),
                generated_keys = nr_keys r\<rparr>))"

fun neon_result :: "operation \<times> 'n neon_response \<Rightarrow> 'n operation_result result" where
  "neon_result (op, r) =
     (if op_kind op = ReadOp then rmap RowsResult (neon_rows r)
      else Inr (Written \<lparr>affected_rows = (case nr_affected r of Some n \<Rightarrow> n | None \<Rightarrow> 0),
                         generated_keys = nr_keys r\<rparr>))"

definition neon_atomic ::
  "('w, 'n) neon_http \<Rightarrow> 'n neon_adapter \<Rightarrow> operation list \<Rightarrow> ('w, dactyl_error, 'n atomic_result) io"
where
  "neon_atomic H a ops =
     (if ops = [] then io_return []
      else
        io_bind (if mutates ops then io_lift (ensure_remote_writable (neon_mode a)) else io_return ()) (\<lambda>_.
        io_bind (neon_batch H a ops) (\<lambda>rs.
          if length rs \<noteq> length ops
          then io_fail (adapter Protocol [Txt ''neon batch returned '', Num (int (length rs)),
                 Txt '' results for '', Num (int (length ops)), Txt '' operations''])
          else io_lift (traverse neon_result (zip ops rs)))))"

text \<open>The adapter's own \<open>inspect_schema\<close> answers what the default method does.\<close>

definition neon_inspect_schema :: "('w, dactyl_error, 'n store_schema) io" where
  "neon_inspect_schema = io_fail (adapter_with_code Capability ''unsupported_schema_inspection''
     [Txt ''schema inspection is a local-store operation''])"

section \<open>The contract of the driver\<close>

lemma neon_result_fits: "neon_result (op, r) = Inr q \<Longrightarrow> result_fits op q"
  by (auto simp: result_iffs split: if_splits)

lemma neon_atomic_fits:
  "neon_atomic H a ops w = Some (Inr rs, w') \<Longrightarrow> list_all2 result_fits ops rs"
  by (auto simp: neon_atomic_def io_iffs split: if_splits intro: traverse_zip_fits [OF neon_result_fits])

interpretation neon: driver "neon_write H a" "neon_atomic H a" "neon_mode a"
  for H :: "('w, 'n) neon_http" and a :: "'n neon_adapter"
proof unfold_locales
  fix sql params and w :: 'w
  assume "neon_mode a = ReadOnly"
  then show "\<exists>e. neon_write H a sql params w = Some (Inl e, w) \<and> adapter_kind e = Some ReadOnlyKind"
    by (simp add: neon_write_def ensure_remote_writable_def io_bind_def io_lift_def)
next
  fix ops and w :: 'w
  assume "neon_mode a = ReadOnly" "mutates ops"
  then show "\<exists>e. neon_atomic H a ops w = Some (Inl e, w) \<and> adapter_kind e = Some ReadOnlyKind"
    by (auto simp: neon_atomic_def ensure_remote_writable_def io_bind_def io_lift_def)
next
  fix w :: 'w
  show "neon_atomic H a [] w = Some (Inr [], w)"
    by (simp add: neon_atomic_def io_iffs)
next
  fix ops :: "operation list" and rs :: "'n operation_result list" and w w' :: 'w
  show "neon_atomic H a ops w = Some (Inr rs, w') \<Longrightarrow> list_all2 result_fits ops rs"
    by (rule neon_atomic_fits)
qed

section \<open>What is sent\<close>

lemma neon_require_context_Inr:
  "neon_require_context a = Inr c \<longleftrightarrow> neon_context a = Some c \<and> validate_context c = Inr ()"
  by (auto simp: neon_require_context_def result_iffs)

lemma neon_post_sends: "neon_post H req label w = Some (r, w1) \<Longrightarrow> w1 = snd (neon_send H req w)"
  by (cases "neon_send H req w"; cases "fst (neon_send H req w)") (auto simp: neon_post_def)

lemma neon_query_sends:
  "neon_query H a sql params w = Some (r, w') \<Longrightarrow>
     (\<exists>e. neon_require_context a = Inl e \<and> r = Inl e \<and> w' = w) \<or>
     (\<exists>c. neon_require_context a = Inr c \<and>
        w' = snd (neon_send H \<lparr>req_url = neon_endpoint a @ ''/query'', req_bearer = neon_bearer a,
                req_body = NeonQuery sql params (neon_mode a) c\<rparr> w))"
  by (auto simp: neon_query_def io_iffs dest: neon_post_sends)

text \<open>
  C36: a Neon read sends one request and no more, carrying the caller's storage context and the
  connection's access mode; without a context, or with an invalid one, it sends nothing.
\<close>

theorem neon_read_sends_one_request:
  assumes "neon_read H a sql params w = Some (r, w')"
  shows "case neon_context a of
     None \<Rightarrow> w' = w \<and> (\<exists>e. r = Inl e \<and> adapter_kind e = Some Authentication)
   | Some c \<Rightarrow>
       if validate_context c = Inr ()
       then w' = snd (neon_send H \<lparr>req_url = neon_endpoint a @ ''/query'', req_bearer = neon_bearer a,
              req_body = NeonQuery sql params (neon_mode a) c\<rparr> w)
       else w' = w \<and> (\<exists>e. r = Inl e \<and> adapter_kind e = Some Protocol)"
proof -
  from assms obtain q where q: "neon_query H a sql params w = Some (q, w')"
    and r: "\<And>e. q = Inl e \<Longrightarrow> r = Inl e"
    by (auto simp: neon_read_def io_iffs)
  show ?thesis
  proof (cases "neon_context a")
    case None
    with neon_query_sends [OF q] r show ?thesis
      by (auto simp: neon_require_context_def)
  next
    case (Some c)
    show ?thesis
    proof (cases "validate_context c")
      case (Inl e)
      with Some neon_query_sends [OF q] r validate_context_error [OF Inl] show ?thesis
        by (auto simp: neon_require_context_def)
    next
      case (Inr u)
      with Some neon_query_sends [OF q] show ?thesis
        by (auto simp: neon_require_context_def)
    qed
  qed
qed

text \<open>A service that records the requests it gets and answers each with the same two rows.\<close>

definition demo_row :: "ref_num json" where
  "demo_row = JObject [(''id'', JNumber (PosInt 7)), (''extra'', JBool True)]"

definition demo_http :: "(ref_num neon_request list, ref_num) neon_http" where
  "demo_http =
     \<lparr>client_builds = (\<lambda>w. True), neon_send = (\<lambda>req w. (Inr \<lparr>ans_status = 200, ans_body = Inr []\<rparr>, w @ [req])),
      decode_query = (\<lambda>body. Inr \<lparr>nr_columns = [''id'', ''name''], nr_rows = [demo_row, demo_row],
        nr_affected = None, nr_keys = []\<rparr>),
      decode_batch = (\<lambda>body. Inr []),
      decode_envelope = (\<lambda>body. None)\<rparr>"

definition demo_context :: "ref_num storage_context" where
  "demo_context = \<lparr>ctx_version = 1, ctx_payload = JObject [(''tenant'', JString ''a'')]\<rparr>"

definition demo_neon :: "access_mode \<Rightarrow> ref_num neon_adapter" where
  "demo_neon mode = \<lparr>neon_endpoint = ''https://db'', neon_bearer = Some ''t'', neon_mode = mode,
     neon_context = Some demo_context\<rparr>"

theorem neon_read_sends_one_request_witness:
  "\<exists>r w'. neon_read demo_http (demo_neon ReadOnly) ''select 1'' [] [] = Some (r, w') \<and>
     w' = [\<lparr>req_url = ''https://db/query'', req_bearer = Some ''t'',
            req_body = NeonQuery ''select 1'' [] ReadOnly demo_context\<rparr>]"
proof -
  have "neon_read demo_http (demo_neon ReadOnly) ''select 1'' [] [] \<noteq> None" by code_simp
  then obtain r w' where r: "neon_read demo_http (demo_neon ReadOnly) ''select 1'' [] [] = Some (r, w')"
    by auto
  from neon_read_sends_one_request [OF r] r show ?thesis
    by (auto simp: demo_neon_def demo_http_def demo_context_def validate_context_def)
qed

text \<open>
  C37: every Neon row is an object of the answer, in the answer's order; each announced column
  reads back as the object's member of that name, or as NULL when the object has none.
\<close>

theorem neon_rows_read_members:
  assumes "neon_rows r = Inr rows" and "nr_columns r \<noteq> []"
  shows "list_all2 (\<lambda>v row. \<exists>es. v = JObject es \<and> row_columns row = nr_columns r \<and>
     (\<forall>c \<in> set (nr_columns r). get_json row (ByName c) =
        Inr (case map_of es c of Some x \<Rightarrow> x | None \<Rightarrow> JNull))) (nr_rows r) rows"
proof -
  have cell: "get_json row (ByName c) = Inr (f c)"
    if "row_columns row = cols" "row_values row = map f cols" "c \<in> set cols" for row :: "'n row" and c f cols
  proof -
    from that(3) obtain i where "position (\<lambda>x. x = c) cols = Some i"
      by (cases "position (\<lambda>x. x = c) cols") (auto simp: position_None_iff)
    with that(1,2) show ?thesis
      by (auto simp: get_json_def row_cell_Inr_iff position_Some_iff)
  qed
  have row: "\<exists>es. v = JObject es \<and> row_columns row = nr_columns r \<and>
     (\<forall>c \<in> set (nr_columns r). get_json row (ByName c) =
        Inr (case map_of es c of Some x \<Rightarrow> x | None \<Rightarrow> JNull))"
    if "neon_row (nr_columns r) v = Inr row" for v row
    using that assms(2) by (cases v) (auto simp: neon_row_def Let_def intro!: cell)
  from assms(1) show ?thesis
    unfolding neon_rows_def traverse_Inr_iff by (rule list_all2_mono) (rule row)
qed

theorem neon_rows_read_members_witness:
  "\<exists>rows. neon_rows \<lparr>nr_columns = [''id'', ''name''], nr_rows = [demo_row], nr_affected = None, nr_keys = []\<rparr> = Inr rows \<and>
     map (\<lambda>row. get_json row (ByName ''name'')) rows = [Inr JNull]"
proof -
  let ?r = "\<lparr>nr_columns = [''id'', ''name''], nr_rows = [demo_row], nr_affected = None, nr_keys = []\<rparr> :: ref_num neon_response"
  have "\<not> isl (neon_rows ?r)" by code_simp
  then obtain rows where r: "neon_rows ?r = Inr rows" by (cases "neon_rows ?r") auto
  have "nr_columns ?r \<noteq> []" by simp
  from neon_rows_read_members [OF r this] r show ?thesis
    by (auto simp: demo_row_def list_all2_Cons1)
qed

text \<open>
  Which remote failures a caller may retry: those with the codes \<open>busy\<close>, \<open>locked\<close>,
  \<open>timeout\<close> and \<open>storage_unavailable\<close>; a code the driver does not know, or none, leaves the
  decision to the HTTP status (408 and 502 to 504).
\<close>

theorem neon_retryable_errors:
  "is_retryable (neon_remote_error H status body operation) \<longleftrightarrow>
     (case Option.bind (Option.bind (decode_envelope H body) env_code)
         (\<lambda>c. if c \<in> fst ` set neon_code_kinds then Some c else None) of
        Some c \<Rightarrow> c \<in> {''busy'', ''locked'', ''timeout'', ''storage_unavailable''}
      | None \<Rightarrow> status \<in> {408, 502, 503, 504})"
proof -
  have kind: "adapter_kind (neon_remote_error H status body operation) =
      Some (neon_kind (Option.bind (decode_envelope H body) env_code) status)"
    by (simp add: neon_remote_error_def Let_def split: option.split)
  have status: "neon_status_kind status \<in> {Busy, Locked, Timeout, Unavailable} \<longleftrightarrow> status \<in> {408, 502, 503, 504}"
  proof -
    have "502 \<le> status \<and> status \<le> 504 \<longleftrightarrow> status = 502 \<or> status = 503 \<or> status = 504"
      by (auto simp: word_le_nat_alt unat_arith_simps)
    then show ?thesis by (auto simp: neon_status_kind_def)
  qed
  have codes: "map_of neon_code_kinds c = Some k \<Longrightarrow>
      k \<in> {Busy, Locked, Timeout, Unavailable} \<longleftrightarrow> c \<in> {''busy'', ''locked'', ''timeout'', ''storage_unavailable''}"
    for c k
  proof -
    have all: "\<forall>(c, k) \<in> set neon_code_kinds.
        k \<in> {Busy, Locked, Timeout, Unavailable} \<longleftrightarrow> c \<in> {''busy'', ''locked'', ''timeout'', ''storage_unavailable''}"
      by code_simp
    assume "map_of neon_code_kinds c = Some k"
    from bspec [OF all map_of_SomeD [OF this]]
    show "k \<in> {Busy, Locked, Timeout, Unavailable} \<longleftrightarrow> c \<in> {''busy'', ''locked'', ''timeout'', ''storage_unavailable''}"
      by (simp only: prod.case)
  qed
  have dom: "c \<in> fst ` set neon_code_kinds \<longleftrightarrow> map_of neon_code_kinds c \<noteq> None" for c
    by (simp add: map_of_eq_None_iff)
  let ?code = "Option.bind (decode_envelope H body) env_code"
  have r: "is_retryable (neon_remote_error H status body operation) \<longleftrightarrow>
      neon_kind ?code status \<in> {Busy, Locked, Timeout, Unavailable}"
    by (simp add: is_retryable_iff kind)
  show ?thesis
  proof (cases ?code)
    case None
    then show ?thesis unfolding r None neon_kind_def by (simp only: bind.simps option.case status)
  next
    case (Some c)
    show ?thesis
    proof (cases "map_of neon_code_kinds c")
      case None
      then show ?thesis
        unfolding r Some neon_kind_def dom
        by (simp only: bind.simps option.case status not_True_eq_False if_False simp_thms)
    next
      case (Some k)
      note k = this
      show ?thesis
        unfolding r \<open>?code = Some c\<close> neon_kind_def dom k bind.simps option.case
        using codes [OF k] by (simp only: option.case if_True not_False_eq_True option.distinct simp_thms)
    qed
  qed
qed

end
