(* ===== verification/Ip_Text.thy ===== *)
theory Ip_Text
  imports Text
begin

text \<open>
  The address syntax of \<open>std::net::IpAddr::from_str\<close>, which \<open>src/adapter/supabase.rs\<close> uses to
  decide whether a host is a literal loopback address. Each parser takes a text and returns
  the value it read with the text left over.
\<close>

definition to_digit :: "int \<Rightarrow> char \<Rightarrow> int option" where
  "to_digit radix c =
     (let n = of_char c :: int;
          d = (if 48 \<le> n \<and> n \<le> 57 then n - 48
               else if 97 \<le> n \<and> n \<le> 122 then n - 87
               else if 65 \<le> n \<and> n \<le> 90 then n - 55 else 99)
      in if d < radix then Some d else None)"

fun digit_prefix :: "int \<Rightarrow> string \<Rightarrow> int list \<times> string" where
  "digit_prefix radix [] = ([], [])"
| "digit_prefix radix (c # s) =
     (case to_digit radix c of
        None \<Rightarrow> ([], c # s)
      | Some d \<Rightarrow> (case digit_prefix radix s of (ds, rest) \<Rightarrow> (d # ds, rest)))"

definition digits_value :: "int \<Rightarrow> int list \<Rightarrow> int" where
  "digits_value radix ds = foldl (\<lambda>acc d. acc * radix + d) 0 ds"

definition read_number :: "int \<Rightarrow> nat \<Rightarrow> bool \<Rightarrow> int \<Rightarrow> string \<Rightarrow> (int \<times> string) option" where
  "read_number radix max_digits zero_prefix bound s =
     (case digit_prefix radix s of (ds, rest) \<Rightarrow>
        if max_digits < length ds \<or> ds = [] then None
        else if \<not> zero_prefix \<and> hd ds = 0 \<and> 1 < length ds then None
        else if digits_value radix ds < bound then Some (digits_value radix ds, rest)
        else None)"

fun read_char :: "char \<Rightarrow> string \<Rightarrow> string option" where
  "read_char c [] = None"
| "read_char c (d # s) = (if d = c then Some s else None)"

definition read_separator :: "char \<Rightarrow> nat \<Rightarrow> (string \<Rightarrow> ('a \<times> string) option) \<Rightarrow> string \<Rightarrow> ('a \<times> string) option" where
  "read_separator sep i inner s = (if 0 < i then Option.bind (read_char sep s) inner else inner s)"

definition read_octet :: "nat \<Rightarrow> string \<Rightarrow> (int \<times> string) option" where
  "read_octet i = read_separator CHR ''.'' i (read_number 10 3 False 256)"

definition read_ipv4 :: "string \<Rightarrow> ((int \<times> int \<times> int \<times> int) \<times> string) option" where
  "read_ipv4 s =
     Option.bind (read_octet 0 s) (\<lambda>(a, s1).
     Option.bind (read_octet 1 s1) (\<lambda>(b, s2).
     Option.bind (read_octet 2 s2) (\<lambda>(c, s3).
     Option.bind (read_octet 3 s3) (\<lambda>(d, s4). Some ((a, b, c, d), s4)))))"

text \<open>
  The group loop of an IPv6 address: up to \<open>limit\<close> groups from position \<open>i\<close>, an embedded IPv4
  address while two groups are left. The result holds the groups, whether the last two were an
  IPv4 address, and the text left over.
\<close>

function read_groups :: "nat \<Rightarrow> nat \<Rightarrow> string \<Rightarrow> int list \<times> bool \<times> string" where
  "read_groups limit i s =
     (if limit \<le> i then ([], False, s)
      else case (if i + 1 < limit then read_separator CHR '':'' i read_ipv4 s else None) of
        Some ((a, b, c, d), rest) \<Rightarrow> ([a * 256 + b, c * 256 + d], True, rest)
      | None \<Rightarrow>
          (case read_separator CHR '':'' i (read_number 16 4 True 65536) s of
             None \<Rightarrow> ([], False, s)
           | Some (g, rest) \<Rightarrow>
               (case read_groups limit (i + 1) rest of (gs, v4, rest1) \<Rightarrow> (g # gs, v4, rest1))))"
  by pat_completeness auto
termination by (relation "measure (\<lambda>(limit, i, s). limit - i)") auto

declare read_groups.simps [simp del]

definition read_ipv6 :: "string \<Rightarrow> (int list \<times> string) option" where
  "read_ipv6 s =
     (case read_groups 8 0 s of (head, v4, s1) \<Rightarrow>
        if length head = 8 then Some (head, s1)
        else if v4 then None
        else Option.bind (read_char CHR '':'' s1) (\<lambda>s2.
             Option.bind (read_char CHR '':'' s2) (\<lambda>s3.
             case read_groups (8 - (length head + 1)) 0 s3 of (tail, _, s4) \<Rightarrow>
               Some (head @ replicate (8 - length head - length tail) 0 @ tail, s4))))"

datatype ip_addr = V4 int int int int | V6 "int list"

definition parse_ip :: "string \<Rightarrow> ip_addr option" where
  "parse_ip s =
     (case (case read_ipv4 s of
              Some ((a, b, c, d), rest) \<Rightarrow> Some (V4 a b c d, rest)
            | None \<Rightarrow> map_option (apfst V6) (read_ipv6 s)) of
        Some (ip, []) \<Rightarrow> Some ip
      | _ \<Rightarrow> None)"

fun ip_is_loopback :: "ip_addr \<Rightarrow> bool" where
  "ip_is_loopback (V4 a b c d) = (a = 127)"
| "ip_is_loopback (V6 gs) = (gs = [0, 0, 0, 0, 0, 0, 0, 1])"

section \<open>Addresses are not names\<close>

text \<open>What a parser has read consists of hexadecimal digits, dots and colons only.\<close>

definition ip_char :: "char \<Rightarrow> bool" where
  "ip_char c \<longleftrightarrow> c \<in> {CHR ''.'', CHR '':''} \<or> to_digit 16 c \<noteq> None"

definition consumes_ip :: "string \<Rightarrow> string \<Rightarrow> bool" where
  "consumes_ip s rest \<longleftrightarrow> (\<exists>pre. s = pre @ rest \<and> list_all ip_char pre)"

lemma consumes_refl [simp]: "consumes_ip s s"
  by (auto simp: consumes_ip_def)

lemma consumes_trans: "consumes_ip s t \<Longrightarrow> consumes_ip t u \<Longrightarrow> consumes_ip s u"
  unfolding consumes_ip_def by (metis append.assoc list_all_append)

lemma consumes_Cons: "ip_char c \<Longrightarrow> consumes_ip s t \<Longrightarrow> consumes_ip (c # s) t"
  proof -
  assume c: "ip_char c" and "consumes_ip s t"
  then obtain pre where "s = pre @ t" "list_all ip_char pre" by (auto simp: consumes_ip_def)
  with c have "c # s = (c # pre) @ t \<and> list_all ip_char (c # pre)" by simp
  then show ?thesis unfolding consumes_ip_def by blast
qed

lemma digit_prefix_consumes:
  "radix \<le> 16 \<Longrightarrow> digit_prefix radix s = (ds, rest) \<Longrightarrow> consumes_ip s rest"
proof (induction s arbitrary: ds rest)
  case Nil
  then show ?case by simp
next
  case (Cons c s)
  show ?case
  proof (cases "to_digit radix c")
    case None
    with Cons.prems show ?thesis by simp
  next
    case (Some d)
    then have "ip_char c" using Cons.prems(1) by (auto simp: ip_char_def to_digit_def Let_def split: if_splits)
    moreover from Cons Some have "consumes_ip s rest" by (auto split: prod.splits)
    ultimately show ?thesis by (rule consumes_Cons)
  qed
qed

lemma read_number_consumes:
  "radix \<le> 16 \<Longrightarrow> read_number radix m z b s = Some (v, rest) \<Longrightarrow> consumes_ip s rest"
  by (auto simp: read_number_def split: prod.splits if_splits intro: digit_prefix_consumes)

lemma read_char_consumes: "read_char c s = Some rest \<Longrightarrow> ip_char c \<Longrightarrow> consumes_ip s rest"
  by (cases s) (auto split: if_splits intro: consumes_Cons)

lemma ip_char_sep [simp]: "ip_char CHR ''.''" "ip_char CHR '':''"
  by (simp_all add: ip_char_def)

lemma read_separator_consumes:
  assumes "read_separator sep i inner s = Some (v, rest)" and "ip_char sep"
    and "\<And>s v rest. inner s = Some (v, rest) \<Longrightarrow> consumes_ip s rest"
  shows "consumes_ip s rest"
  using assms by (auto simp: read_separator_def bind_eq_Some_conv split: if_splits
      dest!: read_char_consumes intro: consumes_trans)

lemma read_octet_consumes: "read_octet i s = Some (v, rest) \<Longrightarrow> consumes_ip s rest"
  unfolding read_octet_def
  by (erule read_separator_consumes) (auto intro: read_number_consumes [where radix = 10])

lemma read_ipv4_consumes: "read_ipv4 s = Some (v, rest) \<Longrightarrow> consumes_ip s rest"
  by (auto simp: read_ipv4_def bind_eq_Some_conv dest!: read_octet_consumes intro: consumes_trans)

lemma read_groups_consumes: "read_groups limit i s = (gs, v4, rest) \<Longrightarrow> consumes_ip s rest"
proof (induction limit i s arbitrary: gs v4 rest rule: read_groups.induct)
  case (1 limit i s)
  let ?v4 = "if i + 1 < limit then read_separator CHR '':'' i read_ipv4 s else None"
  let ?g = "read_separator CHR '':'' i (read_number 16 4 True 65536) s"
  show ?case
  proof (cases "limit \<le> i")
    case True
    with "1.prems" show ?thesis by (simp add: read_groups.simps)
  next
    case False
    show ?thesis
    proof (cases ?v4)
      case (Some q)
      then obtain a b c d r where q: "?v4 = Some ((a, b, c, d), r)" by (cases q) auto
      with "1.prems" False have "rest = r" by (simp add: read_groups.simps)
      with q show ?thesis
        by (auto split: if_splits intro: read_separator_consumes read_ipv4_consumes)
    next
      case None
      note none = None
      show ?thesis
      proof (cases ?g)
        case None
        with none "1.prems" False show ?thesis by (simp add: read_groups.simps [of limit i s] del: One_nat_def)
      next
        case (Some q)
        then obtain g r where q: "?g = Some (g, r)" by (cases q) auto
        obtain gs' w rest' where rec: "read_groups limit (i + 1) r = (gs', w, rest')"
          by (metis prod_cases3)
        from none q rec "1.prems" False have "rest' = rest"
          by (simp add: read_groups.simps [of limit i s] del: One_nat_def)
        with "1.IH" [OF False none q refl rec] have "consumes_ip r rest" by simp
        moreover have "consumes_ip s r"
          using q by (rule read_separator_consumes) (auto intro: read_number_consumes [where radix = 16])
        ultimately show ?thesis by (blast intro: consumes_trans)
      qed
    qed
  qed
qed

lemma read_ipv6_consumes:
  assumes "read_ipv6 s = Some (v, rest)"
  shows "consumes_ip s rest"
proof -
  obtain head v4 s1 where h: "read_groups 8 0 s = (head, v4, s1)" by (metis prod_cases3)
  then have "consumes_ip s s1" by (rule read_groups_consumes)
  show ?thesis
  proof (cases "length head = 8")
    case True
    with assms h \<open>consumes_ip s s1\<close> show ?thesis by (simp add: read_ipv6_def)
  next
    case False
    with assms h obtain s2 s3 where r: "read_char CHR '':'' s1 = Some s2" "read_char CHR '':'' s2 = Some s3"
      by (auto simp: read_ipv6_def bind_eq_Some_conv split: if_splits)
    obtain tail w s4 where t: "read_groups (8 - (length head + 1)) 0 s3 = (tail, w, s4)"
      by (metis prod_cases3)
    from assms h False r t have "s4 = rest" by (auto simp: read_ipv6_def split: if_splits)
    moreover have "consumes_ip s1 s2" "consumes_ip s2 s3"
      using r by (auto intro: read_char_consumes)
    moreover have "consumes_ip s3 s4" using t by (rule read_groups_consumes)
    ultimately show ?thesis using \<open>consumes_ip s s1\<close> by (blast intro: consumes_trans)
  qed
qed

lemma parse_ip_chars: "parse_ip s = Some ip \<Longrightarrow> list_all ip_char s"
proof -
  assume "parse_ip s = Some ip"
  then have "consumes_ip s []"
    by (auto simp: parse_ip_def split: option.splits list.splits prod.splits
        dest: read_ipv4_consumes read_ipv6_consumes)
  then show ?thesis by (simp add: consumes_ip_def)
qed

end
