(* ===== verification/Supabase.thy ===== *)
theory Supabase
  imports Driver Ip_Text
begin

text \<open>
  The Supabase transport, \<open>src/adapter/supabase.rs\<close>: endpoint policy, construction, the
  bounded request on a worker thread, validation of answers and redaction of remote errors.
  URL parsing, header values, JSON encoding and the HTTP client are third-party code: the
  fields of \<open>supabase_host\<close>.
\<close>

section \<open>The host\<close>

record url =
  url_text :: string
  url_scheme :: string
  url_host :: "string option"
  url_username :: string
  url_password :: "string option"
  url_query :: "string option"
  url_fragment :: "string option"

datatype 'n supabase_body =
    SupaQuery string "parameter list" operation_kind access_mode "'n storage_context"
  | SupaBatch "operation list" access_mode "'n storage_context"

record supabase_post =
  post_url :: string
  post_authorization :: string
  post_body :: "u8 list"

text \<open>An I/O error while reading a body: its kind, and the timeout flag of a wrapped client error.\<close>

record read_error =
  kind_timed_out :: bool
  wrapped_timeout :: "bool option"

text \<open>
  What one POST comes to: a send error (with its timeout flag), a panic of the worker, or an
  answer: status, the bytes of the body, and the error that ends it, if any.
\<close>

datatype post_outcome =
    SendFailed bool
  | WorkerPanicked
  | Answered u16 "u8 list" "read_error option"

record 'n supabase_response =
  sr_columns :: "string list"
  sr_rows :: "'n json list"
  sr_affected :: u64
  sr_keys :: "generated_key list"

record ('w, 'n) supabase_host =
  parse_url :: "string \<Rightarrow> url option"
  header_value :: "string \<Rightarrow> string option"
  encode_body :: "'n supabase_body \<Rightarrow> string + u8 list"
  spawn_worker :: "'w \<Rightarrow> bool \<times> 'w"
  build_client :: "'w \<Rightarrow> bool \<times> 'w"
  post_request :: "supabase_post \<Rightarrow> 'w \<Rightarrow> post_outcome \<times> 'w"
  decode_response :: "u8 list \<Rightarrow> 'n supabase_response option"
  decode_batch_response :: "u8 list \<Rightarrow> 'n supabase_response list option"
  parse_json :: "u8 list \<Rightarrow> 'n json option"

definition max_body_bytes :: nat where
  "max_body_bytes = 4 * 1024 * 1024"

section \<open>Errors\<close>

definition protocol_error :: "string \<Rightarrow> dactyl_error" where
  "protocol_error msg = adapter Protocol [Txt msg]"

definition transport_error :: "bool \<Rightarrow> dactyl_error" where
  "transport_error timeout = adapter (if timeout then Timeout else Transport)
     [Txt ''Supabase service transport failed (details redacted)'']"

definition body_read_timed_out :: "read_error \<Rightarrow> bool" where
  "body_read_timed_out e \<longleftrightarrow> kind_timed_out e \<or> wrapped_timeout e = Some True"

definition supabase_known_codes :: "(string \<times> adapter_error_kind) list" where
  "supabase_known_codes =
     [(''invalid_token'', Authentication), (''authorization_denied'', Authorization),
      (''invalid_request'', InvalidOperation), (''unsupported_query'', Capability),
      (''unsupported_type'', Capability), (''unsupported_schema'', Capability),
      (''authentication_required'', Authentication), (''missing_context'', Authentication),
      (''invalid_context'', Protocol), (''malformed_context'', Protocol),
      (''entitlement_required'', Authorization), (''repository_not_authorized'', Authorization),
      (''row_not_found'', NotFound), (''row_conflict'', Conflict),
      (''constraint_failed'', Constraint), (''unique_violation'', Constraint),
      (''not_null_violation'', Constraint), (''foreign_key_violation'', Constraint),
      (''busy'', Busy), (''locked'', Locked), (''timeout'', Timeout), (''read_only'', ReadOnlyKind),
      (''version_conflict'', VersionConflict), (''idempotency_conflict'', IdempotencyConflict),
      (''idempotency_in_progress'', IdempotencyInProgress),
      (''transaction_aborted'', TransactionAborted), (''quota_exceeded'', Quota),
      (''payload_too_large'', Quota), (''rate_limited'', RateLimited),
      (''storage_failure'', Storage), (''storage_unavailable'', Unavailable)]"

definition supabase_status_kind :: "u16 \<Rightarrow> adapter_error_kind" where
  "supabase_status_kind status =
     (if 300 \<le> status \<and> status \<le> 399 then Protocol
      else if status = 401 then Authentication
      else if status = 402 \<or> status = 403 then Authorization
      else if status = 404 then NotFound
      else if status = 408 then Timeout
      else if status = 409 then Conflict
      else if status = 413 then Quota
      else if status = 429 then RateLimited
      else if status = 500 then Storage
      else if 502 \<le> status \<and> status \<le> 504 then Unavailable
      else Query)"

definition remote_code :: "('w, 'n) supabase_host \<Rightarrow> u8 list \<Rightarrow> string option" where
  "remote_code H body =
     Option.bind (parse_json H body) (\<lambda>v.
     Option.bind (value_get v ''error'') (\<lambda>e.
     Option.bind (value_get e ''code'') value_as_str))"

definition supabase_remote_error :: "('w, 'n) supabase_host \<Rightarrow> u16 \<Rightarrow> u8 list \<Rightarrow> dactyl_error" where
  "supabase_remote_error H status body =
     (case Option.bind (remote_code H body) (\<lambda>c. map_option (Pair c) (map_of supabase_known_codes c)) of
        Some (code, kind) \<Rightarrow> adapter_with_code kind code
          [Txt ''Supabase service rejected request ('', Txt code, Txt '')'']
      | None \<Rightarrow> adapter (supabase_status_kind status)
          [Txt ''Supabase service returned HTTP status '', Num (uint status)])"

section \<open>Endpoint policy and construction\<close>

definition host_is_loopback :: "url \<Rightarrow> bool" where
  "host_is_loopback u =
     (case url_host u of
        None \<Rightarrow> False
      | Some host \<Rightarrow>
          (case parse_ip (trim_chars ''[]'' host) of None \<Rightarrow> False | Some ip \<Rightarrow> ip_is_loopback ip))"

definition validate_endpoint :: "('w, 'n) supabase_host \<Rightarrow> string \<Rightarrow> url result" where
  "validate_endpoint H endpoint =
     rbind (ok_or (Config [Txt ''invalid Supabase service URL'']) (parse_url H endpoint)) (\<lambda>u.
       if \<not> (url_scheme u = ''https'' \<or> url_scheme u = ''http'' \<and> host_is_loopback u)
          \<or> url_host u = None \<or> url_username u \<noteq> [] \<or> url_password u \<noteq> None
          \<or> url_query u \<noteq> None \<or> url_fragment u \<noteq> None
       then Inl (Config [Txt ''Supabase requires an HTTPS service URL (HTTP only for literal loopback), without credentials, query or fragment''])
       else Inr u)"

record 'n supabase_adapter =
  supa_endpoint :: string
  supa_bearer :: string
  supa_mode :: access_mode
  supa_context :: "'n storage_context"

definition supabase_new ::
  "('w, 'n) supabase_host \<Rightarrow> string \<Rightarrow> string option \<Rightarrow> open_options \<Rightarrow> 'n storage_context option \<Rightarrow>
     'n supabase_adapter result"
where
  "supabase_new H endpoint bearer options context =
     rbind (validate_endpoint H endpoint) (\<lambda>u.
     rbind (ok_or (adapter_with_code Authentication ''authentication_required''
               [Txt ''Supabase service requires a user bearer token''])
             (Option.bind bearer (\<lambda>b. if trim b \<noteq> [] then Some b else None))) (\<lambda>token.
     rbind (ok_or (Config [Txt ''invalid Supabase bearer token'']) (header_value H (''Bearer '' @ token))) (\<lambda>header.
     rbind (ok_or (adapter_with_code Authentication ''missing_context''
               [Txt ''Supabase service requires an authenticated storage context'']) context) (\<lambda>c.
     rbind (validate_context c) (\<lambda>_.
       Inr \<lparr>supa_endpoint = trim_end_char CHR ''/'' (url_text u), supa_bearer = header,
            supa_mode = open_access_mode options, supa_context = c\<rparr>)))))"

section \<open>One bounded request\<close>

text \<open>\<open>take(limit).read_to_end\<close>: an error beyond the limit is never reached.\<close>

definition read_limited :: "nat \<Rightarrow> u8 list \<Rightarrow> read_error option \<Rightarrow> read_error + u8 list" where
  "read_limited limit bs failure =
     (if limit \<le> length bs then Inr (take limit bs)
      else case failure of Some e \<Rightarrow> Inl e | None \<Rightarrow> Inr bs)"

definition read_answer ::
  "('w, 'n) supabase_host \<Rightarrow> (u8 list \<Rightarrow> 'a option) \<Rightarrow> u16 \<Rightarrow> u8 list \<Rightarrow> read_error option \<Rightarrow> 'a result"
where
  "read_answer H from_slice status body failure =
     (case read_limited (max_body_bytes + 1) body failure of
        Inl e \<Rightarrow> Inl (transport_error (body_read_timed_out e))
      | Inr bs \<Rightarrow>
          if max_body_bytes < length bs
          then Inl (protocol_error ''Supabase response exceeds the 4 MiB limit'')
          else if \<not> (200 \<le> status \<and> status < 300) then Inl (supabase_remote_error H status bs)
          else ok_or (protocol_error ''invalid Supabase service response'') (from_slice bs))"

text \<open>The worker: build the client, post, read the answer. A panic ends the thread, which \<open>join\<close> reports.\<close>

definition send_request ::
  "('w, 'n) supabase_host \<Rightarrow> (u8 list \<Rightarrow> 'a option) \<Rightarrow> supabase_post \<Rightarrow> ('w, dactyl_error, 'a) io"
where
  "send_request H from_slice post = (\<lambda>w.
     case build_client H w of (built, w1) \<Rightarrow>
       if \<not> built then Some (Inl (transport_error False), w1)
       else case post_request H post w1 of
         (SendFailed timeout, w2) \<Rightarrow> Some (Inl (transport_error timeout), w2)
       | (WorkerPanicked, w2) \<Rightarrow> Some (Inl (transport_error False), w2)
       | (Answered status body failure, w2) \<Rightarrow> Some (read_answer H from_slice status body failure, w2))"

definition supabase_send ::
  "('w, 'n) supabase_host \<Rightarrow> 'n supabase_adapter \<Rightarrow> (u8 list \<Rightarrow> 'a option) \<Rightarrow> string \<Rightarrow> 'n supabase_body \<Rightarrow>
     ('w, dactyl_error, 'a) io"
where
  "supabase_send H a from_slice path request = (\<lambda>w.
     case encode_body H request of
       Inl _ \<Rightarrow> Some (Inl (adapter ValueKind [Txt ''invalid request value'']), w)
     | Inr body \<Rightarrow>
         if max_body_bytes < length body
         then Some (Inl (adapter_with_code Quota ''payload_too_large''
                [Txt ''Supabase request exceeds the 4 MiB limit'']), w)
         else case spawn_worker H w of (spawned, w1) \<Rightarrow>
           if \<not> spawned then Some (Inl (transport_error False), w1)
           else send_request H from_slice
             \<lparr>post_url = supa_endpoint a @ path, post_authorization = supa_bearer a, post_body = body\<rparr> w1)"

section \<open>Operations\<close>

definition non_finite :: "parameter \<Rightarrow> bool" where
  "non_finite p = (case p of PReal v \<Rightarrow> \<not> is_finite v | _ \<Rightarrow> False)"

definition check_parameters :: "parameter list \<Rightarrow> unit result" where
  "check_parameters params =
     (if list_ex non_finite params
      then Inl (adapter_with_code ValueKind ''unsupported_value''
             [Txt ''non-finite real parameters are unsupported''])
      else Inr ())"

definition supabase_ensure_writable :: "access_mode \<Rightarrow> unit result" where
  "supabase_ensure_writable mode =
     (if mode = ReadOnly then Inl (adapter_with_code ReadOnlyKind ''read_only'' [Txt ''route is read-only''])
      else Inr ())"

definition supabase_request ::
  "('w, 'n) supabase_host \<Rightarrow> 'n supabase_adapter \<Rightarrow> string \<Rightarrow> parameter list \<Rightarrow> operation_kind \<Rightarrow>
     ('w, dactyl_error, 'n supabase_response) io"
where
  "supabase_request H a sql params kind =
     io_bind (io_lift (check_parameters params)) (\<lambda>_.
       supabase_send H a (decode_response H) ''/query''
         (SupaQuery sql params kind (if kind = ReadOp then ReadOnly else supa_mode a) (supa_context a)))"

definition supported_value :: "'n json_api \<Rightarrow> 'n json \<Rightarrow> bool" where
  "supported_value J v =
     (case v of
        JNull \<Rightarrow> True
      | JBool _ \<Rightarrow> True
      | JString _ \<Rightarrow> True
      | JNumber n \<Rightarrow> as_i64 J n \<noteq> None \<or>
          is_f64 J n \<and> (case as_f64 J n of Some f \<Rightarrow> is_finite f | None \<Rightarrow> False)
      | JArray bs \<Rightarrow> list_all (\<lambda>b. case value_as_u64 J b of Some n \<Rightarrow> n \<le> 255 | None \<Rightarrow> False) bs
      | _ \<Rightarrow> False)"

definition supabase_row :: "'n json_api \<Rightarrow> string list \<Rightarrow> 'n json \<Rightarrow> 'n row result" where
  "supabase_row J columns v =
     rbind (ok_or (protocol_error ''Supabase row must be an object'') (as_object v)) (\<lambda>es.
       if length es \<noteq> length columns then Inl (protocol_error ''Supabase row does not match columns'')
       else rbind (traverse (\<lambda>name.
           rbind (ok_or (protocol_error ''Supabase row is missing a column'') (map_of es name)) (\<lambda>x.
             if \<not> supported_value J x
             then Inl (adapter_with_code Capability ''unsupported_type''
                    [Txt ''service returned a value outside the portable scalar/blob profile''])
             else Inr x)) columns)
         (\<lambda>values. Inr \<lparr>row_columns = columns, row_values = values\<rparr>))"

definition supabase_rows :: "'n json_api \<Rightarrow> 'n supabase_response \<Rightarrow> 'n rows result" where
  "supabase_rows J r =
     (if \<not> distinct (sr_columns r)
      then Inl (protocol_error ''duplicate columns are not representable by the service row contract'')
      else traverse (supabase_row J (sr_columns r)) (sr_rows r))"

definition supabase_write_result :: "'n supabase_response \<Rightarrow> write_result" where
  "supabase_write_result r = \<lparr>affected_rows = sr_affected r, generated_keys = sr_keys r\<rparr>"

definition supabase_read ::
  "('w, 'n) supabase_host \<Rightarrow> 'n json_api \<Rightarrow> 'n supabase_adapter \<Rightarrow> string \<Rightarrow> parameter list \<Rightarrow> ('w, dactyl_error, 'n rows) io"
where
  "supabase_read H J a sql params =
     io_bind (supabase_request H a sql params ReadOp) (\<lambda>r. io_lift (supabase_rows J r))"

definition supabase_write ::
  "('w, 'n) supabase_host \<Rightarrow> 'n supabase_adapter \<Rightarrow> string \<Rightarrow> parameter list \<Rightarrow> ('w, dactyl_error, write_result) io"
where
  "supabase_write H a sql params =
     io_bind (io_lift (supabase_ensure_writable (supa_mode a))) (\<lambda>_.
     io_bind (supabase_request H a sql params WriteOp) (\<lambda>r. io_return (supabase_write_result r)))"

fun supabase_result :: "'n json_api \<Rightarrow> operation \<times> 'n supabase_response \<Rightarrow> 'n operation_result result" where
  "supabase_result J (op, r) =
     (if op_kind op = ReadOp then rmap RowsResult (supabase_rows J r)
      else Inr (Written (supabase_write_result r)))"

definition supabase_atomic ::
  "('w, 'n) supabase_host \<Rightarrow> 'n json_api \<Rightarrow> 'n supabase_adapter \<Rightarrow> operation list \<Rightarrow> ('w, dactyl_error, 'n atomic_result) io"
where
  "supabase_atomic H J a ops =
     (if ops = [] then io_return []
      else
        io_bind (if mutates ops then io_lift (supabase_ensure_writable (supa_mode a)) else io_return ()) (\<lambda>_.
        io_bind (io_lift (traverse (\<lambda>op. check_parameters (op_params op)) ops)) (\<lambda>_.
        io_bind (supabase_send H a (decode_batch_response H) ''/batch''
                   (SupaBatch ops (supa_mode a) (supa_context a))) (\<lambda>rs.
          if length rs \<noteq> length ops
          then io_fail (protocol_error ''Supabase batch result count does not match operation count'')
          else io_lift (traverse (supabase_result J) (zip ops rs))))))"

section \<open>The contract of the driver\<close>

lemma supabase_result_fits: "supabase_result J (op, r) = Inr q \<Longrightarrow> result_fits op q"
  by (auto simp: result_iffs split: if_splits)

lemma supabase_atomic_fits:
  "supabase_atomic H J a ops w = Some (Inr rs, w') \<Longrightarrow> list_all2 result_fits ops rs"
  by (auto simp: supabase_atomic_def io_iffs split: if_splits intro: traverse_zip_fits [OF supabase_result_fits])

interpretation supabase: driver "supabase_write H a" "supabase_atomic H J a" "supa_mode a"
  for H :: "('w, 'n) supabase_host" and J :: "'n json_api" and a :: "'n supabase_adapter"
proof unfold_locales
  fix sql params and w :: 'w
  assume "supa_mode a = ReadOnly"
  then show "\<exists>e. supabase_write H a sql params w = Some (Inl e, w) \<and> adapter_kind e = Some ReadOnlyKind"
    by (simp add: supabase_write_def supabase_ensure_writable_def io_bind_def io_lift_def)
next
  fix ops and w :: 'w
  assume "supa_mode a = ReadOnly" "mutates ops"
  then show "\<exists>e. supabase_atomic H J a ops w = Some (Inl e, w) \<and> adapter_kind e = Some ReadOnlyKind"
    by (auto simp: supabase_atomic_def supabase_ensure_writable_def io_bind_def io_lift_def)
next
  fix w :: 'w
  show "supabase_atomic H J a [] w = Some (Inr [], w)"
    by (simp add: supabase_atomic_def io_iffs)
next
  fix ops :: "operation list" and rs :: "'n operation_result list" and w w' :: 'w
  show "supabase_atomic H J a ops w = Some (Inr rs, w') \<Longrightarrow> list_all2 result_fits ops rs"
    by (rule supabase_atomic_fits)
qed

section \<open>What the errors say\<close>

text \<open>
  The errors a service call can return, as a set that mentions no endpoint, token, context,
  statement, parameter or byte of an answer: fixed texts, the known codes, the HTTP status.
\<close>

definition public_errors :: "dactyl_error set" where
  "public_errors =
     range transport_error \<union>
     protocol_error ` {''Supabase response exceeds the 4 MiB limit'', ''invalid Supabase service response'',
       ''Supabase row must be an object'', ''Supabase row does not match columns'',
       ''Supabase row is missing a column'',
       ''duplicate columns are not representable by the service row contract'',
       ''Supabase batch result count does not match operation count''} \<union>
     (\<lambda>(code, kind). adapter_with_code kind code
        [Txt ''Supabase service rejected request ('', Txt code, Txt '')'']) ` set supabase_known_codes \<union>
     range (\<lambda>status. adapter (supabase_status_kind status)
        [Txt ''Supabase service returned HTTP status '', Num (uint status)]) \<union>
     {adapter ValueKind [Txt ''invalid request value''],
      adapter_with_code Quota ''payload_too_large'' [Txt ''Supabase request exceeds the 4 MiB limit''],
      adapter_with_code Capability ''unsupported_type''
        [Txt ''service returned a value outside the portable scalar/blob profile''],
      adapter_with_code ValueKind ''unsupported_value'' [Txt ''non-finite real parameters are unsupported''],
      adapter_with_code ReadOnlyKind ''read_only'' [Txt ''route is read-only'']}"

lemma public_transport [simp]: "transport_error t \<in> public_errors"
  by (simp add: public_errors_def)

lemma public_remote [simp]: "supabase_remote_error H status body \<in> public_errors"
proof (cases "Option.bind (remote_code H body) (\<lambda>c. map_option (Pair c) (map_of supabase_known_codes c))")
  case None
  then show ?thesis by (simp add: supabase_remote_error_def public_errors_def)
next
  case (Some p)
  then have "p \<in> set supabase_known_codes"
    by (auto simp: bind_eq_Some_conv dest: map_of_SomeD)
  moreover have "supabase_remote_error H status body = (\<lambda>(code, kind). adapter_with_code kind code
        [Txt ''Supabase service rejected request ('', Txt code, Txt '')'']) p"
    using Some by (simp add: supabase_remote_error_def)
  ultimately show ?thesis unfolding public_errors_def by blast
qed

lemma read_answer_public: "read_answer H f status body failure = Inl e \<Longrightarrow> e \<in> public_errors"
  by (auto simp: read_answer_def result_iffs split: sum.splits if_splits)
    (simp_all add: public_errors_def)

lemma send_request_public: "send_request H f post w = Some (Inl e, w') \<Longrightarrow> e \<in> public_errors"
  by (auto simp: send_request_def split: prod.splits if_splits post_outcome.splits dest: read_answer_public)

lemma supabase_send_public: "supabase_send H a f path req w = Some (Inl e, w') \<Longrightarrow> e \<in> public_errors"
  by (auto simp: supabase_send_def split: sum.splits prod.splits if_splits dest: send_request_public)
    (simp_all add: public_errors_def)

lemma check_parameters_public: "check_parameters params = Inl e \<Longrightarrow> e \<in> public_errors"
  by (auto simp: check_parameters_def public_errors_def split: if_splits)

lemma supabase_row_public: "supabase_row J columns v = Inl e \<Longrightarrow> e \<in> public_errors"
proof -
  assume *: "supabase_row J columns v = Inl e"
  have cell: "e \<in> public_errors"
    if "traverse (\<lambda>name. rbind (ok_or (protocol_error ''Supabase row is missing a column'') (map_of es name)) (\<lambda>x.
             if \<not> supported_value J x
             then Inl (adapter_with_code Capability ''unsupported_type''
                    [Txt ''service returned a value outside the portable scalar/blob profile''])
             else Inr x)) columns = Inl e" for es
    using traverse_Inl [OF that] by (auto simp: result_iffs public_errors_def split: if_splits)
  from * show ?thesis
    by (auto simp: supabase_row_def result_iffs split: if_splits intro: cell) (simp_all add: public_errors_def)
qed

lemma supabase_rows_public: "supabase_rows J r = Inl e \<Longrightarrow> e \<in> public_errors"
  by (auto simp: supabase_rows_def split: if_splits dest!: traverse_Inl dest: supabase_row_public)
    (simp add: public_errors_def)

section \<open>Properties\<close>

text \<open>
  A service for closed examples: it records what it is sent and answers every request with the
  body \<open>[1]\<close>, which decodes to one row; the status is the field given.
\<close>

definition demo_answer :: "ref_num supabase_response" where
  "demo_answer = \<lparr>sr_columns = [''id'', ''data''],
     sr_rows = [JObject [(''data'', JArray [JNumber (PosInt 255)]), (''id'', JNumber (PosInt 7))]],
     sr_affected = 1, sr_keys = []\<rparr>"

definition demo_host :: "u16 \<Rightarrow> (supabase_post list, ref_num) supabase_host" where
  "demo_host status =
     \<lparr>parse_url = (\<lambda>s. Some \<lparr>url_text = s, url_scheme = ''http'', url_host = Some ''127.0.0.1'', url_username = [],
        url_password = None, url_query = None, url_fragment = None\<rparr>),
      header_value = Some, encode_body = (\<lambda>req. Inr [0, 0]),
      spawn_worker = (\<lambda>w. (True, w)), build_client = (\<lambda>w. (True, w)),
      post_request = (\<lambda>p w. (Answered status [1] None, w @ [p])),
      decode_response = (\<lambda>b. Some demo_answer), decode_batch_response = (\<lambda>b. Some [demo_answer]),
      parse_json = (\<lambda>b. None)\<rparr>"

definition demo_supabase :: "ref_num supabase_adapter" where
  "demo_supabase = \<lparr>supa_endpoint = ''https://s'', supa_bearer = ''Bearer t'', supa_mode = ReadWrite,
     supa_context = \<lparr>ctx_version = 1, ctx_payload = JObject []\<rparr>\<rparr>"

text \<open>
  C26: no error of a Supabase read, write or batch carries remote or caller data: each is one of
  \<open>public_errors\<close>, whatever the service answered, the token, the statement and the parameters.
\<close>

theorem supabase_errors_are_public:
  assumes "supabase_read H J a sql params w = Some (Inl e1, w1)"
    and "supabase_write H a sql params w = Some (Inl e2, w2)"
    and "supabase_atomic H J a ops w = Some (Inl e3, w3)"
  shows "{e1, e2, e3} \<subseteq> public_errors"
proof -
  have mode: "supabase_ensure_writable m = Inl e \<Longrightarrow> e \<in> public_errors" for m e
    by (auto simp: supabase_ensure_writable_def public_errors_def split: if_splits)
  have rows: "supabase_result J (op, r) = Inl e \<Longrightarrow> e \<in> public_errors" for op r e
    by (auto simp: result_iffs split: if_splits dest: supabase_rows_public)
  have req: "supabase_request H a sql params k w = Some (Inl e, w') \<Longrightarrow> e \<in> public_errors" for k e w'
    by (auto simp: supabase_request_def io_iffs dest: check_parameters_public supabase_send_public)
  have "e1 \<in> public_errors"
    using assms(1) by (auto simp: supabase_read_def io_iffs dest: req supabase_rows_public)
  moreover have "e2 \<in> public_errors"
    using assms(2) by (auto simp: supabase_write_def io_iffs dest: mode req)
  moreover have "e3 \<in> public_errors"
    using assms(3)
    by (auto simp: supabase_atomic_def io_iffs split: if_splits dest!: traverse_Inl
        dest: mode check_parameters_public supabase_send_public rows) (simp_all add: public_errors_def)
  ultimately show ?thesis by simp
qed

theorem supabase_errors_are_public_witness:
  "\<exists>e1 e2 e3 w1 w2 w3. supabase_read (demo_host 500) ref_json demo_supabase ''select 1'' [] [] = Some (Inl e1, w1) \<and>
     supabase_write (demo_host 500) demo_supabase ''select 1'' [] [] = Some (Inl e2, w2) \<and>
     supabase_atomic (demo_host 500) ref_json demo_supabase [operation_read ''select 1'' []] [] = Some (Inl e3, w3) \<and>
     {e1, e2, e3} \<subseteq> public_errors"
proof -
  let ?r = "supabase_read (demo_host 500) ref_json demo_supabase ''select 1'' [] []"
    and ?w = "supabase_write (demo_host 500) demo_supabase ''select 1'' [] []"
    and ?a = "supabase_atomic (demo_host 500) ref_json demo_supabase [operation_read ''select 1'' []] []"
  have f: "fails ?r (\<lambda>e w. True)" "fails ?w (\<lambda>e w. True)" "fails ?a (\<lambda>e w. True)"
    by (simp_all add: fails_def supabase_read_def supabase_write_def supabase_atomic_def supabase_request_def
        supabase_send_def send_request_def read_answer_def read_limited_def max_body_bytes_def demo_host_def
        demo_supabase_def supabase_ensure_writable_def check_parameters_def io_bind_def io_lift_def io_return_def
        operation_read_def)
  obtain e1 w1 where r: "?r = Some (Inl e1, w1)" using f(1) by (rule failsE)
  obtain e2 w2 where w: "?w = Some (Inl e2, w2)" using f(2) by (rule failsE)
  obtain e3 w3 where a: "?a = Some (Inl e3, w3)" using f(3) by (rule failsE)
  from supabase_errors_are_public [OF r w a] r w a show ?thesis by blast
qed

text \<open>
  C33: a non-finite real never reaches the service: reads, writes and batches that carry one
  fail with the typed \<open>unsupported_value\<close> error before anything is sent.
\<close>

theorem non_finite_never_sent:
  assumes "list_ex non_finite params" and "supa_mode a = ReadWrite"
    and "op \<in> set ops" and "list_ex non_finite (op_params op)"
  shows "\<exists>e. adapter_code e = Some ''unsupported_value'' \<and>
     supabase_read H J a sql params w = Some (Inl e, w) \<and>
     supabase_write H a sql params w = Some (Inl e, w) \<and>
     supabase_atomic H J a ops w = Some (Inl e, w)"
proof -
  let ?e = "adapter_with_code ValueKind ''unsupported_value'' [Txt ''non-finite real parameters are unsupported'']"
  have c: "check_parameters ps = (if list_ex non_finite ps then Inl ?e else Inr ())" for ps
    by (simp add: check_parameters_def)
  have t: "traverse (\<lambda>op. check_parameters (op_params op)) ops = Inl ?e"
    using assms(3,4) by (induction ops) (auto simp: c)
  have "ops \<noteq> []" using assms(3) by auto
  with assms(1,2) t show ?thesis
    by (intro exI [of _ ?e])
      (simp add: supabase_read_def supabase_write_def supabase_atomic_def supabase_request_def
        supabase_ensure_writable_def c io_bind_def io_lift_def io_return_def)
qed

theorem non_finite_never_sent_witness:
  "\<exists>e. supabase_read (demo_host 200) ref_json demo_supabase ''select ?'' [PReal 0x7FF0000000000000] [] = Some (Inl e, [])"
  using non_finite_never_sent [of "[PReal 0x7FF0000000000000]" demo_supabase
      "operation_read ''select ?'' [PReal 0x7FF0000000000000]" "[operation_read ''select ?'' [PReal 0x7FF0000000000000]]"
      "demo_host 200" ref_json "''select ?''" "[]"]
  by (auto simp: non_finite_def is_finite_def operation_read_def demo_supabase_def)

text \<open>
  C34: every row a Supabase read returns is complete and portable: the columns are distinct, the
  row object has exactly as many members, each column reads back as its member, and that member
  is a value of the portable profile.
\<close>

theorem supabase_rows_portable:
  assumes "supabase_rows J r = Inr rows"
  shows "distinct (sr_columns r) \<and>
     list_all2 (\<lambda>v row. \<exists>es. v = JObject es \<and> length es = length (sr_columns r) \<and>
       row_columns row = sr_columns r \<and>
       (\<forall>c \<in> set (sr_columns r). \<exists>x. map_of es c = Some x \<and> get_json row (ByName c) = Inr x \<and> supported_value J x))
       (sr_rows r) rows"
proof -
  have d: "distinct (sr_columns r)" and t: "traverse (supabase_row J (sr_columns r)) (sr_rows r) = Inr rows"
    using assms by (auto simp: supabase_rows_def split: if_splits)
  have "\<exists>es. v = JObject es \<and> length es = length (sr_columns r) \<and> row_columns row = sr_columns r \<and>
       (\<forall>c \<in> set (sr_columns r). \<exists>x. map_of es c = Some x \<and> get_json row (ByName c) = Inr x \<and> supported_value J x)"
    if row: "supabase_row J (sr_columns r) v = Inr row" for v row
  proof -
    from row obtain es where v: "v = JObject es" and l: "length es = length (sr_columns r)"
      and c: "row_columns row = sr_columns r"
      and vs: "list_all2 (\<lambda>name x. supported_value J x \<and> map_of es name = Some x) (sr_columns r) (row_values row)"
      by (cases v) (auto simp: supabase_row_def result_iffs traverse_Inr_iff split: if_splits
          elim!: list_all2_mono)
    have "\<exists>x. map_of es n = Some x \<and> get_json row (ByName n) = Inr x \<and> supported_value J x"
      if "n \<in> set (sr_columns r)" for n
    proof -
      from that obtain i where i: "position (\<lambda>x. x = n) (sr_columns r) = Some i"
        by (cases "position (\<lambda>x. x = n) (sr_columns r)") (auto simp: position_None_iff)
      then have n: "sr_columns r ! i = n" "i < length (sr_columns r)" by (simp_all add: position_Some_iff)
      with list_all2_nthD [OF vs n(2)] list_all2_lengthD [OF vs] i c show ?thesis
        by (auto simp: get_json_def row_cell_Inr_iff)
    qed
    with v l c show ?thesis by blast
  qed
  with d t show ?thesis
    unfolding traverse_Inr_iff by (auto elim!: list_all2_mono)
qed

theorem supabase_rows_portable_witness:
  "\<exists>rows. supabase_rows ref_json demo_answer = Inr rows \<and>
     map (\<lambda>row. get_json row (ByName ''id'')) rows = [Inr (JNumber (PosInt 7))]"
proof -
  have "\<not> isl (supabase_rows ref_json demo_answer)" by code_simp
  then obtain rows where r: "supabase_rows ref_json demo_answer = Inr rows"
    by (cases "supabase_rows ref_json demo_answer") auto
  from supabase_rows_portable [OF r] r show ?thesis
    by (auto simp: demo_answer_def list_all2_Cons1)
qed

text \<open>
  C35: an accepted endpoint carries no credentials, query or fragment, and is HTTPS unless its
  host is written as an address of the loopback range: a name, however it ends, never is.
\<close>

theorem accepted_endpoints:
  assumes "validate_endpoint H endpoint = Inr u"
  shows "parse_url H endpoint = Some u \<and> url_username u = [] \<and> url_password u = None \<and>
     url_query u = None \<and> url_fragment u = None \<and>
     (url_scheme u = ''https'' \<or>
      url_scheme u = ''http'' \<and> (\<exists>host ip. url_host u = Some host \<and>
         list_all ip_char (trim_chars ''[]'' host) \<and> parse_ip (trim_chars ''[]'' host) = Some ip \<and>
         (case ip of V4 a b c d \<Rightarrow> a = 127 | V6 groups \<Rightarrow> groups = replicate 7 0 @ [1])))"
proof -
  have "ip_is_loopback ip \<longleftrightarrow> (case ip of V4 a b c d \<Rightarrow> a = 127 | V6 groups \<Rightarrow> groups = replicate 7 0 @ [1])" for ip
    by (cases ip) (simp_all add: numeral_eq_Suc)
  with assms show ?thesis
    by (auto simp: validate_endpoint_def result_iffs host_is_loopback_def parse_ip_chars
        split: if_splits option.splits)
qed

theorem accepted_endpoints_witness:
  "\<exists>u. validate_endpoint (demo_host 200) ''http://127.0.0.1/'' = Inr u \<and> url_query u = None"
proof -
  have "\<not> isl (validate_endpoint (demo_host 200) ''http://127.0.0.1/'')" by code_simp
  then obtain u where u: "validate_endpoint (demo_host 200) ''http://127.0.0.1/'' = Inr u"
    by (cases "validate_endpoint (demo_host 200) ''http://127.0.0.1/''") auto
  from accepted_endpoints [OF u] u show ?thesis by blast
qed

text \<open>
  The literal loopback forms, and the look-alikes that are not: names, short forms, octal
  and mapped addresses are refused.
\<close>

theorem loopback_literals:
  "list_all (\<lambda>h. case parse_ip (trim_chars ''[]'' h) of Some ip \<Rightarrow> ip_is_loopback ip | None \<Rightarrow> False)
     [''127.0.0.1'', ''127.255.1.2'', ''[::1]'', ''[0:0:0:0:0:0:0:1]'', ''[::0.0.0.1]''] \<and>
   list_all (\<lambda>h. case parse_ip (trim_chars ''[]'' h) of Some ip \<Rightarrow> \<not> ip_is_loopback ip | None \<Rightarrow> True)
     [''localhost'', ''127.0.0.1.example.com'', ''127.1'', ''0127.0.0.1'', ''127.0.0.256'', ''128.0.0.1'',
      ''[::ffff:127.0.0.1]'', ''[::2]'', ''[1::1]'', ''::1::'', [] ]"
  by code_simp

text \<open>
  C32: a request whose body is larger than 4 MiB is refused before a worker is started; a call
  returns a value only from an answer with a 2xx status that was read to its end, is within 4 MiB
  and is decoded whole; and an answer that is longer is refused as such, whatever its status, and
  never used in part.
\<close>

theorem supabase_calls_are_bounded:
  assumes "supabase_send H a f path req w = Some (r, w')"
  shows "case encode_body H req of
     Inl _ \<Rightarrow> w' = w \<and> isl r
   | Inr body \<Rightarrow>
       (let w1 = snd (build_client H (snd (spawn_worker H w)));
            post = \<lparr>post_url = supa_endpoint a @ path, post_authorization = supa_bearer a, post_body = body\<rparr>
        in if max_body_bytes < length body then w' = w \<and> isl r
           else (\<forall>v. r = Inr v \<longrightarrow>
               (\<exists>status answer. post_request H post w1 = (Answered status answer None, w') \<and>
                  200 \<le> status \<and> status < 300 \<and> length answer \<le> max_body_bytes \<and> f answer = Some v)) \<and>
             (\<forall>status answer failure.
               fst (spawn_worker H w) \<and> fst (build_client H (snd (spawn_worker H w))) \<and>
               fst (post_request H post w1) = Answered status answer failure \<and> max_body_bytes < length answer \<longrightarrow>
               r = Inl (protocol_error ''Supabase response exceeds the 4 MiB limit'')))"
proof -
  have answer: "200 \<le> status \<and> status < 300 \<and> length body \<le> max_body_bytes \<and> failure = None \<and> f body = Some v"
    if "read_answer H f status body failure = Inr v" for status body failure v
    using that by (auto simp: read_answer_def read_limited_def result_iffs split: if_splits option.splits)
  have long: "read_answer H f status body failure = Inl (protocol_error ''Supabase response exceeds the 4 MiB limit'')"
    if "max_body_bytes < length body" for status body failure
    using that by (simp add: read_answer_def read_limited_def)
  show ?thesis
  proof (cases "encode_body H req")
    case (Inl e)
    with assms show ?thesis by (auto simp: supabase_send_def)
  next
    case (Inr body)
    with assms show ?thesis
      by (auto simp: supabase_send_def send_request_def Let_def long split: prod.splits if_splits post_outcome.splits
          dest!: answer)
  qed
qed

theorem supabase_calls_are_bounded_witness:
  "\<exists>w'. supabase_send (demo_host 200) demo_supabase (\<lambda>b. Some b) ''/query'' (SupaBatch [] ReadOnly (supa_context demo_supabase)) []
     = Some (Inr [1], w') \<and> length w' = 1"
proof -
  let ?c = "supabase_send (demo_host 200) demo_supabase (\<lambda>b. Some b) ''/query'' (SupaBatch [] ReadOnly (supa_context demo_supabase)) []"
  have s: "?c = Some (Inr [1], [\<lparr>post_url = ''https://s/query'', post_authorization = ''Bearer t'', post_body = [0, 0]\<rparr>])"
    by (simp add: supabase_send_def send_request_def read_answer_def read_limited_def max_body_bytes_def
        demo_host_def demo_supabase_def)
  from supabase_calls_are_bounded [OF s] s show ?thesis by simp
qed

end
