(* ===== verification/Connection.thy ===== *)
theory Connection
  imports Neon Supabase Sqlite_Catalog Sqlite_Backup Recovery
begin

text \<open>
  The facade, \<open>src/lib.rs\<close>: routes and their selection from the environment, the connection that
  dispatches to one of the three backends, and the calls that open a connection, use it once and
  drop it. The trait object \<open>Box<dyn Adapter>\<close> is the datatype \<open>backend\<close>.
\<close>

section \<open>Routes\<close>

datatype datastore = Sqlite | Neon | Supabase

datatype datastore_transport = Local | Http

record datastore_route =
  route_datastore :: datastore
  route_text :: string
  route_token :: "string option"

definition route_sqlite :: "string \<Rightarrow> datastore_route" where
  "route_sqlite path = \<lparr>route_datastore = Sqlite, route_text = path, route_token = None\<rparr>"

definition route_neon :: "string \<Rightarrow> string option \<Rightarrow> datastore_route" where
  "route_neon endpoint token = \<lparr>route_datastore = Neon, route_text = endpoint, route_token = token\<rparr>"

definition route_supabase :: "string \<Rightarrow> string option \<Rightarrow> datastore_route" where
  "route_supabase endpoint token =
     \<lparr>route_datastore = Supabase, route_text = endpoint, route_token = token\<rparr>"

definition transport :: "datastore_route \<Rightarrow> datastore_transport" where
  "transport r = (case route_datastore r of Sqlite \<Rightarrow> Local | Neon \<Rightarrow> Http | Supabase \<Rightarrow> Http)"

text \<open>The \<open>Debug\<close> text of a route, as \<open>{:?}\<close> prints it.\<close>

definition datastore_debug :: "datastore \<Rightarrow> string" where
  "datastore_debug d = (case d of Sqlite \<Rightarrow> ''Sqlite'' | Neon \<Rightarrow> ''Neon'' | Supabase \<Rightarrow> ''Supabase'')"

definition transport_debug :: "datastore_transport \<Rightarrow> string" where
  "transport_debug t = (case t of Local \<Rightarrow> ''Local'' | Http \<Rightarrow> ''Http'')"

definition redacted :: string where
  "redacted = [dquote_char] @ ''[redacted]'' @ [dquote_char]"

definition route_debug :: "datastore_route \<Rightarrow> string" where
  "route_debug r =
     ''DatastoreRoute { datastore: '' @ datastore_debug (route_datastore r) @
     '', transport: '' @ transport_debug (transport r) @ '', route: '' @ redacted @
     '', token: '' @ (case route_token r of None \<Rightarrow> ''None'' | Some _ \<Rightarrow> ''Some('' @ redacted @ '')'') @ '' }''"

section \<open>Selection from the environment\<close>

definition not_blank :: "string \<Rightarrow> string option" where
  "not_blank v = (if trim v \<noteq> [] then Some v else None)"

definition route_from_env_values ::
  "string option \<Rightarrow> string option \<Rightarrow> string option \<Rightarrow> datastore_route result"
where
  "route_from_env_values datastore route token =
     rbind (ok_or (Config [Txt ''DATASTORE is not set: use sqlite, neon or supabase'']) datastore) (\<lambda>d.
     rbind (ok_or (Config [Txt ''DATASTORE_ROUTE is not set'']) route) (\<lambda>r.
     if trim r = [] then Inl (Config [Txt ''DATASTORE_ROUTE must not be empty''])
     else if d = ''sqlite'' then Inr (route_sqlite r)
     else if d = ''neon'' then Inr (route_neon r (Option.bind token not_blank))
     else if d = ''supabase'' then Inr (route_supabase r (Option.bind token not_blank))
     else Inl (Config [Txt ''invalid DATASTORE value: use sqlite, neon or supabase''])))"

section \<open>The system around a connection\<close>

text \<open>
  Everything a connection calls: the host, SQLite, the two HTTP clients, the JSON library, the
  environment, the cargo features of the build and whether its target supports recovery. One
  world holds all of it; the state of a call is the \<open>process\<close> with its connection registry.
\<close>

record features =
  feature_sqlite :: bool
  feature_neon :: bool
  feature_supabase :: bool

record ('w, 'n) system =
  sys_host :: "'w host_api"
  sys_sqlite :: "'w sqlite_api"
  sys_neon :: "('w, 'n) neon_http"
  sys_supabase :: "('w, 'n) supabase_host"
  sys_json :: "'n json_api"
  sys_parse :: "string \<Rightarrow> 'n json option"
  sys_env :: "string \<Rightarrow> 'w \<Rightarrow> string option \<times> 'w"
  sys_features :: features
  sys_secure_recovery :: bool

text \<open>\<open>DATASTORE_TOKEN\<close> is read last and may be missing.\<close>

definition route_from_env :: "('w, 'n) system \<Rightarrow> ('w process, dactyl_error, datastore_route) io" where
  "route_from_env Y =
     io_bind (on_world (ask (sys_env Y ''DATASTORE''))) (\<lambda>d.
     io_bind (io_lift (ok_or (Config [Txt ''DATASTORE is not set: use sqlite, neon or supabase'']) d)) (\<lambda>datastore.
     io_bind (on_world (ask (sys_env Y ''DATASTORE_ROUTE''))) (\<lambda>r.
     io_bind (io_lift (ok_or (Config [Txt ''DATASTORE_ROUTE is not set'']) r)) (\<lambda>route.
     io_bind (on_world (ask (sys_env Y ''DATASTORE_TOKEN''))) (\<lambda>token.
       io_lift (route_from_env_values (Some datastore) (Some route) token))))))"

definition route_validate :: "('w, 'n) system \<Rightarrow> datastore_route \<Rightarrow> unit result" where
  "route_validate Y r =
     (if route_datastore r = Supabase then
        (if feature_supabase (sys_features Y)
         then rmap (\<lambda>_. ()) (validate_endpoint (sys_supabase Y) (route_text r))
         else Inl (Config [Txt ''supabase support is disabled; enable the `supabase` feature'']))
      else Inr ())"

section \<open>Opening\<close>

datatype 'n backend =
    SqliteBackend sqlite_adapter
  | NeonBackend "'n neon_adapter"
  | SupabaseBackend "'n supabase_adapter"

record 'n connection =
  conn_adapter :: "'n backend"
  conn_route :: datastore_route
  conn_context :: "'n storage_context option"

definition build_adapter ::
  "('w, 'n) system \<Rightarrow> datastore_route \<Rightarrow> open_options \<Rightarrow> 'n storage_context option \<Rightarrow>
     ('w process, dactyl_error, 'n backend) io"
where
  "build_adapter Y route options context =
     (case route_datastore route of
        Supabase \<Rightarrow>
          if feature_supabase (sys_features Y)
          then io_lift (rmap SupabaseBackend
                 (supabase_new (sys_supabase Y) (route_text route) (route_token route) options context))
          else io_fail (Config [Txt ''supabase support is disabled; enable the `supabase` feature''])
      | Sqlite \<Rightarrow>
          if feature_sqlite (sys_features Y)
          then io_bind (open_with_options (sys_host Y) (sys_sqlite Y) (route_text route) options)
                 (\<lambda>a. io_return (SqliteBackend a))
          else io_fail (Config [Txt ''sqlite support is disabled; enable the `sqlite` feature''])
      | Neon \<Rightarrow>
          if feature_neon (sys_features Y)
          then io_bind (on_world (neon_new (sys_neon Y) (route_text route) (route_token route) options context))
                 (\<lambda>a. io_return (NeonBackend a))
          else io_fail (Config [Txt ''neon support is disabled; enable the `neon` feature'']))"

definition connection_open_with_options_and_context ::
  "('w, 'n) system \<Rightarrow> datastore_route \<Rightarrow> open_options \<Rightarrow> 'n storage_context option \<Rightarrow>
     ('w process, dactyl_error, 'n connection) io"
where
  "connection_open_with_options_and_context Y route options context =
     io_bind (case context of Some c \<Rightarrow> io_lift (validate_context c) | None \<Rightarrow> io_return ()) (\<lambda>_.
     io_bind (build_adapter Y route options context) (\<lambda>adp.
       io_return \<lparr>conn_adapter = adp, conn_route = route, conn_context = context\<rparr>))"

definition connection_open :: "('w, 'n) system \<Rightarrow> datastore_route \<Rightarrow> ('w process, dactyl_error, 'n connection) io" where
  "connection_open Y route = connection_open_with_options_and_context Y route default_open_options None"

definition connection_open_with_options ::
  "('w, 'n) system \<Rightarrow> datastore_route \<Rightarrow> open_options \<Rightarrow> ('w process, dactyl_error, 'n connection) io"
where
  "connection_open_with_options Y route options = connection_open_with_options_and_context Y route options None"

definition connection_open_with_context ::
  "('w, 'n) system \<Rightarrow> datastore_route \<Rightarrow> 'n storage_context option \<Rightarrow> ('w process, dactyl_error, 'n connection) io"
where
  "connection_open_with_context Y route context =
     connection_open_with_options_and_context Y route default_open_options context"

definition connection_from_env :: "('w, 'n) system \<Rightarrow> ('w process, dactyl_error, 'n connection) io" where
  "connection_from_env Y = io_bind (route_from_env Y) (connection_open Y)"

definition connection_datastore :: "'n connection \<Rightarrow> datastore" where
  "connection_datastore c = route_datastore (conn_route c)"

definition connection_route :: "'n connection \<Rightarrow> datastore_route" where
  "connection_route c = conn_route c"

definition connection_context :: "'n connection \<Rightarrow> 'n storage_context option" where
  "connection_context c = conn_context c"

section \<open>Operations\<close>

definition connection_read ::
  "('w, 'n) system \<Rightarrow> 'n connection \<Rightarrow> string \<Rightarrow> parameter list \<Rightarrow> ('w process, dactyl_error, 'n rows) io"
where
  "connection_read Y c sql params = on_world
     (case conn_adapter c of
        SqliteBackend a \<Rightarrow> sqlite_read (sys_sqlite Y) (sys_json Y) a sql params
      | NeonBackend a \<Rightarrow> neon_read (sys_neon Y) a sql params
      | SupabaseBackend a \<Rightarrow> supabase_read (sys_supabase Y) (sys_json Y) a sql params)"

definition connection_write_result ::
  "('w, 'n) system \<Rightarrow> 'n connection \<Rightarrow> string \<Rightarrow> parameter list \<Rightarrow> ('w process, dactyl_error, write_result) io"
where
  "connection_write_result Y c sql params = on_world
     (case conn_adapter c of
        SqliteBackend a \<Rightarrow> sqlite_write (sys_sqlite Y) a sql params
      | NeonBackend a \<Rightarrow> neon_write (sys_neon Y) a sql params
      | SupabaseBackend a \<Rightarrow> supabase_write (sys_supabase Y) a sql params)"

definition connection_write ::
  "('w, 'n) system \<Rightarrow> 'n connection \<Rightarrow> string \<Rightarrow> parameter list \<Rightarrow> ('w process, dactyl_error, u64) io"
where
  "connection_write Y c sql params =
     io_bind (connection_write_result Y c sql params) (\<lambda>r. io_return (affected_rows r))"

definition connection_atomic ::
  "('w, 'n) system \<Rightarrow> 'n connection \<Rightarrow> operation list \<Rightarrow> ('w process, dactyl_error, 'n atomic_result) io"
where
  "connection_atomic Y c ops = on_world
     (case conn_adapter c of
        SqliteBackend a \<Rightarrow> sqlite_atomic (sys_sqlite Y) (sys_json Y) a ops
      | NeonBackend a \<Rightarrow> neon_atomic (sys_neon Y) a ops
      | SupabaseBackend a \<Rightarrow> supabase_atomic (sys_supabase Y) (sys_json Y) a ops)"

definition connection_access_mode :: "'n connection \<Rightarrow> access_mode" where
  "connection_access_mode c =
     (case conn_adapter c of
        SqliteBackend a \<Rightarrow> sqlite_access_mode a
      | NeonBackend a \<Rightarrow> neon_mode a
      | SupabaseBackend a \<Rightarrow> supa_mode a)"

definition connection_inspect_schema ::
  "('w, 'n) system \<Rightarrow> 'n connection \<Rightarrow> ('w process, dactyl_error, 'n store_schema) io"
where
  "connection_inspect_schema Y c =
     (case conn_adapter c of
        SqliteBackend a \<Rightarrow> on_world (sqlite_inspect_schema (sys_sqlite Y) (sys_json Y) (sys_parse Y) a)
      | NeonBackend a \<Rightarrow> neon_inspect_schema
      | SupabaseBackend a \<Rightarrow> default_inspect_schema)"

definition connection_verify_integrity ::
  "('w, 'n) system \<Rightarrow> 'n connection \<Rightarrow> ('w process, dactyl_error, integrity_report) io"
where
  "connection_verify_integrity Y c =
     (case conn_adapter c of
        SqliteBackend a \<Rightarrow> on_world (sqlite_verify_integrity (sys_sqlite Y) (sys_json Y) a)
      | NeonBackend a \<Rightarrow> default_verify_integrity
      | SupabaseBackend a \<Rightarrow> default_verify_integrity)"

definition connection_backup ::
  "('w, 'n) system \<Rightarrow> 'n connection \<Rightarrow> string \<Rightarrow> ('w process, dactyl_error, backup_result) io"
where
  "connection_backup Y c destination =
     (case conn_adapter c of
        SqliteBackend a \<Rightarrow> on_world (sqlite_backup (sys_host Y) (sys_sqlite Y) (sys_json Y) a destination)
      | NeonBackend a \<Rightarrow> default_backup destination
      | SupabaseBackend a \<Rightarrow> default_backup destination)"

text \<open>Recovery borrows the connection mutably: the connection it leaves is returned beside the result.\<close>

definition connection_recover ::
  "('w, 'n) system \<Rightarrow> 'n connection \<Rightarrow> recovery_options \<Rightarrow> 'w process \<Rightarrow>
     ((recovery_result result \<times> 'n connection) \<times> 'w process) option"
where
  "connection_recover Y c options s =
     (case conn_adapter c of
        SqliteBackend a \<Rightarrow>
          (case sqlite_recover (sys_secure_recovery Y) (sys_host Y) (sys_sqlite Y) (sys_json Y) a options s of
             None \<Rightarrow> None
           | Some ((r, a'), s') \<Rightarrow> Some ((r, c\<lparr>conn_adapter := SqliteBackend a'\<rparr>), s'))
      | _ \<Rightarrow> map_option (\<lambda>(r, s'). ((r, c), s')) (default_recover options s))"

text \<open>Dropping a connection drops its adapter; those of the remote backends hold nothing here.\<close>

definition connection_drop :: "('w, 'n) system \<Rightarrow> 'n connection \<Rightarrow> ('w process, dactyl_error, unit) io" where
  "connection_drop Y c =
     (case conn_adapter c of
        SqliteBackend a \<Rightarrow> drop_adapter (sys_host Y) (sys_sqlite Y) a
      | _ \<Rightarrow> io_return ())"

section \<open>Calls on a connection of their own\<close>

text \<open>The temporary connection is dropped after the call, whatever the call returned.\<close>

definition use_once ::
  "('w, 'n) system \<Rightarrow> ('n connection \<Rightarrow> ('w process, dactyl_error, 'a) io) \<Rightarrow> 'n connection \<Rightarrow>
     ('w process, dactyl_error, 'a) io"
where
  "use_once Y f c =
     io_bind (io_result (f c)) (\<lambda>r. io_bind (connection_drop Y c) (\<lambda>_. io_lift r))"

definition dactyl_read ::
  "('w, 'n) system \<Rightarrow> string \<Rightarrow> parameter list \<Rightarrow> ('w process, dactyl_error, 'n rows) io"
where
  "dactyl_read Y sql params =
     io_bind (connection_from_env Y) (use_once Y (\<lambda>c. connection_read Y c sql params))"

definition dactyl_read_with_context ::
  "('w, 'n) system \<Rightarrow> 'n storage_context option \<Rightarrow> string \<Rightarrow> parameter list \<Rightarrow> ('w process, dactyl_error, 'n rows) io"
where
  "dactyl_read_with_context Y context sql params =
     io_bind (route_from_env Y) (\<lambda>route.
     io_bind (connection_open_with_context Y route context) (use_once Y (\<lambda>c. connection_read Y c sql params)))"

definition dactyl_write ::
  "('w, 'n) system \<Rightarrow> string \<Rightarrow> parameter list \<Rightarrow> ('w process, dactyl_error, u64) io"
where
  "dactyl_write Y sql params =
     io_bind (connection_from_env Y) (use_once Y (\<lambda>c. connection_write Y c sql params))"

definition dactyl_write_with_context ::
  "('w, 'n) system \<Rightarrow> 'n storage_context option \<Rightarrow> string \<Rightarrow> parameter list \<Rightarrow> ('w process, dactyl_error, u64) io"
where
  "dactyl_write_with_context Y context sql params =
     io_bind (route_from_env Y) (\<lambda>route.
     io_bind (connection_open_with_context Y route context) (use_once Y (\<lambda>c. connection_write Y c sql params)))"

definition dactyl_query ::
  "('w, 'n) system \<Rightarrow> string \<Rightarrow> parameter list \<Rightarrow> ('w process, dactyl_error, 'n rows) io"
where
  "dactyl_query Y sql params = dactyl_read Y sql params"

definition dactyl_execute ::
  "('w, 'n) system \<Rightarrow> string \<Rightarrow> parameter list \<Rightarrow> ('w process, dactyl_error, u64) io"
where
  "dactyl_execute Y sql params = dactyl_write Y sql params"

section \<open>The contract of the driver\<close>

text \<open>
  A backend that keeps the contract on the world keeps it on the process; the connection keeps
  it because each of its backends does.
\<close>

lemma driver_on_world:
  assumes "driver wr at mode"
  shows "driver (\<lambda>sql params. on_world (wr sql params)) (\<lambda>ops. on_world (at ops)) mode"
proof -
  note laws = driver.write_refused [OF assms] driver.atomic_refused [OF assms]
    driver.atomic_empty [OF assms] driver.atomic_fits [OF assms]
  show ?thesis
  proof (unfold_locales, goal_cases)
    case (1 sql params s)
    with laws(1) [of sql params "proc_world s"] show ?case by (auto simp: on_world_def)
  next
    case (2 ops s)
    with laws(2) [of ops "proc_world s"] show ?case by (auto simp: on_world_def)
  next
    case (3 s)
    then show ?case by (simp add: on_world_def laws(3))
  next
    case (4 ops s rs s')
    then show ?case by (auto simp: on_world_Some_iff intro: laws(4))
  qed
qed

lemma connection_driver:
  "driver (connection_write_result Y c) (connection_atomic Y c) (connection_access_mode c)"
proof (cases "conn_adapter c")
  case (SqliteBackend a)
  then show ?thesis
    using driver_on_world [OF sqlite.driver_axioms [of "sys_sqlite Y" a "sys_json Y"]]
    unfolding connection_write_result_def connection_atomic_def connection_access_mode_def by simp
next
  case (NeonBackend a)
  then show ?thesis
    using driver_on_world [OF neon.driver_axioms [of "sys_neon Y" a]]
    unfolding connection_write_result_def connection_atomic_def connection_access_mode_def by simp
next
  case (SupabaseBackend a)
  then show ?thesis
    using driver_on_world [OF supabase.driver_axioms [of "sys_supabase Y" a "sys_json Y"]]
    unfolding connection_write_result_def connection_atomic_def connection_access_mode_def by simp
qed

interpretation connection: driver "connection_write_result Y c" "connection_atomic Y c" "connection_access_mode c"
  for Y :: "('w, 'n) system" and c :: "'n connection"
  by (rule connection_driver)

section \<open>Opening\<close>

lemma supabase_new_Inr:
  "supabase_new H endpoint bearer options context = Inr a \<Longrightarrow>
     supa_mode a = open_access_mode options \<and> context = Some (supa_context a) \<and>
     validate_context (supa_context a) = Inr ()"
  by (auto simp: supabase_new_def result_iffs)

text \<open>What an open connection is: the route's backend with the options and the context given.\<close>

lemma opened_cases:
  assumes "connection_open_with_options_and_context Y route options context s = Some (Inr c, s')"
  obtains (sqlite) a where "conn_adapter c = SqliteBackend a" "route_datastore route = Sqlite"
      "open_with_options (sys_host Y) (sys_sqlite Y) (route_text route) options s = Some (Inr a, s')"
    | (neon) a where "conn_adapter c = NeonBackend a" "route_datastore route = Neon" "s' = s"
      "neon_mode a = open_access_mode options" "neon_context a = context"
    | (supabase) a where "conn_adapter c = SupabaseBackend a" "route_datastore route = Supabase" "s' = s"
      "supabase_new (sys_supabase Y) (route_text route) (route_token route) options context = Inr a"
  using assms
  by (cases "route_datastore route")
    (auto simp: connection_open_with_options_and_context_def build_adapter_def io_iffs rmap_Inr_iff
      on_world_Some_iff neon_new_def split: if_splits option.splits)

lemma on_world_unchanged: "on_world m s = Some (r, s) \<longleftrightarrow> m (proc_world s) = Some (r, proc_world s)"
  by (cases s) (auto simp: on_world_Some_iff)

lemma neon_without_context:
  assumes "neon_context a = None"
  shows "\<exists>e. neon_read H a sql params w = Some (Inl e, w) \<and> adapter_kind e = Some Authentication"
    and "\<exists>e. neon_write H a sql params w = Some (Inl e, w) \<and>
      adapter_kind e = Some (if neon_mode a = ReadOnly then ReadOnlyKind else Authentication)"
    and "ops \<noteq> [] \<Longrightarrow> \<exists>e. neon_atomic H a ops w = Some (Inl e, w) \<and>
      adapter_kind e = Some (if neon_mode a = ReadOnly \<and> mutates ops then ReadOnlyKind else Authentication)"
proof -
  have "\<exists>e. neon_require_context a = Inl e \<and> adapter_kind e = Some Authentication"
    using assms by (simp add: neon_require_context_def)
  then have query: "\<exists>e. neon_query H a sql params w = Some (Inl e, w) \<and> adapter_kind e = Some Authentication"
    and batch: "\<exists>e. neon_batch H a ops w = Some (Inl e, w) \<and> adapter_kind e = Some Authentication" for ops
    by (auto simp: neon_query_def neon_batch_def io_bind_def io_lift_def)
  show "\<exists>e. neon_read H a sql params w = Some (Inl e, w) \<and> adapter_kind e = Some Authentication"
    using query by (auto simp: neon_read_def io_bind_def)
  show "\<exists>e. neon_write H a sql params w = Some (Inl e, w) \<and>
      adapter_kind e = Some (if neon_mode a = ReadOnly then ReadOnlyKind else Authentication)"
    using query by (auto simp: neon_write_def ensure_remote_writable_def io_bind_def io_lift_def)
  show "ops \<noteq> [] \<Longrightarrow> \<exists>e. neon_atomic H a ops w = Some (Inl e, w) \<and>
      adapter_kind e = Some (if neon_mode a = ReadOnly \<and> mutates ops then ReadOnlyKind else Authentication)"
    using batch [of ops] by (auto simp: neon_atomic_def ensure_remote_writable_def io_bind_def io_lift_def io_return_def)
qed

lemma open_with_options_Inr:
  assumes "open_with_options H S path options s = Some (Inr a, s')"
  obtains w1 w2 s2 where
    "prepare_path H path (open_access_mode options) (proc_world s) = Some (Inr (), w1)"
    "open_configured S path options w1 = Some (Inr (adp_database a), w2)"
    "register_connection H path (s\<lparr>proc_world := w2\<rparr>) = Some (Inr (), s2)"
    "\<exists>w3 i. file_identity H path (proc_world s2) = Some (Inr i :: (nat \<times> nat) option result, w3) \<and>
       s' = s2\<lparr>proc_world := w3\<rparr>"
    "adp_options a = options" "adp_path a = path"
proof -
  let ?finish = "\<lambda>db s. case register_connection H path s of
       None \<Rightarrow> None
     | Some (Inl e, s1) \<Rightarrow> Some (Inl e, s1\<lparr>proc_world := drop_connection S db (proc_world s1)\<rparr>)
     | Some (Inr _, s1) \<Rightarrow>
         io_bind (on_world (file_identity H path)) (\<lambda>identity.
           io_return \<lparr>adp_database = db, adp_path = path, adp_options = options,
                      adp_identity = identity, adp_poisoned = False\<rparr>) s1"
  from assms obtain w1 w2 db where pre: "prepare_path H path (open_access_mode options) (proc_world s) = Some (Inr (), w1)"
    and conf: "open_configured S path options w1 = Some (Inr db, w2)"
    and fin: "?finish db (s\<lparr>proc_world := w2\<rparr>) = Some (Inr a, s')"
    by (auto simp: open_with_options_def io_iffs on_world_Some_iff)
  from fin obtain q s2 where reg: "register_connection H path (s\<lparr>proc_world := w2\<rparr>) = Some (q, s2)"
    by (cases "register_connection H path (s\<lparr>proc_world := w2\<rparr>)") auto
  from fin reg have q: "q = Inr ()" by (cases q) auto
  with fin reg have "io_bind (on_world (file_identity H path)) (\<lambda>identity.
       io_return \<lparr>adp_database = db, adp_path = path, adp_options = options,
                  adp_identity = identity, adp_poisoned = False\<rparr>) s2 = Some (Inr a :: sqlite_adapter result, s')" by simp
  then have "\<exists>i w3. file_identity H path (proc_world s2) = Some (Inr i :: (nat \<times> nat) option result, w3) \<and>
      s' = s2\<lparr>proc_world := w3\<rparr> \<and>
      a = \<lparr>adp_database = db, adp_path = path, adp_options = options, adp_identity = i, adp_poisoned = False\<rparr>"
    by (auto simp: io_iffs on_world_Some_iff)
  with that [OF pre, of w2 s2] conf reg q show ?thesis by auto
qed

lemma opened_mode:
  assumes "connection_open_with_options_and_context Y route options context s = Some (Inr c, s')"
  shows "connection_access_mode c = open_access_mode options"
  using assms
  by (cases rule: opened_cases)
    (auto simp: connection_access_mode_def sqlite_access_mode_def
      dest: supabase_new_Inr elim: open_with_options_Inr)

lemma opened_route:
  "connection_open_with_options_and_context Y route options context s = Some (Inr c, s') \<Longrightarrow>
     conn_route c = route \<and> conn_context c = context"
  by (auto simp: connection_open_with_options_and_context_def io_iffs)

text \<open>A context is validated before the route is looked at: an invalid one fails a local open too.\<close>

lemma invalid_context_fails_local_open:
  assumes "validate_context ctx = Inl e"
  shows "connection_open_with_context Y (route_sqlite path) (Some ctx) s = Some (Inl e, s)"
  using assms by (simp add: connection_open_with_context_def connection_open_with_options_and_context_def
      io_bind_def io_lift_def)

section \<open>A system for closed examples\<close>

text \<open>The mini host and its SQLite; both remote services are out of reach. The environment selects the file.\<close>

definition offline_http :: "('w, 'n) neon_http" where
  "offline_http =
     \<lparr>client_builds = (\<lambda>w. True), neon_send = (\<lambda>req w. (Inl ''offline'', w)), decode_query = (\<lambda>b. Inl ''offline''),
      decode_batch = (\<lambda>b. Inl ''offline''), decode_envelope = (\<lambda>b. None)\<rparr>"

definition offline_service :: "('w, 'n) supabase_host" where
  "offline_service =
     \<lparr>parse_url = (\<lambda>s. None), header_value = Some, encode_body = (\<lambda>req. Inr []),
      spawn_worker = (\<lambda>w. (False, w)), build_client = (\<lambda>w. (False, w)),
      post_request = (\<lambda>p w. (SendFailed False, w)), decode_response = (\<lambda>b. None),
      decode_batch_response = (\<lambda>b. None), parse_json = (\<lambda>b. None)\<rparr>"

definition demo_env :: "string \<Rightarrow> string option" where
  "demo_env = map_of [(''DATASTORE'', ''sqlite''), (''DATASTORE_ROUTE'', ''/d/a.db'')]"

definition demo_system :: "(mini_host, ref_num) system" where
  "demo_system =
     \<lparr>sys_host = mini_host_api, sys_sqlite = mini_host_sqlite, sys_neon = offline_http,
      sys_supabase = offline_service, sys_json = ref_json, sys_parse = (\<lambda>s. None),
      sys_env = (\<lambda>name w. (demo_env name, w)),
      sys_features = \<lparr>feature_sqlite = True, feature_neon = True, feature_supabase = True\<rparr>,
      sys_secure_recovery = True\<rparr>"

lemma demo_neon_opens:
  "\<exists>c. connection_open_with_options_and_context demo_system (route_neon ''https://db'' None) default_open_options None
     mini_process = Some (Inr c, mini_process)"
  "transport (route_neon ''https://db'' None) = Http"
  by (simp_all add: connection_open_with_options_and_context_def build_adapter_def demo_system_def route_neon_def
      transport_def io_bind_def io_return_def on_world_def neon_new_def offline_http_def)

section \<open>Properties\<close>

text \<open>
  C6: a connection opened read-only, on any route, never writes: a write and a batch that
  contains a write or a schema change are refused as \<open>ReadOnly\<close> with the process and the world
  exactly as they were, before SQLite or a remote service is called.
\<close>

theorem read_only_connection_writes_nothing:
  assumes "connection_open_with_options_and_context Y route options context s0 = Some (Inr c, s1)"
    and "open_access_mode options = ReadOnly" and "mutates ops"
  shows "(\<exists>e. connection_write_result Y c sql params s = Some (Inl e, s) \<and> adapter_kind e = Some ReadOnlyKind) \<and>
     (\<exists>e. connection_write Y c sql params s = Some (Inl e, s) \<and> adapter_kind e = Some ReadOnlyKind) \<and>
     (\<exists>e. connection_atomic Y c ops s = Some (Inl e, s) \<and> adapter_kind e = Some ReadOnlyKind)"
proof -
  have mode: "connection_access_mode c = ReadOnly" using opened_mode [OF assms(1)] assms(2) by simp
  from connection.write_refused [OF mode, of Y sql params s] connection.atomic_refused [OF mode assms(3), of Y s]
  show ?thesis by (auto simp: connection_write_def io_bind_def)
qed

theorem read_only_connection_writes_nothing_witness:
  "\<exists>c s1. connection_open_with_options demo_system (route_sqlite ''/d/a.db'') (quick_options ReadOnly) mini_process
       = Some (Inr c, s1) \<and>
     (\<exists>e. connection_write demo_system c ''delete from t'' [] s1 = Some (Inl e, s1) \<and>
        adapter_kind e = Some ReadOnlyKind)"
proof -
  let ?o = "connection_open_with_options_and_context demo_system (route_sqlite ''/d/a.db'') (quick_options ReadOnly)
      None mini_process"
  have "returns ?o (\<lambda>c s1. True)" by code_simp
  then obtain c s1 where o: "?o = Some (Inr c, s1)" by (rule returnsE)
  have "open_access_mode (quick_options ReadOnly) = ReadOnly" by (simp add: quick_options_def)
  moreover have "mutates [operation_write ''delete from t'' []]" by code_simp
  ultimately show ?thesis
    using read_only_connection_writes_nothing [OF o, of "[operation_write ''delete from t'' []]" "''delete from t''" "[]" s1] o
    by (simp add: connection_open_with_options_def)
qed

text \<open>
  C40: a batch that succeeds returns one result for each of its operations, in order: rows for a
  read and a write result for any other operation, whichever backend ran it.
\<close>

theorem batch_results_fit:
  assumes "connection_atomic Y c ops s = Some (Inr rs, s')"
  shows "length rs = length ops \<and> list_all2 result_fits ops rs \<and>
     map (\<lambda>op. op_kind op = ReadOp) ops = map (\<lambda>r. \<exists>rows. r = RowsResult rows) rs"
proof -
  have "length rs = length ops" by (rule connection.batch_shape(1) [OF assms])
  moreover from this have "map (\<lambda>op. op_kind op = ReadOp) ops = map (\<lambda>r. \<exists>rows. r = RowsResult rows) rs"
    using connection.batch_shape(2) [OF assms] by (intro nth_equalityI) auto
  ultimately show ?thesis using connection.atomic_fits [OF assms] by simp
qed

text \<open>A connection to the file, opened on the mini host.\<close>

definition demo_connection :: "ref_num connection" where
  "demo_connection =
     \<lparr>conn_adapter = SqliteBackend \<lparr>adp_database = 1, adp_path = ''/d/a.db'', adp_options = quick_options ReadWrite,
        adp_identity = Some (1, 3), adp_poisoned = False\<rparr>,
      conn_route = route_sqlite ''/d/a.db'', conn_context = None\<rparr>"

theorem batch_results_fit_witness:
  "\<exists>rs s'. connection_atomic demo_system demo_connection
       [operation_read ''PRAGMA journal_mode'' [], operation_write ''delete from t'' []] mini_process = Some (Inr rs, s') \<and>
     length rs = 2"
proof -
  let ?ops = "[operation_read ''PRAGMA journal_mode'' [], operation_write ''delete from t'' []]"
  have "returns (connection_atomic demo_system demo_connection ?ops mini_process) (\<lambda>rs s'. True)" by code_simp
  then obtain rs s' where r: "connection_atomic demo_system demo_connection ?ops mini_process = Some (Inr rs, s')"
    by (rule returnsE)
  with batch_results_fit [OF r] show ?thesis by simp
qed

text \<open>
  C39: a remote route needs a storage context for every operation: opened without one, a Supabase
  connection is refused, and a Neon connection refuses every read, write and non-empty batch
  before it sends anything.
\<close>

theorem remote_operations_need_context:
  fixes Y :: "('w, 'n) system"
  assumes "transport route = Http" and "ops \<noteq> []"
    and "connection_open_with_options_and_context Y route options None s0 = Some (r, s1)"
  shows "s1 = s0 \<and> (isl r \<longleftrightarrow> route_datastore route = Supabase \<or> \<not> feature_neon (sys_features Y)) \<and>
     (case r of Inl e \<Rightarrow> True
      | Inr c \<Rightarrow>
          (\<exists>e. connection_read Y c sql params s = Some (Inl e, s) \<and> adapter_kind e = Some Authentication) \<and>
          (\<exists>e. connection_write_result Y c sql params s = Some (Inl e, s) \<and>
             adapter_kind e = Some (if open_access_mode options = ReadOnly then ReadOnlyKind else Authentication)) \<and>
          (\<exists>e. connection_atomic Y c ops s = Some (Inl e, s) \<and>
             adapter_kind e = Some (if open_access_mode options = ReadOnly \<and> mutates ops then ReadOnlyKind
               else Authentication)))"
proof (cases "route_datastore route")
  case Sqlite
  with assms(1) show ?thesis by (simp add: transport_def)
next
  case Supabase
  have "isl (supabase_new (sys_supabase Y) (route_text route) (route_token route) options None)"
    by (cases "supabase_new (sys_supabase Y) (route_text route) (route_token route) options None")
      (auto dest: supabase_new_Inr)
  with Supabase assms(3) show ?thesis
    by (auto simp: connection_open_with_options_and_context_def build_adapter_def io_iffs rmap_def
        split: if_splits sum.splits)
next
  case Neon
  show ?thesis
  proof (cases r)
    case (Inl e)
    with Neon assms(3) show ?thesis
      by (auto simp: connection_open_with_options_and_context_def build_adapter_def io_iffs on_world_Some_iff
          neon_new_def split: if_splits)
  next
    case (Inr c)
    with Neon assms(3) have "connection_open_with_options_and_context Y route options None s0 = Some (Inr c, s1)"
      by simp
    then obtain a where a: "neon_mode a = open_access_mode options" "neon_context a = None"
      and c: "conn_adapter c = NeonBackend a" "s1 = s0"
      by (cases rule: opened_cases) (simp_all add: Neon)
    moreover have "feature_neon (sys_features Y)"
      using Neon Inr assms(3)
      by (auto simp: connection_open_with_options_and_context_def build_adapter_def io_iffs split: if_splits)
    ultimately show ?thesis
      using Inr Neon neon_without_context(1,2) [OF a(2), of "sys_neon Y" sql params "proc_world s"]
        neon_without_context(3) [OF a(2) assms(2), of "sys_neon Y" "proc_world s"]
      by (simp add: connection_read_def connection_write_result_def connection_atomic_def on_world_unchanged)
  qed
qed

theorem remote_operations_need_context_witness:
  "\<exists>c. connection_open demo_system (route_neon ''https://db'' None) mini_process = Some (Inr c, mini_process) \<and>
     (\<exists>e. connection_read demo_system c ''select 1'' [] mini_process = Some (Inl e, mini_process) \<and>
        adapter_kind e = Some Authentication)"
proof -
  obtain c where o: "connection_open_with_options_and_context demo_system (route_neon ''https://db'' None)
      default_open_options None mini_process = Some (Inr c, mini_process)"
    using demo_neon_opens(1) by blast
  have "[operation_read ''select 1'' []] \<noteq> []" by simp
  note needed = remote_operations_need_context [OF demo_neon_opens(2) this o, of "''select 1''" "[]" mini_process]
  have "\<exists>e. connection_read demo_system c ''select 1'' [] mini_process = Some (Inl e, mini_process) \<and>
      adapter_kind e = Some Authentication"
    using needed [THEN conjunct2, THEN conjunct2] unfolding sum.case by (rule conjunct1)
  with o show ?thesis unfolding connection_open_def by blast
qed

text \<open>
  Schema inspection, the integrity check, backup and recovery are operations of local stores:
  on a connection to a remote route each fails as a missing capability, changes nothing and
  sends nothing.
\<close>

theorem remote_maintenance_unsupported:
  assumes "transport route = Http"
    and "connection_open_with_options_and_context Y route options context s0 = Some (Inr c, s1)"
  shows "(\<exists>e. connection_inspect_schema Y c s = Some (Inl e, s) \<and> adapter_kind e = Some Capability) \<and>
     (\<exists>e. connection_verify_integrity Y c s = Some (Inl e, s) \<and> adapter_kind e = Some Capability) \<and>
     (\<exists>e. connection_backup Y c destination s = Some (Inl e, s) \<and> adapter_kind e = Some Capability) \<and>
     (\<exists>e. connection_recover Y c recovery s = Some ((Inl e, c), s) \<and> adapter_kind e = Some Capability)"
  using assms(2)
proof (cases rule: opened_cases)
  case (sqlite a)
  with assms(1) show ?thesis by (simp add: transport_def)
qed (simp_all add: connection_inspect_schema_def connection_verify_integrity_def connection_backup_def
  connection_recover_def default_inspect_schema_def neon_inspect_schema_def default_verify_integrity_def default_backup_def
  default_recover_def io_apply)

theorem remote_maintenance_unsupported_witness:
  "\<exists>c. connection_open demo_system (route_neon ''https://db'' None) mini_process = Some (Inr c, mini_process) \<and>
     (\<exists>e. connection_backup demo_system c ''/d/b.db'' mini_process = Some (Inl e, mini_process) \<and>
        adapter_kind e = Some Capability)"
proof -
  obtain c where o: "connection_open_with_options_and_context demo_system (route_neon ''https://db'' None)
      default_open_options None mini_process = Some (Inr c, mini_process)"
    using demo_neon_opens(1) by blast
  from remote_maintenance_unsupported [OF demo_neon_opens(2) o, of mini_process "''/d/b.db''"] o
  show ?thesis unfolding connection_open_def by blast
qed

text \<open>
  C38: which environment selects which route: the selector is one of the three exact names
  \<open>sqlite\<close>, \<open>neon\<close> and \<open>supabase\<close>, the route is set and not blank and taken as it is, a token is
  taken for both remote routes and never for SQLite, and a blank one counts as none. Anything else
  is an error: there is no fallback. (README.md names only \<open>sqlite\<close> and \<open>neon\<close>, and the token
  for \<open>neon\<close> alone; the code also selects \<open>supabase\<close>, with the token.)
\<close>

theorem env_selects_route:
  "route_from_env_values datastore route token = Inr r \<longleftrightarrow>
     (\<exists>d p. datastore = Some d \<and> route = Some p \<and> trim p \<noteq> [] \<and>
        map_of [(''sqlite'', Sqlite), (''neon'', Neon), (''supabase'', Supabase)] d = Some (route_datastore r) \<and>
        route_text r = p \<and>
        route_token r = (if route_datastore r = Sqlite then None
          else case token of None \<Rightarrow> None | Some t \<Rightarrow> if trim t = [] then None else Some t))"
  by (cases r; cases datastore; cases route; cases token)
    (auto simp: route_from_env_values_def route_sqlite_def route_neon_def route_supabase_def not_blank_def)

end
