(* ===== verification/Connection_Release.thy ===== *)
theory Connection_Release
  imports Connection Sqlite_Keeps
begin

text \<open>
  What the calls that open a connection of their own leave behind: no database, no statement and
  no backup of SQLite, and no entry in the registry of open connections, whether the call succeeded
  or failed.
\<close>

section \<open>What is assumed\<close>

text \<open>
  A connection is registered under the canonical path of its file, looked up again when it is
  dropped. The two agree for a direct path, an absolute one that the file system resolves to
  itself when it resolves it at all: one without symbolic links and parent steps, whether or not
  the file is there. (\<open>../app.db\<close> is not direct: before the file exists its key is the path below the
  working directory, afterwards the canonical one.)
\<close>

definition direct_path :: "'w host_api \<Rightarrow> string \<Rightarrow> bool" where
  "direct_path H path \<longleftrightarrow> path = memory_path \<or>
     is_absolute path \<and>
     (\<forall>w p w1. canonicalize H path w = (Some p, w1) \<longrightarrow> components p = components path)"

definition key_of :: "string \<Rightarrow> string list option" where
  "key_of path = (if path = memory_path then None else Some (components path))"

lemma direct_path_key:
  assumes "direct_path H path"
  obtains key w' where "path_key H path w = Some (Inr key :: string option result, w')"
    "map_option components key = key_of path"
proof (cases "path = memory_path")
  case True
  then show thesis by (intro that [of None w]) (simp_all add: path_key_def key_of_def io_apply)
next
  case False
  obtain c w1 where c: "canonicalize H path w = (c, w1)" by (cases "canonicalize H path w")
  show thesis
  proof (cases c)
    case None
    with False c assms show thesis
      by (intro that [of "Some path" w1])
        (simp_all add: path_key_def key_of_def direct_path_def io_bind_def ask_def io_return_def)
  next
    case (Some p)
    with False c assms show thesis
      by (intro that [of "Some p" w1])
        (auto simp: path_key_def key_of_def direct_path_def io_bind_def ask_def io_return_def)
  qed
qed

definition env_selects :: "('w, 'n) system \<Rightarrow> ('w \<Rightarrow> sqlite_handle set) \<Rightarrow> string \<Rightarrow> bool" where
  "env_selects Y handles path \<longleftrightarrow>
     (\<forall>w. fst (sys_env Y ''DATASTORE'' w) = Some ''sqlite'' \<and> fst (sys_env Y ''DATASTORE_ROUTE'' w) = Some path) \<and>
     (\<forall>name w. handles (snd (sys_env Y name w)) = handles w)"

text \<open>The process is as it was: the same handles, counts and mutex.\<close>

definition released :: "('w \<Rightarrow> sqlite_handle set) \<Rightarrow> 'w process \<Rightarrow> 'w process \<Rightarrow> bool" where
  "released handles s s' \<longleftrightarrow> handles (proc_world s') = handles (proc_world s) \<and>
     (\<forall>k. registry_count k (proc_registry s') = registry_count k (proc_registry s)) \<and>
     proc_poisoned s' = proc_poisoned s"

lemma released_refl [simp]: "released handles s s"
  by (simp add: released_def)

lemma released_trans: "released handles s s1 \<Longrightarrow> released handles s1 s2 \<Longrightarrow> released handles s s2"
  by (simp add: released_def)

lemma released_world: "handles w = handles (proc_world s) \<Longrightarrow> released handles s (s\<lparr>proc_world := w\<rparr>)"
  by (simp add: released_def)

text \<open>Calls on the world that keep every value of \<open>handles\<close> release what they had.\<close>

definition keeps_handles :: "('w \<Rightarrow> sqlite_handle set) \<Rightarrow> ('w, 'e, 'a) io \<Rightarrow> bool" where
  "keeps_handles handles m \<longleftrightarrow> (\<forall>hs. keeps (\<lambda>w. handles w = hs) m)"

lemma keeps_handles_Some: "keeps_handles handles m \<Longrightarrow> m w = Some (r, w') \<Longrightarrow> handles w' = handles w"
  by (auto simp: keeps_handles_def keeps_def)

lemma on_world_released:
  "keeps_handles handles m \<Longrightarrow> on_world m s = Some (r, s') \<Longrightarrow> released handles s s'"
  by (auto simp: on_world_Some_iff intro!: released_world dest: keeps_handles_Some)

lemma keeps_handles_operations:
  assumes "handle_laws S handles" and "statement_handle_laws S handles"
  shows "keeps_handles handles (sqlite_read S J a sql params)"
    and "keeps_handles handles (sqlite_write S a sql params)"
proof -
  note q = keeps_queries [OF handles_statements [OF assms]]
  show "keeps_handles handles (sqlite_read S J a sql params)"
    unfolding keeps_handles_def sqlite_read_def by (intro allI keeps_intros q)
  show "keeps_handles handles (sqlite_write S a sql params)"
    unfolding keeps_handles_def sqlite_write_def by (intro allI keeps_intros q)
qed

section \<open>Registration\<close>

definition key_weight :: "string list option \<Rightarrow> string list \<Rightarrow> nat" where
  "key_weight key k = (if key = Some k then 1 else 0)"

lemma keeps_handles_path_key:
  "stat_keeps_handles H handles \<Longrightarrow> keeps_handles handles (path_key H path)"
  by (simp add: keeps_handles_def stat_keeps_handles_def keeps_path_key)

lemma register_released:
  assumes host: "stat_keeps_handles H handles" and direct: "direct_path H path"
    and reg: "register_connection H path s = Some (r, s')"
  shows "handles (proc_world s') = handles (proc_world s)" "proc_poisoned s' = proc_poisoned s"
    "registry_count k (proc_registry s') =
       registry_count k (proc_registry s) + (if isl r then 0 else key_weight (key_of path) k)"
    "\<not> isl r \<Longrightarrow> key_of path = None \<or> \<not> proc_poisoned s"
proof -
  obtain key w where w: "path_key H path (proc_world s) = Some (Inr key :: string option result, w)"
    and key: "key_of path = map_option components key"
    using direct_path_key [OF direct] by metis
  have h: "handles w = handles (proc_world s)"
    using keeps_handles_Some [OF keeps_handles_path_key [OF host] w] .
  have run: "(case key of None \<Rightarrow> io_return () | Some p \<Rightarrow> (\<lambda>s.
       if proc_poisoned s then Some (Inl registry_lock_error, s)
       else Some (Inr (), s\<lparr>proc_registry := registry_add (components p) (proc_registry s)\<rparr>)))
     (s\<lparr>proc_world := w\<rparr>) = Some (r, s')"
    using reg by (simp only: register_connection_def io_bind_def on_world_def w option.case prod.case sum.case)
  from run h show "handles (proc_world s') = handles (proc_world s)" "proc_poisoned s' = proc_poisoned s"
    by (cases key; cases "proc_poisoned s"; simp add: io_apply; fastforce)+
  from run show "registry_count k (proc_registry s') =
      registry_count k (proc_registry s) + (if isl r then 0 else key_weight (key_of path) k)"
    unfolding key
    by (cases key; cases "proc_poisoned s"; simp add: io_apply; fastforce simp: key_weight_def registry.count_add)
  from run show "\<not> isl r \<Longrightarrow> key_of path = None \<or> \<not> proc_poisoned s"
    unfolding key by (cases key; cases "proc_poisoned s") auto
qed

lemma unregister_released:
  assumes host: "stat_keeps_handles H handles" and direct: "direct_path H path"
    and unreg: "unregister_connection H path s = Some (r, s')"
  shows "handles (proc_world s') = handles (proc_world s)" "proc_poisoned s' = proc_poisoned s" "\<not> isl r"
    "key_of path = None \<or> \<not> proc_poisoned s \<Longrightarrow>
      registry_count k (proc_registry s') = registry_count k (proc_registry s) - key_weight (key_of path) k"
proof -
  obtain key w where w: "path_key H path (proc_world s) = Some (Inr key :: string option result, w)"
    and key: "key_of path = map_option components key"
    using direct_path_key [OF direct] by metis
  have h: "handles w = handles (proc_world s)"
    using keeps_handles_Some [OF keeps_handles_path_key [OF host] w] .
  have run: "(case key of None \<Rightarrow> io_return () | Some p \<Rightarrow> (\<lambda>s.
       if proc_poisoned s then Some (Inr (), s)
       else Some (Inr (), s\<lparr>proc_registry := registry_remove (components p) (proc_registry s)\<rparr>)))
     (s\<lparr>proc_world := w\<rparr>) = Some (r, s')"
    using unreg by (simp only: unregister_connection_def io_bind_def on_world_def w option.case prod.case sum.case)
  from run h show "handles (proc_world s') = handles (proc_world s)" "proc_poisoned s' = proc_poisoned s"
    by (cases key; cases "proc_poisoned s"; simp add: io_apply; fastforce)+
  from run show "\<not> isl r"
    by (cases key; cases "proc_poisoned s"; simp add: io_apply; fastforce)
  from run show "key_of path = None \<or> \<not> proc_poisoned s \<Longrightarrow>
      registry_count k (proc_registry s') = registry_count k (proc_registry s) - key_weight (key_of path) k"
    unfolding key
    by (cases key; cases "proc_poisoned s"; simp add: io_apply; fastforce simp: key_weight_def registry.count_remove)
qed

section \<open>Opening\<close>

text \<open>A failed open releases all; a successful one holds one handle and one registration more.\<close>

lemma register_fails:
  "register_connection H path s = Some (Inl e, s') \<Longrightarrow>
     proc_registry s' = proc_registry s \<and> proc_poisoned s' = proc_poisoned s"
  by (auto simp: register_connection_def io_iffs on_world_Some_iff split: option.splits if_splits)

lemma open_fails_released:
  assumes handles: "handle_laws S handles" "stat_keeps_handles H handles"
    and run: "open_with_options H S path options s = Some (Inl e, s')"
  shows "released handles s s'"
proof -
  have world: "handles (proc_world s') = handles (proc_world s)"
    using open_leaks_no_handle [OF handles run] by simp
  have "proc_registry s' = proc_registry s \<and> proc_poisoned s' = proc_poisoned s"
  proof (rule ccontr)
    assume contr: "\<not> ?thesis"
    with run obtain w1 w2 db where conf: "open_configured S path options w1 = Some (Inr db, w2)"
      and fin: "(case register_connection H path (s\<lparr>proc_world := w2\<rparr>) of
         None \<Rightarrow> None
       | Some (Inl e, s1) \<Rightarrow> Some (Inl e, s1\<lparr>proc_world := drop_connection S db (proc_world s1)\<rparr>)
       | Some (Inr _, s1) \<Rightarrow>
           io_bind (on_world (file_identity H path)) (\<lambda>identity.
             io_return \<lparr>adp_database = db, adp_path = path, adp_options = options,
                        adp_identity = identity, adp_poisoned = False\<rparr>) s1) = Some (Inl e, s')"
      by (auto simp: open_with_options_def io_iffs on_world_Some_iff)
    from fin obtain q s1 where reg: "register_connection H path (s\<lparr>proc_world := w2\<rparr>) = Some (q, s1)"
      by (cases "register_connection H path (s\<lparr>proc_world := w2\<rparr>)") auto
    show False
    proof (cases q)
      case (Inl x)
      with fin reg have "s' = s1\<lparr>proc_world := drop_connection S db (proc_world s1)\<rparr>" by simp
      with register_fails [OF reg [unfolded Inl]] contr show False by simp
    next
      case (Inr u)
      with fin reg have "io_bind (on_world (file_identity H path)) (\<lambda>identity.
           io_return \<lparr>adp_database = db, adp_path = path, adp_options = options,
                      adp_identity = identity, adp_poisoned = False\<rparr>) s1 = Some (Inl e :: sqlite_adapter result, s')"
        by simp
      then show False
        by (auto simp: io_iffs on_world_Some_iff file_identity_def call_def split: sum.splits)
    qed
  qed
  with world show ?thesis by (simp add: released_def)
qed

lemma open_succeeds:
  assumes handles: "handle_laws S handles" "stat_keeps_handles H handles" and direct: "direct_path H path"
    and run: "open_with_options H S path options s = Some (Inr a, s')"
  shows "one_more handles (handles (proc_world s)) (adp_database a) (proc_world s')"
    "proc_poisoned s' = proc_poisoned s" "key_of path = None \<or> \<not> proc_poisoned s"
    "registry_count k (proc_registry s') = registry_count k (proc_registry s) + key_weight (key_of path) k"
    "adp_path a = path"
proof -
  show "one_more handles (handles (proc_world s)) (adp_database a) (proc_world s')"
    using open_leaks_no_handle [OF handles run] by simp
  obtain w2 s2 w3 where reg: "register_connection H path (s\<lparr>proc_world := w2\<rparr>) = Some (Inr (), s2)"
    and s': "s' = s2\<lparr>proc_world := w3\<rparr>" and path: "adp_path a = path"
    using run by (rule open_with_options_Inr) blast
  from register_released(2,4) [OF handles(2) direct reg] register_released(3) [OF handles(2) direct reg, of k] s' path
  show "proc_poisoned s' = proc_poisoned s" "key_of path = None \<or> \<not> proc_poisoned s"
    "registry_count k (proc_registry s') = registry_count k (proc_registry s) + key_weight (key_of path) k" "adp_path a = path"
    by simp_all
qed

text \<open>Dropping an adapter closes its database, unless it is closed already, and takes back its registration.\<close>

lemma drop_adapter_releases:
  assumes handles: "handle_laws S handles" "stat_keeps_handles H handles" and direct: "direct_path H (adp_path a)"
    and dropped: "drop_adapter H S a s = Some (r, s')"
  shows "one_more handles hs (adp_database a) (proc_world s) \<Longrightarrow> handles (proc_world s') = hs"
    and "adp_database a = 0 \<Longrightarrow> handles (proc_world s') = handles (proc_world s)"
    and "proc_poisoned s' = proc_poisoned s"
    and "key_of (adp_path a) = None \<or> \<not> proc_poisoned s \<Longrightarrow>
      registry_count k (proc_registry s') = registry_count k (proc_registry s) - key_weight (key_of (adp_path a)) k"
proof -
  from dropped obtain q s1 where un: "unregister_connection H (adp_path a) s = Some (q, s1)"
    and s1: "proc_registry s' = proc_registry s1" "proc_poisoned s' = proc_poisoned s1"
      "isl q = False \<Longrightarrow> proc_world s' = drop_connection S (adp_database a) (proc_world s1)"
    by (fastforce simp: drop_adapter_def io_bind_Some_iff)
  note u = unregister_released [OF handles(2) direct un]
  have w: "proc_world s' = drop_connection S (adp_database a) (proc_world s1)" using s1(3) u(3) by simp
  show "one_more handles hs (adp_database a) (proc_world s) \<Longrightarrow> handles (proc_world s') = hs"
    using one_more_close(3) [OF handles(1), of hs "adp_database a" "proc_world s1"]
      one_more_world [of handles, OF u(1)] w by simp
  show "adp_database a = 0 \<Longrightarrow> handles (proc_world s') = handles (proc_world s)"
    using w u(1) by (simp add: drop_connection_def)
  from s1(2) u(2) show "proc_poisoned s' = proc_poisoned s" by simp
  from s1(1) u(4) show "key_of (adp_path a) = None \<or> \<not> proc_poisoned s \<Longrightarrow>
      registry_count k (proc_registry s') = registry_count k (proc_registry s) - key_weight (key_of (adp_path a)) k"
    by simp
qed

text \<open>Dropping the adapter takes back what opening took.\<close>

lemma drop_releases:
  assumes handles: "handle_laws S handles" "stat_keeps_handles H handles" and direct: "direct_path H path"
    and opened: "open_with_options H S path options s = Some (Inr a, s1)"
    and used: "released handles s1 s2"
    and dropped: "drop_adapter H S a s2 = Some (r, s3)"
  shows "released handles s s3"
proof -
  note o = open_succeeds [OF handles direct opened]
  note d = drop_adapter_releases [OF handles _ dropped, unfolded o(5), OF direct]
  have "one_more handles (handles (proc_world s)) (adp_database a) (proc_world s2)"
    using o(1) used one_more_world [of handles "proc_world s2" "proc_world s1"] by (simp add: released_def)
  note h = d(1) [OF this]
  have p: "key_of path = None \<or> \<not> proc_poisoned s2" using o(2,3) used by (simp add: released_def)
  have "registry_count k (proc_registry s3) = registry_count k (proc_registry s)" for k
    using d(4) [OF p, of k] used o(4) [of k] by (simp add: released_def)
  with h d(3) used o(2) show ?thesis by (simp add: released_def)
qed

section \<open>The calls\<close>

text \<open>A call on a connection of its own releases everything when the use of the connection does.\<close>

lemma use_once_released:
  assumes handles: "handle_laws (sys_sqlite Y) handles" "stat_keeps_handles (sys_host Y) handles"
    and direct: "direct_path (sys_host Y) path" and env: "env_selects Y handles path"
    and use: "\<And>c a s s' q. conn_adapter c = SqliteBackend a \<Longrightarrow> f c s = Some (q, s') \<Longrightarrow> released handles s s'"
    and run: "io_bind (route_from_env Y) (\<lambda>route.
        io_bind (connection_open_with_context Y route ctx) (use_once Y f)) s = Some (r, s')"
  shows "released handles s s'"
proof -
  have read: "\<exists>w'. sys_env Y name w = (v, w') \<and> handles w' = handles w" if "fst (sys_env Y name w) = v" for name w v
    using env that unfolding env_selects_def by (metis prod.collapse)
  have env_released: "released handles s s1 \<and> (\<forall>route. q = Inr route \<longrightarrow> route = route_sqlite path)"
    if "route_from_env Y s = Some (q, s1)" for q s1
  proof -
    obtain w1 where w1: "sys_env Y ''DATASTORE'' (proc_world s) = (Some ''sqlite'', w1)" "handles w1 = handles (proc_world s)"
      using read env unfolding env_selects_def by blast
    obtain w2 where w2: "sys_env Y ''DATASTORE_ROUTE'' w1 = (Some path, w2)" "handles w2 = handles w1"
      using read env unfolding env_selects_def by blast
    obtain t w3 where w3: "sys_env Y ''DATASTORE_TOKEN'' w2 = (t, w3)" "handles w3 = handles w2"
      using read by blast
    from that w1 w2 w3 show ?thesis
      by (auto simp: route_from_env_def io_iffs on_world_Some_iff ask_def route_from_env_values_def
          route_sqlite_def released_def split: if_splits)
  qed
  from run consider (env) e where "route_from_env Y s = Some (Inl e, s')"
    | (refused) route s1 e where "route_from_env Y s = Some (Inr route, s1)"
        "connection_open_with_context Y route ctx s1 = Some (Inl e, s')"
    | (uses) route s1 c s2 where "route_from_env Y s = Some (Inr route, s1)"
        "connection_open_with_context Y route ctx s1 = Some (Inr c, s2)" "use_once Y f c s2 = Some (r, s')"
    by (auto simp: io_bind_Some_iff)
  then show ?thesis
  proof cases
    case env
    with env_released show ?thesis by blast
  next
    case refused
    with env_released have 1: "released handles s s1" "route = route_sqlite path" by blast+
    from refused(2) have "s' = s1 \<or> (\<exists>e. open_with_options (sys_host Y) (sys_sqlite Y) path default_open_options s1 = Some (Inl e, s'))"
      unfolding 1 by (auto simp: connection_open_with_context_def connection_open_with_options_and_context_def
          build_adapter_def route_sqlite_def io_iffs split: option.splits if_splits)
    with open_fails_released [OF handles] have "released handles s1 s'" by auto
    with 1 show ?thesis by (blast intro: released_trans)
  next
    case uses
    with env_released have 1: "released handles s s1" "route = route_sqlite path" by blast+
    from uses(2) obtain a where a: "conn_adapter c = SqliteBackend a"
      and o: "open_with_options (sys_host Y) (sys_sqlite Y) path default_open_options s1 = Some (Inr a, s2)"
      unfolding connection_open_with_context_def
      by (cases rule: opened_cases) (simp_all add: 1 route_sqlite_def)
    from uses(3) obtain q s3 x where "f c s2 = Some (q, s3)"
      and d: "drop_adapter (sys_host Y) (sys_sqlite Y) a s3 = Some (x, s')"
      by (auto simp: use_once_def connection_drop_def a io_iffs)
    from drop_releases [OF handles direct o use [OF a this(1)] d] 1 show ?thesis
      by (blast intro: released_trans)
  qed
qed


text \<open>The functions without a context are those with none.\<close>

lemma dactyl_read_no_context: "dactyl_read Y sql params = dactyl_read_with_context Y None sql params"
  by (simp add: dactyl_read_def dactyl_read_with_context_def connection_from_env_def connection_open_def
      connection_open_with_context_def io_bind_assoc)

lemma dactyl_write_no_context: "dactyl_write Y sql params = dactyl_write_with_context Y None sql params"
  by (simp add: dactyl_write_def dactyl_write_with_context_def connection_from_env_def connection_open_def
      connection_open_with_context_def io_bind_assoc)

text \<open>An absolute path on the mini host is direct, although its file may be missing.\<close>

lemma mini_host_direct: "is_absolute p \<Longrightarrow> direct_path mini_host_api p"
  by (simp add: direct_path_def mini_host_api_def mh_absolute_def)


end
