(* ===== verification/File_Keeps.thy ===== *)
theory File_Keeps
  imports Recovery_Custody
begin

text \<open>
  Invariants of the world under the file operations of backup and recovery: a predicate that no
  call of the host disturbs, renaming and removing included, survives the moves, the publication
  and the whole life of a stage.
\<close>

definition quiet_files :: "('w \<Rightarrow> bool) \<Rightarrow> 'w host_api \<Rightarrow> bool" where
  "quiet_files P H \<longleftrightarrow> host_keeps P H \<and>
     (\<forall>p q. call_keeps P (rename H p q)) \<and> (\<forall>p q. call_keeps P (renameat2 H p q)) \<and>
     (\<forall>p. call_keeps P (remove_file H p))"

lemma quiet_filesD:
  assumes "quiet_files P H"
  shows "host_keeps P H" "call_keeps P (rename H p q)" "call_keeps P (renameat2 H p q)"
    "call_keeps P (remove_file H p)"
  using assms by (simp_all add: quiet_files_def)

lemma keeps_names:
  assumes "quiet_files P H"
  shows keeps_remove_if_exists: "keeps P (remove_file_if_exists H p)"
    and keeps_remove_leftovers: "keeps P (remove_leftovers H p :: ('w, 'e, unit) io)"
    and keeps_publish: "keeps P (publish_temp_file H p q)"
    and keeps_temporary_path: "keeps P (temporary_path H base label)"
    and keeps_move_noreplace: "keeps P (move_noreplace H p q i)"
proof -
  note q = quiet_filesD [OF assms] and h = host_keepsD [OF quiet_filesD(1) [OF assms]]
  show r: "keeps P (remove_file_if_exists H p)" for p
    unfolding remove_file_if_exists_def by (intro keeps_intros q)
  show "keeps P (remove_leftovers H p :: ('w, 'e, unit) io)"
    unfolding remove_leftovers_def by (intro keeps_intros r)
  show "keeps P (publish_temp_file H p q)"
    unfolding publish_temp_file_def by (intro keeps_intros q keeps_sync_parent)
  have "keeps P (try_temporary H candidate attempts)" for candidate attempts
    by (induction attempts) (auto intro!: keeps_intros h)
  then show "keeps P (temporary_path H base label)"
    unfolding temporary_path_def Let_def by (intro keeps_intros h)
  show "keeps P (move_noreplace H p q i)"
    unfolding move_noreplace_def by (intro keeps_intros q keeps_identity_check)
qed

lemma keeps_stage_drop:
  assumes "quiet_files P H"
  shows "keeps P (stage_drop H st)"
proof -
  note q = quiet_filesD [OF assms]
  note c = checks_keep [OF q(1)] stage_keeps [OF q(1)] file_helpers_keep [OF q(1)]
  note h = host_keepsD(5,16) [OF q(1)]
  have "keeps P (drop_files H st)"
    unfolding drop_files_def by (intro keeps_intros q c h)
  then show ?thesis
    unfolding stage_drop_def by (intro keeps_intros q c h)
qed

lemma keeps_or_drop: "quiet_files P H \<Longrightarrow> keeps P m \<Longrightarrow> keeps P (or_drop H st m)"
  unfolding or_drop_def by (intro keeps_intros keeps_stage_drop) assumption+

lemma keeps_stage_create:
  assumes "quiet_files P H"
  shows "keeps P (stage_create H source md)"
proof -
  note q = quiet_filesD(1) [OF assms]
  note c = checks_keep [OF q] stage_keeps [OF q] file_helpers_keep [OF q]
  note h = host_keepsD(5,8,12,17) [OF q]
  have "keeps P (stage_in H parent_path parent_identity md path)" for parent_path parent_identity path
    unfolding stage_in_def private_file_def Let_def by (intro keeps_intros keeps_or_drop [OF assms] c h)
  then show ?thesis
    unfolding stage_create_def stage_create_with_nonce_def Let_def by (intro keeps_intros c h)
qed

end
