(* ===== verification/Handle_Accounts.thy ===== *)
theory Handle_Accounts
  imports Recovery_Outcome Connection_Release File_Keeps
begin

text \<open>
  The SQLite handles of the maintenance operations: the online backup and the rebuild of recovery
  open a second database, prepare statements on both and, in the backup, start a copy; all of it
  is finalized, finished and closed on every way out, in an order in which SQLite does not refuse
  to close. Recovery leaves the adapter with a database of its own or with none.
\<close>

section \<open>What is assumed\<close>

text \<open>The calls on files leave the handles alone; SQLite accounts for them call by call.\<close>

definition maintenance_laws :: "'w host_api \<Rightarrow> 'w sqlite_api \<Rightarrow> ('w \<Rightarrow> sqlite_handle set) \<Rightarrow> bool" where
  "maintenance_laws H S handles \<longleftrightarrow> handle_laws S handles \<and> statement_handle_laws S handles \<and>
     backup_handle_laws S handles \<and> (\<forall>hs. quiet_files (\<lambda>w. handles w = hs) H)"

lemma maintenance_lawsD:
  assumes "maintenance_laws H S handles"
  shows "handle_laws S handles" "statements_keep (\<lambda>hs w. handles w = hs) S" "backup_handle_laws S handles"
    "quiet_files (\<lambda>w. handles w = hs) H" "host_keeps (\<lambda>w. handles w = hs) H"
  using assms by (simp_all add: maintenance_laws_def handles_statements quiet_files_def)

section \<open>Opening and closing\<close>

lemma open_database_triple:
  assumes "handle_laws S handles"
  shows "triple (\<lambda>w. handles w = hs) (open_database S p m) (one_more handles hs) (\<lambda>_ w. handles w = hs)"
  using open_database_handles [OF assms] by (fastforce simp: triple_def)

lemma close_succeeds:
  assumes "handle_laws S handles" and "one_more handles hs db w"
  shows "close_connection S db w = ((Inr (), 0), snd (close_db S db w))" "handles (snd (close_db S db w)) = hs"
  using one_more_close [OF assms] assms(2)
  by (cases "close_db S db w"; simp add: close_connection_def one_more_def)+

lemma close_or_drop_triple:
  assumes "handle_laws S handles"
  shows "triple (one_more handles hs db) (close_or_drop S db) (\<lambda>_ w. handles w = hs) (\<lambda>_ w. handles w = hs)"
  using close_succeeds [OF assms] by (auto simp: triple_def close_or_drop_def)

lemma with_connection_triple:
  assumes "handle_laws S handles" and "\<And>hs. keeps (\<lambda>w. handles w = hs) m"
  shows "triple (one_more handles hs db) (with_connection S db m) (\<lambda>_. one_more handles hs db) (\<lambda>_ w. handles w = hs)"
proof -
  have "one_more handles hs db w1" if "one_more handles hs db w" "m w = Some (r, w1)" for w r w1
    using that one_more_world [of handles w1 w] keepsD [OF assms(2) refl that(2)] by simp
  then show ?thesis
    using one_more_close(3) [OF assms(1)]
    by (auto simp: triple_def with_connection_def split: option.splits sum.splits prod.splits)
qed

section \<open>Backup\<close>

lemma keeps_backup_loop:
  fixes S :: "'w sqlite_api"
  assumes "host_keeps P H" and "\<And>n. call_keeps P (backup_step S backup n)"
  shows "keeps P (backup_loop H S backup dest deadline)"
proof (rule keepsI)
  let ?G = "\<lambda>(y :: unit result \<times> 'w). P (snd y)"
  note step = assms(2) and host = host_keepsD [OF assms(1)]
  fix w r w'
  assume w: "P w" and run: "backup_loop H S backup dest deadline w = Some (r, w')"
  have "H = H \<longrightarrow> S = S \<longrightarrow> backup = backup \<longrightarrow> P w \<longrightarrow> ?G (r, w')"
  proof (rule backup_loop.raw_induct [where
        P = "\<lambda>H' S' backup' dest deadline w y. H' = H \<longrightarrow> S' = S \<longrightarrow> backup' = backup \<longrightarrow> P w \<longrightarrow> ?G y",
        OF _ run], intro impI)
    fix f and H' :: "'w host_api" and S' :: "'w sqlite_api" and backup' dest deadline w y
    assume IH: "\<And>H' S' backup' dest deadline w y. f H' S' backup' dest deadline w = Some y \<Longrightarrow>
          H' = H \<longrightarrow> S' = S \<longrightarrow> backup' = backup \<longrightarrow> P w \<longrightarrow> ?G y"
      and eq: "(case backup_step S' backup' 64 w of (code, w1) \<Rightarrow>
        if code = SQLITE_DONE then Some (Inr (), w1)
        else if code = SQLITE_OK then f H' S' backup' dest deadline w1
        else if code = SQLITE_BUSY \<or> code = SQLITE_LOCKED then
          (case instant_nanos H' w1 of (now, w2) \<Rightarrow>
             if now < deadline then f H' S' backup' dest deadline (sleep_millis H' 1 w2)
             else Some (Inl backup_timeout_error, w2))
        else Some (Inl (conn_error S' dest ''step SQLite online backup'' code w1), w1)) = Some y"
      and same: "H' = H" "S' = S" "backup' = backup" and Pw: "P w"
    obtain code w1 where s: "backup_step S backup 64 w = (code, w1)" by (cases "backup_step S backup 64 w")
    obtain now w2 where n: "instant_nanos H w1 = (now, w2)" by (cases "instant_nanos H w1")
    have P1: "P w1" using call_keepsD [OF step Pw s] .
    have P2: "P w2" using call_keepsD [OF host(18) P1 n] .
    have P3: "P (sleep_millis H 1 w2)" using host(19) P2 by blast
    consider "snd y = w1" | "snd y = w2" | "f H S backup dest deadline w1 = Some y"
      | "f H S backup dest deadline (sleep_millis H 1 w2) = Some y"
      using eq s n same by (auto split: if_splits)
    then show "P (snd y)"
      using P1 P2 IH [of H S backup dest deadline w1 y] IH [of H S backup dest deadline "sleep_millis H 1 w2" y] P3
      by cases simp_all
  qed
  with w show "P w'" by simp
qed

text \<open>A backup that was started is finished, whatever the loop returned.\<close>

lemma keeps_perform_backup:
  assumes "maintenance_laws H S handles"
  shows "keeps (\<lambda>w. handles w = hs) (perform_backup H S source dest lock)"
proof (rule keepsI)
  note laws = backup_handle_lawsD [OF maintenance_lawsD(3) [OF assms]]
  note host = maintenance_lawsD(5) [OF assms]
  fix w r w'
  assume w: "handles w = hs" and run: "perform_backup H S source dest lock w = Some (r, w')"
  obtain b w1 where b: "backup_init S dest ''main'' source ''main'' w = (b, w1)"
    by (cases "backup_init S dest ''main'' source ''main'' w")
  note init = laws(1) [OF b]
  show "handles w' = hs"
  proof (cases "b = 0")
    case True
    with run b init w show ?thesis by (simp add: perform_backup_def)
  next
    case False
    let ?P = "\<lambda>w. handles w = insert (Copying b dest source) hs"
    have P1: "?P w1" using init False w by simp
    obtain now w2 where n: "instant_nanos H w1 = (now, w2)" by (cases "instant_nanos H w1")
    have P2: "?P w2" using call_keepsD [OF host_keepsD(18) [OF host] P1 n] .
    from run b False n obtain deadline q w3 where l: "backup_loop H S b dest deadline w2 = Some (q, w3)"
      and w': "w' = snd (backup_finish S b w3)"
      by (auto simp: perform_backup_def split: option.splits prod.splits if_splits)
    have "call_keeps ?P (backup_step S b n)" for n using laws by (simp add: call_keeps_def)
    from keepsD [OF keeps_backup_loop [OF host this] P2 l]
    have "handles w' = insert (Copying b dest source) hs - {Copying b d s | d s. True}"
      unfolding w' using laws by simp
    then show ?thesis using init False w by auto
  qed
qed

lemma fill_temporary_handles:
  assumes "maintenance_laws H S handles"
  shows "keeps (\<lambda>w. handles w = hs) (fill_temporary H S J source temporary lock)"
proof -
  note laws = maintenance_lawsD [OF assms]
  have body: "keeps (\<lambda>w. handles w = hs') (io_bind (configure_connection S db options) (\<lambda>_.
      io_bind (perform_backup H S source db lock) (\<lambda>_. verify_integrity S J db)))" for db hs' options
    by (intro keeps_intros keeps_configure [OF laws(2)] keeps_perform_backup [OF assms] keeps_verify_integrity [OF laws(2)])
  show ?thesis
    unfolding keeps_triple fill_temporary_def
    by (rule triple_bind [OF open_database_triple [OF laws(1)]],
        rule triple_bind [OF with_connection_triple [OF laws(1) body]],
        rule triple_bind [OF close_or_drop_triple [OF laws(1)]], rule triple_return)
qed

lemma backup_handles:
  fixes H :: "'w host_api"
  assumes "maintenance_laws H S handles"
  shows "keeps (\<lambda>w. handles w = hs) (sqlite_backup H S J a destination)"
proof -
  note laws = maintenance_lawsD [OF assms]
  note h = host_keepsD(4) [OF laws(5)]
  have body: "keeps (\<lambda>w. handles w = hs) (backup_body H S J source temporary destination lock)" for source temporary lock
    unfolding backup_body_def backup_result_of_def
    by (intro keeps_intros fill_temporary_handles [OF assms] keeps_sync_files [OF laws(5)] keeps_publish [OF laws(4)]
        keeps_pragma_text [OF laws(2)] h)
  have same: "keeps (\<lambda>w. handles w = hs) (same_database H p p' :: ('w, dactyl_error, bool) io)" for p p'
    unfolding same_database_def by (intro keeps_intros keeps_path_key laws(5))
  show ?thesis
    unfolding sqlite_backup_def backup_database_def
    by (intro keeps_intros same body keeps_ensure_parent keeps_ensure_absent keeps_temporary_path [OF laws(4)]
        keeps_remove_leftovers [OF laws(4)] laws(5))
qed

section \<open>Recovery\<close>

lemma rebuild_database_handles:
  assumes "maintenance_laws H S handles"
  shows "keeps (\<lambda>w. handles w = hs) (rebuild_database S J source temporary lock)"
  unfolding keeps_triple rebuild_database_def
proof (rule triple_bind [OF open_database_triple [OF maintenance_lawsD(1) [OF assms]]])
  fix db
  let ?P = "one_more handles hs db"
  have "keeps (\<lambda>w. handles w = hs') (rebuild_into S J source db lock)" for hs'
    by (rule keeps_rebuild_into [OF maintenance_lawsD(2) [OF assms]])
  note same = keepsD [OF this refl]
  have "?P w1" if "?P w" "rebuild_into S J source db lock w = Some (r, w1)" for w r w1
    using one_more_world [of handles w1 w, OF same [OF that(2)]] that(1) by simp
  then have into: "triple ?P (io_result (rebuild_into S J source db lock)) (\<lambda>_. ?P) (\<lambda>_ w. handles w = hs)"
    by (intro triple_result) (auto simp: triple_def)
  show "triple ?P (io_bind (io_result (rebuild_into S J source db lock)) (\<lambda>result.
       io_bind (io_result (close_or_drop S db)) (\<lambda>close.
         case result of
           Inl error \<Rightarrow> io_fail error
         | Inr value \<Rightarrow> (case close of Inr _ \<Rightarrow> io_return value | Inl error \<Rightarrow> io_fail error))))
      (\<lambda>_ w. handles w = hs) (\<lambda>_ w. handles w = hs)"
  proof (rule triple_bind [OF into],
      rule triple_bind [OF triple_result [OF close_or_drop_triple [OF maintenance_lawsD(1) [OF assms]]]])
    fix result close
    show "triple (\<lambda>w. handles w = hs) (case result of
           Inl error \<Rightarrow> io_fail error
         | Inr value \<Rightarrow> (case close of Inr _ \<Rightarrow> io_return value | Inl error \<Rightarrow> io_fail error))
        (\<lambda>_ w. handles w = hs) (\<lambda>_ w. handles w = hs)"
      by (cases result; cases close) (auto intro: triple_intros)
  qed
qed

text \<open>What a recovery knows of the handles: the adapter has \<open>d\<close>, closed when \<open>d = 0\<close>, beside \<open>hs\<close>.\<close>

definition has_handles :: "('w \<Rightarrow> sqlite_handle set) \<Rightarrow> sqlite_handle set \<Rightarrow> nat \<Rightarrow> 'w recovering \<Rightarrow> bool" where
  "has_handles handles hs d s \<longleftrightarrow> adp_database (rec_adapter s) = d \<and>
     (if d = 0 then handles (rec_world s) = hs else one_more handles hs d (rec_world s))"

lemma has_handles_world:
  "handles w = handles (rec_world s) \<Longrightarrow> has_handles handles hs d (s\<lparr>rec_world := w\<rparr>) = has_handles handles hs d s"
  using one_more_world [of handles w "rec_world s"] by (simp add: has_handles_def)

lemma triple_on_world:
  assumes "triple P m Q E" and "\<And>s. I s \<Longrightarrow> P (rec_world s)"
    and "\<And>s w x. I s \<Longrightarrow> Q x w \<Longrightarrow> J x (s\<lparr>rec_world := w\<rparr>)"
    and "\<And>s w e. I s \<Longrightarrow> E e w \<Longrightarrow> F e (s\<lparr>rec_world := w\<rparr>)"
  shows "triple I (on_rec m) J F"
proof (rule tripleI)
  fix s x s'
  assume s: "I s" and "on_rec m s = Some (Inr x, s')"
  then obtain w where "m (rec_world s) = Some (Inr x, w)" "s' = s\<lparr>rec_world := w\<rparr>"
    by (auto simp: on_rec_def split: option.splits)
  with triple_ok [OF assms(1,2)] s assms(3) show "J x s'" by blast
next
  fix s e s'
  assume s: "I s" and "on_rec m s = Some (Inl e, s')"
  then obtain w where "m (rec_world s) = Some (Inl e, w)" "s' = s\<lparr>rec_world := w\<rparr>"
    by (auto simp: on_rec_def split: option.splits)
  with triple_err [OF assms(1,2)] s assms(4) show "F e s'" by blast
qed

lemma keeps_has_handles:
  assumes "\<And>hs. keeps (\<lambda>w. handles w = hs) m"
  shows "keeps (has_handles handles hs d) (on_rec m)"
proof (rule keepsI)
  fix s r s'
  assume s: "has_handles handles hs d s" and run: "on_rec m s = Some (r, s')"
  then obtain w where "m (rec_world s) = Some (r, w)" "s' = s\<lparr>rec_world := w\<rparr>"
    by (auto simp: on_rec_def split: option.splits)
  moreover from keepsD [OF assms refl this(1)] have "handles w = handles (rec_world s)" .
  ultimately show "has_handles handles hs d s'" using s has_handles_world [of handles w s hs d] by simp
qed

lemma close_adapter_handles:
  assumes "handle_laws S handles"
  shows "triple (has_handles handles hs d) (close_adapter S) (\<lambda>_. has_handles handles hs 0) (\<lambda>_. has_handles handles hs 0)"
proof (cases "d = 0")
  case True
  then show ?thesis by (auto simp: triple_def close_adapter_def close_connection_def has_handles_def set_database_def)
next
  case False
  then show ?thesis
    using close_succeeds [OF assms] by (auto simp: triple_def close_adapter_def has_handles_def set_database_def)
qed

text \<open>The end of a reopen, with the database set: configured, it is kept, otherwise closed again.\<close>

lemma reopened_handles:
  fixes configured :: "unit result"
  assumes laws: "maintenance_laws H S handles" and "db \<noteq> 0"
  shows "triple (has_handles handles hs db) (case configured of
         Inl error \<Rightarrow> io_bind (io_result (close_adapter S)) (\<lambda>_. io_fail error)
       | Inr _ \<Rightarrow> io_bind (on_rec (file_identity H p)) (\<lambda>identity.
             rec_modify (\<lambda>s. s\<lparr>rec_adapter := (rec_adapter s)\<lparr>adp_identity := identity\<rparr>\<rparr>)))
      (\<lambda>_ s. \<exists>d. d \<noteq> 0 \<and> has_handles handles hs d s) (\<lambda>_. has_handles handles hs 0)"
proof (cases configured)
  case (Inl e)
  then show ?thesis
    by (simp, intro triple_bind [OF triple_result [OF close_adapter_handles [OF maintenance_lawsD(1) [OF laws]]]] triple_fail)
next
  case (Inr u)
  have ident: "keeps (has_handles handles hs db) (on_rec (file_identity H p) :: ('a recovering, dactyl_error, _) io)"
    by (intro keeps_has_handles keeps_file_identity maintenance_lawsD(5) [OF laws])
  have "file_identity H p w \<noteq> Some (Inl e, w')" for w w' and e :: dactyl_error
    by (auto simp: file_identity_def io_iffs call_def)
  then have "triple (has_handles handles hs db) (on_rec (file_identity H p)) (\<lambda>_. has_handles handles hs db)
      (\<lambda>_ :: dactyl_error. has_handles handles hs 0)"
    using ident by (fastforce simp: triple_def keeps_def on_rec_def split: option.splits)
  then show ?thesis
    unfolding Inr sum.case
    by (rule triple_bind) (use assms(2) in \<open>auto simp: triple_def rec_modify_def has_handles_def\<close>)
qed

lemma reopen_handles:
  assumes "maintenance_laws H S handles"
  shows "triple (has_handles handles hs 0) (reopen_connection H S p) (\<lambda>_ s. \<exists>d. d \<noteq> 0 \<and> has_handles handles hs d s)
     (\<lambda>_. has_handles handles hs 0)"
proof -
  note laws = maintenance_lawsD [OF assms]
  let ?O = "\<lambda>db s. one_more handles hs db (rec_world s)"
  have odb: "triple (has_handles handles hs 0) (on_rec (open_database S p m)) ?O (\<lambda>_. has_handles handles hs 0)" for m
    by (rule triple_on_world [where I = "has_handles handles hs 0", OF open_database_triple [OF laws(1)]])
      (auto simp: has_handles_def)
  have "keeps (has_handles handles hs d) (on_rec (configure_connection S db options))" for d db options
    by (intro keeps_has_handles keeps_configure [OF laws(2)])
  then have conf: "triple (has_handles handles hs d) (io_result (on_rec (configure_connection S db options)))
      (\<lambda>_. has_handles handles hs d) (\<lambda>_. has_handles handles hs 0)" for d db options
    by (intro triple_result) (simp add: keeps_triple)
  have set: "triple (?O db) (rec_modify (set_database db)) (\<lambda>_ s. db \<noteq> 0 \<and> has_handles handles hs db s)
      (\<lambda>_. has_handles handles hs 0)" for db
    by (auto simp: triple_def rec_modify_def has_handles_def set_database_def one_more_def)
  have conf': "triple (\<lambda>s. db \<noteq> 0 \<and> has_handles handles hs db s) (io_bind (io_result (on_rec (configure_connection S db options)))
      (\<lambda>configured. case configured of
         Inl error \<Rightarrow> io_bind (io_result (close_adapter S)) (\<lambda>_. io_fail error)
       | Inr _ \<Rightarrow> io_bind (on_rec (file_identity H p)) (\<lambda>identity.
             rec_modify (\<lambda>s. s\<lparr>rec_adapter := (rec_adapter s)\<lparr>adp_identity := identity\<rparr>\<rparr>))))
      (\<lambda>_ s. \<exists>d. d \<noteq> 0 \<and> has_handles handles hs d s) (\<lambda>_. has_handles handles hs 0)" for db options
  proof (cases "db = 0")
    case True
    then show ?thesis by (simp add: triple_def)
  next
    case False
    from triple_bind [OF conf reopened_handles [OF assms False]] False show ?thesis by simp
  qed
  have lift: "triple (has_handles handles hs 0) (io_lift x) (\<lambda>_. has_handles handles hs 0) (\<lambda>_. has_handles handles hs 0)"
    for x :: "nat result"
    by (rule triple_lift) auto
  show ?thesis
    unfolding reopen_connection_def
    by (intro triple_bind [OF keeps_rec_gets [unfolded keeps_triple]] triple_bind [OF lift] triple_bind [OF odb]
        triple_bind [OF set] conf')
qed

lemma keeps_handles_steps:
  assumes "maintenance_laws H S handles"
  shows "keeps (has_handles handles hs d) (preserve H source archive i)"
    and "keeps (has_handles handles hs d) (activate H source)"
    and "keeps (has_handles handles hs d) (quarantine H source)"
    and "keeps (has_handles handles hs d) (on_rec (move_back H error ms))"
    and "keeps (has_handles handles hs d) (on_rec (identity_check H i source))"
    and "keeps (has_handles handles hs d) (on_rec (sync_database_files H source b))"
    and "keeps (has_handles handles hs d) (on_rec (stage_sync H st))"
    and "keeps (has_handles handles hs d) (on_rec (rebuild_snapshot S J db temporary lock))"
    and "keeps (has_handles handles hs d) (on_rec (verify_staged H md source st))"
proof -
  note host = maintenance_lawsD(5) [OF assms] and files = maintenance_lawsD(4) [OF assms]
  note h = host_keepsD(5,11,13) [OF host]
  note c = checks_keep [OF host] stage_keeps [OF host] keeps_sync_files [OF host] keeps_move_noreplace [OF files]
  have modify: "keeps (has_handles handles hs d) (rec_modify f)"
    if "\<And>s. rec_world (f s) = rec_world s \<and> adp_database (rec_adapter (f s)) = adp_database (rec_adapter s)" for f
    by (rule keeps_rec_modify) (auto simp: has_handles_def that)
  have move: "keeps (has_handles handles hs d) (move_original H p q k)" for p q k
    unfolding move_original_def by (intro keeps_intros keeps_has_handles c modify) simp
  show "keeps (has_handles handles hs d) (preserve H source archive i)"
    unfolding preserve_def move_sidecar_def
    by (intro keeps_intros keeps_has_handles keeps_rec_gets move c h)
  show "keeps (has_handles handles hs d) (activate H source)"
    unfolding activate_def by (intro keeps_intros keeps_has_handles keeps_rec_gets c)
  show "keeps (has_handles handles hs d) (quarantine H source)"
    unfolding quarantine_def
    by (intro keeps_bind keeps_rec_gets keeps_has_handles modify keeps_map_err keeps_call c h) simp_all
  have "keeps (\<lambda>w. handles w = hs) (move_back H error ms)" for hs
    by (induction ms) (auto intro!: keeps_intros keeps_move_noreplace [OF files])
  then show "keeps (has_handles handles hs d) (on_rec (move_back H error ms))"
    by (rule keeps_has_handles)
  show "keeps (has_handles handles hs d) (on_rec (identity_check H i source))"
    "keeps (has_handles handles hs d) (on_rec (sync_database_files H source b))"
    "keeps (has_handles handles hs d) (on_rec (stage_sync H st))"
    "keeps (has_handles handles hs d) (on_rec (verify_staged H md source st))"
    by (intro keeps_has_handles c)+
  have "keeps (\<lambda>w. handles w = hs) (rebuild_snapshot S J db temporary lock)" for hs
    unfolding rebuild_snapshot_def
    by (intro keeps_intros keeps_run_sql [OF maintenance_lawsD(2) [OF assms]] rebuild_database_handles [OF assms])
  then show "keeps (has_handles handles hs d) (on_rec (rebuild_snapshot S J db temporary lock))"
    by (rule keeps_has_handles)
qed

definition some_handles :: "('w \<Rightarrow> sqlite_handle set) \<Rightarrow> sqlite_handle set \<Rightarrow> 'w recovering \<Rightarrow> bool" where
  "some_handles handles hs s \<longleftrightarrow> (\<exists>d. has_handles handles hs d s)"

definition open_handle :: "('w \<Rightarrow> sqlite_handle set) \<Rightarrow> sqlite_handle set \<Rightarrow> 'w recovering \<Rightarrow> bool" where
  "open_handle handles hs s \<longleftrightarrow> (\<exists>d. d \<noteq> 0 \<and> has_handles handles hs d s)"

lemma some_handlesI: "has_handles handles hs d s \<Longrightarrow> some_handles handles hs s"
  by (auto simp: some_handles_def)

lemma open_handle_some: "open_handle handles hs s \<Longrightarrow> some_handles handles hs s"
  by (auto simp: open_handle_def some_handles_def)

text \<open>A step that keeps the handles, in the middle of a recovery that may fail.\<close>

lemma bind_keeping:
  assumes "keeps (has_handles handles hs d) m"
    and "\<And>x. triple (has_handles handles hs d) (f x) Q (\<lambda>_. some_handles handles hs)"
  shows "triple (has_handles handles hs d) (io_bind m f) Q (\<lambda>_. some_handles handles hs)"
  by (rule triple_bind [OF triple_conseq [OF assms(1) [unfolded keeps_triple]] assms(2)])
    (auto intro: some_handlesI)

lemma bind_result_keeping:
  assumes "keeps (has_handles handles hs d) m"
    and "\<And>x. triple (has_handles handles hs d) (f x) Q (\<lambda>_. some_handles handles hs)"
  shows "triple (has_handles handles hs d) (io_bind (io_result m) f) Q (\<lambda>_. some_handles handles hs)"
  by (rule bind_keeping [OF keeps_result [OF assms(1)] assms(2)])

lemma rollback_handles:
  assumes "maintenance_laws H S handles"
  shows "triple (has_handles handles hs 0) (rollback_original H S error source i) Q (\<lambda>_. some_handles handles hs)"
proof -
  note steps = keeps_handles_steps [OF assms]
  have reopened: "triple (has_handles handles hs 0) (io_result (reopen_connection H S source))
      (\<lambda>_. some_handles handles hs) (\<lambda>_. some_handles handles hs)"
    by (rule triple_result [OF triple_conseq [OF reopen_handles [OF assms]]]) (auto simp: some_handles_def)
  have answer: "triple (some_handles handles hs) (case rbind sync (\<lambda>_. reopen) of
         Inl rollback \<Rightarrow> io_fail (recovery_rollback_error error rollback)
       | Inr _ \<Rightarrow> io_fail error) Q (\<lambda>_. some_handles handles hs)"
    for sync :: "unit result" and reopen :: "unit result"
    by (cases "rbind sync (\<lambda>_. reopen)") (auto intro: triple_intros)
  show ?thesis
    unfolding rollback_original_def
    by (intro bind_keeping [OF keeps_rec_gets] bind_keeping [OF steps(4)] bind_keeping [OF keeps_map_err [OF steps(5)]]
        bind_result_keeping [OF steps(6)] triple_bind [OF reopened answer])
qed

lemma activation_handles:
  assumes "maintenance_laws H S handles"
  shows "triple (has_handles handles hs 0) (activation H S source) (\<lambda>_. open_handle handles hs) (\<lambda>_. has_handles handles hs 0)"
proof -
  note steps = keeps_handles_steps [OF assms]
  have reopen: "triple (has_handles handles hs 0) (io_map_err reopen_error (reopen_connection H S source))
      (\<lambda>_. open_handle handles hs) (\<lambda>_. has_handles handles hs 0)"
    by (rule triple_map_err, rule triple_conseq [OF reopen_handles [OF assms]]) (auto simp: open_handle_def)
  have sync: "keeps (has_handles handles hs 0) (on_rec (io_map_err sync_error (stage_sync H st)))" for st
    by (intro keeps_has_handles keeps_map_err stage_keeps maintenance_lawsD(5) [OF assms])
  show ?thesis
    unfolding activation_def
    by (intro triple_bind [OF keeps_rec_gets [unfolded keeps_triple]] triple_bind [OF sync [unfolded keeps_triple]]
        triple_bind [OF steps(5) [unfolded keeps_triple]] reopen)
qed

lemma fail_activation_handles:
  assumes "maintenance_laws H S handles"
  shows "triple (has_handles handles hs 0) (fail_activation H S error source i) Q (\<lambda>_. some_handles handles hs)"
proof -
  have close: "keeps (has_handles handles hs 0) (close_adapter S)"
    unfolding keeps_triple by (rule close_adapter_handles [OF maintenance_lawsD(1) [OF assms]])
  have close: "keeps (has_handles handles hs 0)
      (if b then io_return () else io_bind (io_result (close_adapter S)) (\<lambda>_. io_return ()))" for b
    by (intro keeps_intros close)
  have fail: "triple (has_handles handles hs 0) (io_fail e) Q (\<lambda>_. some_handles handles hs)" for e
    by (rule triple_fail) (rule some_handlesI)
  show ?thesis
    unfolding fail_activation_def
    by (intro bind_keeping [OF keeps_rec_gets] bind_keeping [OF close]
        bind_result_keeping [OF keeps_handles_steps(3) [OF assms]])
      (auto intro!: bind_keeping [OF keeps_rec_gets] rollback_handles [OF assms] fail split: sum.split)
qed

text \<open>A success has the adapter open; a failure leaves it open or closed, and nothing else open.\<close>

lemma recover_staged_handles:
  assumes "maintenance_laws H S handles"
  shows "triple (has_handles handles hs d) (recover_staged H S J md source archive)
     (\<lambda>_. open_handle handles hs) (\<lambda>_. some_handles handles hs)"
proof -
  note steps = keeps_handles_steps [OF assms]
  note rollback = rollback_handles [OF assms]
  have activated: "triple (has_handles handles hs 0) (io_result (activation H S source))
      (\<lambda>r. if isl r then has_handles handles hs 0 else open_handle handles hs) (\<lambda>_. some_handles handles hs)"
    by (rule triple_result) (simp add: activation_handles [OF assms])
  have last: "triple (if isl reopened then has_handles handles hs 0 else open_handle handles hs)
      (case reopened of
         Inl error \<Rightarrow> fail_activation H S error source i
       | Inr (_ :: unit) \<Rightarrow> io_return res) (\<lambda>_. open_handle handles hs) (\<lambda>_. some_handles handles hs)" for reopened i res
    by (cases reopened) (auto intro: fail_activation_handles [OF assms] triple_return)
  have active: "triple (has_handles handles hs 0) (case activated of
        Inl error \<Rightarrow> rollback_original H S error source i
      | Inr (_ :: unit) \<Rightarrow> io_bind (io_result (activation H S source)) (\<lambda>reopened.
          case reopened of
            Inl error \<Rightarrow> fail_activation H S error source i
          | Inr (_ :: unit) \<Rightarrow> io_return res)) (\<lambda>_. open_handle handles hs) (\<lambda>_. some_handles handles hs)"
    for activated i and res :: recovery_result
    by (cases activated) (simp_all add: rollback triple_bind [OF activated last])
  have preserved: "triple (has_handles handles hs 0) (case preserved of
        Inl error \<Rightarrow> rollback_original H S error source i
      | Inr (_ :: unit) \<Rightarrow> io_bind (io_result (activate H source)) (\<lambda>activated. case activated of
          Inl error \<Rightarrow> rollback_original H S error source i
        | Inr (_ :: unit) \<Rightarrow> io_bind (io_result (activation H S source)) (\<lambda>reopened.
            case reopened of
              Inl error \<Rightarrow> fail_activation H S error source i
            | Inr (_ :: unit) \<Rightarrow> io_return res))) (\<lambda>_. open_handle handles hs) (\<lambda>_. some_handles handles hs)"
    for preserved i and res :: recovery_result
    by (cases preserved) (auto simp: rollback intro!: bind_result_keeping [OF steps(2)] active)
  have closed: "triple (has_handles handles hs d) (close_adapter S) (\<lambda>_. has_handles handles hs 0) (\<lambda>_. some_handles handles hs)"
    by (rule triple_conseq [OF close_adapter_handles [OF maintenance_lawsD(1) [OF assms]]]) (auto intro: some_handlesI)
  show ?thesis
    unfolding recover_staged_def
    by (intro bind_keeping [OF keeps_rec_gets] bind_keeping [OF keeps_basic(3)] bind_keeping [OF steps(8)]
        bind_keeping [OF steps(9)] triple_bind [OF closed] bind_result_keeping [OF steps(1)] preserved)
qed

section \<open>The stage and the adapter around it\<close>

text \<open>Recovery changes the handle and the identity of the adapter, nothing else of it.\<close>

lemma keeps_on_rec_any: "(\<And>s w. I (s\<lparr>rec_world := w\<rparr>) = I s) \<Longrightarrow> keeps I (on_rec m)"
  by (auto simp: keeps_def on_rec_def split: option.splits)

lemma keeps_adapter_path: "keeps (\<lambda>s. adp_path (rec_adapter s) = p) (recover_staged H S J md source archive)"
proof -
  let ?I = "\<lambda>s. adp_path (rec_adapter s) = p"
  have world: "keeps ?I (on_rec m)" for m by (rule keeps_on_rec_any) simp
  have modify: "keeps ?I (rec_modify f)" if "\<And>s. adp_path (rec_adapter (f s)) = adp_path (rec_adapter s)" for f
    by (rule keeps_rec_modify) (simp add: that)
  have close: "keeps ?I (close_adapter S)"
    by (auto simp: keeps_def close_adapter_def set_database_def split: prod.splits)
  have reopen: "keeps ?I (reopen_connection H S source)"
    unfolding reopen_connection_def
    by (intro keeps_intros keeps_rec_gets world close modify) (simp_all add: set_database_def)
  note steps = keeps_rec_gets world close reopen
  have move: "keeps ?I (move_original H x y i)" for x y i
    unfolding move_original_def by (intro keeps_intros world modify) simp
  have "keeps ?I (preserve H source archive i)" for i
    unfolding preserve_def move_sidecar_def by (intro keeps_intros steps move)
  moreover have "keeps ?I (activate H source)"
    unfolding activate_def by (intro keeps_intros steps)
  moreover have "keeps ?I (activation H S source)"
    unfolding activation_def by (intro keeps_intros steps)
  moreover have "keeps ?I (quarantine H source)"
    unfolding quarantine_def by (intro keeps_intros steps modify) simp_all
  moreover have rollback: "keeps ?I (rollback_original H S e source i)" for e i
    unfolding rollback_original_def by (intro keeps_intros steps)
  moreover have "keeps ?I (fail_activation H S e source i)" for e i
    unfolding fail_activation_def by (intro keeps_intros steps rollback calculation)
  ultimately show ?thesis
    unfolding recover_staged_def by (intro keeps_intros steps)
qed

section \<open>The whole recovery\<close>

text \<open>The adapter holds its handle beside \<open>hs\<close>, or is closed.\<close>

definition adapter_holds :: "('w \<Rightarrow> sqlite_handle set) \<Rightarrow> sqlite_handle set \<Rightarrow> sqlite_adapter \<Rightarrow> 'w \<Rightarrow> bool" where
  "adapter_holds handles hs a w \<longleftrightarrow>
     (if adp_database a = 0 then handles w = hs else one_more handles hs (adp_database a) w)"

lemma has_handles_adapter:
  "has_handles handles hs d s \<longleftrightarrow>
     adp_database (rec_adapter s) = d \<and> adapter_holds handles hs (rec_adapter s) (rec_world s)"
  by (auto simp: has_handles_def adapter_holds_def)

lemma adapter_holds_world: "handles w' = handles w \<Longrightarrow> adapter_holds handles hs a w' = adapter_holds handles hs a w"
  using one_more_world [of handles w' w] by (simp add: adapter_holds_def)

lemma recover_handles:
  fixes H :: "'w host_api"
  assumes laws: "maintenance_laws H S handles" and holds: "adapter_holds handles hs a w"
    and run: "recover H S J a options w = Some ((q, a'), w')"
  shows "adapter_holds handles hs a' w' \<and> (\<not> isl q \<longrightarrow> adp_database a' \<noteq> 0) \<and> adp_path a' = adp_path a"
proof (cases "adp_path a = memory_path")
  case True
  with run holds show ?thesis by (auto simp: recover_def)
next
  case False
  note files = maintenance_lawsD(4) [OF laws] and host = maintenance_lawsD(5) [OF laws]
  let ?prepare = "io_bind (inspect_original H a (adp_path a) (preserve_original_at options)) (\<lambda>md.
       io_bind (stage_create H (adp_path a) md) (\<lambda>st. io_return (md, st)))"
  have prepare: "keeps (\<lambda>w. handles w = hs') ?prepare" for hs'
    by (intro keeps_intros keeps_stage_create [OF files] stage_keeps host)
  obtain r w1 where p: "?prepare w = Some (r, w1)"
    using run False by (cases "?prepare w") (auto simp: recover_def Let_def)
  have h1: "handles w1 = handles w" using keepsD [OF prepare refl p] .
  show ?thesis
  proof (cases r)
    case (Inl e)
    with run p False holds adapter_holds_world [of handles w1 w hs a] h1 show ?thesis by (auto simp: recover_def Let_def)
  next
    case (Inr x)
    obtain md st where x: "x = (md, st)" by (cases x)
    let ?s = "\<lparr>rec_world = w1, rec_adapter = a, rec_stage = st, rec_moved = []\<rparr>"
    let ?run = "recover_staged H S J md (adp_path a) (preserve_original_at options) ?s"
    obtain t s where staged: "?run = Some (t, s)"
      using run p Inr x False by (cases ?run) (auto simp: recover_def Let_def)
    obtain v w2 where dropped: "(stage_drop H (rec_stage s) :: ('w, dactyl_error, unit) io) (rec_world s) = Some (v, w2)"
      using run p Inr x False staged
      by (cases "(stage_drop H (rec_stage s) :: ('w, dactyl_error, unit) io) (rec_world s)") (auto simp: recover_def Let_def)
    have res: "q = t" "a' = rec_adapter s" "w' = w2"
      using run p Inr x False staged dropped by (auto simp: recover_def Let_def)
    have drop: "keeps (\<lambda>w. handles w = hs') (stage_drop H (rec_stage s) :: ('w, dactyl_error, unit) io)" for hs'
      by (rule keeps_stage_drop [OF files])
    have h2: "handles w2 = handles (rec_world s)" using keepsD [OF drop refl dropped] .
    have "has_handles handles hs (adp_database a) ?s"
      using holds adapter_holds_world [of handles w1 w hs a, OF h1] by (simp add: has_handles_adapter)
    note ended = triple_ok [OF recover_staged_handles [OF laws] this]
      triple_err [OF recover_staged_handles [OF laws] this]
    have "some_handles handles hs s \<and> (\<not> isl t \<longrightarrow> open_handle handles hs s)"
      using staged ended(2) by (cases t) (auto intro: open_handle_some dest!: ended(1))
    moreover have "adp_path (rec_adapter s) = adp_path a"
      using keepsD [OF keeps_adapter_path _ staged] by simp
    ultimately show ?thesis
      using res adapter_holds_world [of handles w2 "rec_world s", OF h2]
      by (auto simp: some_handles_def open_handle_def has_handles_adapter)
  qed
qed

lemma has_other_keeps:
  assumes "stat_keeps_handles H handles" and "has_other_connection H path s = Some (r, s1)"
  shows "handles (proc_world s1) = handles (proc_world s)" "proc_registry s1 = proc_registry s"
    "proc_poisoned s1 = proc_poisoned s"
proof -
  from assms(2) obtain key w where k: "path_key H path (proc_world s) = Some (key :: dactyl_error + string option, w)"
    and s1: "s1 = s\<lparr>proc_world := w\<rparr>"
    by (auto simp: has_other_connection_def io_iffs on_world_Some_iff split: option.splits if_splits)
  have "keeps (\<lambda>w. handles w = hs) (path_key H path :: ('a, dactyl_error, string option) io)" for hs
    using assms(1) by (simp add: stat_keeps_handles_def keeps_path_key)
  from keepsD [OF this refl k] s1
  show "handles (proc_world s1) = handles (proc_world s)" "proc_registry s1 = proc_registry s"
    "proc_poisoned s1 = proc_poisoned s" by simp_all
qed

lemma maintenance_stat: "maintenance_laws H S handles \<Longrightarrow> stat_keeps_handles H handles"
  by (simp add: stat_keeps_handles_def maintenance_lawsD(5))

lemma sqlite_recover_handles:
  assumes laws: "maintenance_laws H S handles" and holds: "adapter_holds handles hs a (proc_world s)"
    and run: "sqlite_recover secure H S J a options s = Some ((q, a'), s')"
  shows "adapter_holds handles hs a' (proc_world s') \<and> (\<not> isl q \<longrightarrow> adp_database a' \<noteq> 0) \<and> adp_path a' = adp_path a"
    and "proc_registry s' = proc_registry s" and "proc_poisoned s' = proc_poisoned s"
proof -
  have "(adapter_holds handles hs a' (proc_world s') \<and> (\<not> isl q \<longrightarrow> adp_database a' \<noteq> 0) \<and> adp_path a' = adp_path a) \<and>
     proc_registry s' = proc_registry s \<and> proc_poisoned s' = proc_poisoned s"
  proof (cases "open_access_mode (adp_options a) = ReadOnly")
    case True
    with run holds show ?thesis by (auto simp: sqlite_recover_def)
  next
    case False
    then obtain o1 s1 where o: "has_other_connection H (adp_path a) s = Some (o1, s1)"
      using run by (cases "has_other_connection H (adp_path a) s") (auto simp: sqlite_recover_def)
    note k = has_other_keeps [OF maintenance_stat [OF laws] o]
    have h1: "adapter_holds handles hs a (proc_world s1)"
      using holds adapter_holds_world [of handles, OF k(1)] by simp
    show ?thesis
    proof (cases "\<exists>w. recover H S J a options (proc_world s1) = Some ((q, a'), w) \<and> s' = s1\<lparr>proc_world := w\<rparr>")
      case True
      then obtain w where "recover H S J a options (proc_world s1) = Some ((q, a'), w)" "s' = s1\<lparr>proc_world := w\<rparr>"
        by blast
      with recover_handles [OF laws h1 this(1)] k show ?thesis by simp
    next
      case other: False
      then have "isl q" "a' = a" "s' = s1"
        using run o False
        by (auto simp: sqlite_recover_def recover_database_def split: sum.splits option.splits if_splits)
      with h1 k show ?thesis by simp
    qed
  qed
  then show "adapter_holds handles hs a' (proc_world s') \<and> (\<not> isl q \<longrightarrow> adp_database a' \<noteq> 0) \<and> adp_path a' = adp_path a"
    "proc_registry s' = proc_registry s" "proc_poisoned s' = proc_poisoned s" by simp_all
qed

section \<open>The mini host\<close>

lemma mini_host_maintenance: "maintenance_laws mini_host_api mini_host_sqlite mh_account"
proof -
  have "mh_handles (mh_move a b i w) = mh_handles w" for a b i and w :: "'a mini_host_scheme"
    by (simp add: mh_move_def mh_remove_def)
  then have "quiet_files (\<lambda>w :: 'a mini_host_scheme. mh_account w = hs) mini_host_api" for hs
    unfolding quiet_files_def
    by (intro conjI mini_host_keeps_handles allI)
      (simp_all add: call_keeps_def mini_host_api_def mh_rename_def mh_renameat2_def mh_remove_file_def mh_remove_def
        split: option.split)
  then show ?thesis
    by (simp add: maintenance_laws_def mini_host_handle_laws mini_host_statement_laws mini_host_backup_laws)
qed

section \<open>Properties\<close>

text \<open>
  C9: maintenance leaks no SQLite handle: a backup, successful or not, leaves exactly the open
  databases, statements and backups it found; a recovery leaves the adapter closed or with one
  database of its own, which is open when the recovery succeeded, and no other handle than those
  it found. (At the start nothing is in progress on the adapter's database.)
\<close>

theorem maintenance_leaks_no_handle:
  assumes "maintenance_laws H S handles" and "adapter_holds handles hs a (proc_world s)"
  shows "(\<forall>destination r w. sqlite_backup H S J a destination (proc_world s) = Some (r, w) \<longrightarrow>
       handles w = handles (proc_world s)) \<and>
     (\<forall>secure options q a' s'. sqlite_recover secure H S J a options s = Some ((q, a'), s') \<longrightarrow>
       adapter_holds handles hs a' (proc_world s') \<and> (\<not> isl q \<longrightarrow> adp_database a' \<noteq> 0))"
  using sqlite_recover_handles(1) [OF assms] keepsD [OF backup_handles [OF assms(1)] refl] by blast

text \<open>A recovery beside another open database: the adapter's handle 9 is replaced by a new one.\<close>

definition two_databases :: "mini_host process" where
  "two_databases = \<lparr>proc_world = mh_start\<lparr>mh_handles := [Database 9, Database 4]\<rparr>,
     proc_registry = registry_add (components ''/d/a.db'') (\<lambda>_. None), proc_poisoned = False\<rparr>"

theorem maintenance_leaks_no_handle_witness:
  "\<exists>res a' s'. sqlite_recover True mini_host_api mini_host_sqlite ref_json recovering_adapter archive_options
       two_databases = Some ((Inr res, a'), s') \<and> adp_database a' \<noteq> 0 \<and>
     mh_account (proc_world s') = {Database (adp_database a'), Database 4}"
proof -
  let ?r = "sqlite_recover True mini_host_api mini_host_sqlite ref_json recovering_adapter archive_options two_databases"
  have "case ?r of Some ((Inr res, a'), s') \<Rightarrow> True | _ \<Rightarrow> False" by code_simp
  then obtain res a' s' where r: "?r = Some ((Inr res, a'), s')"
    by (auto split: option.split_asm sum.split_asm)
  have "adapter_holds mh_account {Database 4} recovering_adapter (proc_world two_databases)"
    by (auto simp: adapter_holds_def one_more_def idle_def recovering_adapter_def two_databases_def)
  from maintenance_leaks_no_handle [OF mini_host_maintenance this, THEN conjunct2] r
  have "adapter_holds mh_account {Database 4} a' (proc_world s') \<and> adp_database a' \<noteq> 0" by fastforce
  with r show ?thesis by (auto simp: adapter_holds_def one_more_def)
qed

end
