(* ===== verification/Sqlite_Total.thy ===== *)
theory Sqlite_Total
  imports Recovery_Rebuild Mini_Host
begin

text \<open>
  The loops over SQLite rows end: every read, write, batch and catalog call returns when its
  statement has a finite result without a zero-length BLOB, and so does a rebuild, whose two
  connections do not disturb each other.
\<close>

section \<open>What is assumed\<close>

text \<open>
  The texts the library itself prepares to look at a database, and those it copies tables with.
\<close>

definition catalog_texts :: "string set" where
  "catalog_texts =
     (\<lambda>name. ''PRAGMA '' @ name) ` {''integrity_check'', ''journal_mode'', ''user_version'', ''application_id''} \<union>
     (\<Union>name. {''PRAGMA table_info('' @ quote_identifier name @ '')'', ''PRAGMA index_list('' @ quote_identifier name @ '')'',
        ''PRAGMA index_info('' @ quote_identifier name @ '')'',
        ''PRAGMA foreign_key_list('' @ quote_identifier name @ '')'', ''SELECT COUNT(*) FROM '' @ quote_identifier name}) \<union>
     {''SELECT name FROM sqlite_schema WHERE type = '' @ sql_quoted ''table'' @ '' AND name NOT LIKE '' @
        sql_quoted ''sqlite_%'' @ '' ORDER BY name'', schema_objects_sql,
      ''SELECT name FROM sqlite_schema WHERE type = '' @ sql_quoted ''table'' @ '' AND name = '' @
        sql_quoted ''sqlite_sequence''}"

definition copied_texts :: "string set" where
  "copied_texts = (\<Union>columns table. {select_sql columns table, insert_sql columns table})"

text \<open>
  \<open>T\<close> are statements with a finite result that holds no zero-length BLOB, those on the catalog
  among them, and \<open>left st w\<close> bounds the rows that a statement prepared from one still has. A step
  that gives a row uses one up, binding keeps the statement, and no value of a row comes as a null
  pointer of length 0. Nothing is assumed of statements outside \<open>T\<close>, such as an endless
  recursive query.
\<close>

definition result_laws :: "'w sqlite_api \<Rightarrow> string set \<Rightarrow> (nat \<Rightarrow> 'w \<Rightarrow> nat option) \<Rightarrow> bool" where
  "result_laws S T left \<longleftrightarrow> catalog_texts \<subseteq> T \<and>
     (\<forall>db sql w st w1. sql \<in> T \<longrightarrow> prepare_v2 S db sql w = ((SQLITE_OK, st), w1) \<longrightarrow> st \<noteq> 0 \<longrightarrow> left st w1 \<noteq> None) \<and>
     (\<forall>st i p w code w1. left st w \<noteq> None \<longrightarrow> bind_one S st i p w = Inr (code, w1) \<longrightarrow> left st w1 \<noteq> None) \<and>
     (\<forall>st w n w1. left st w = Some n \<longrightarrow> step S st w = (SQLITE_ROW, w1) \<longrightarrow> (\<exists>m < n. left st w1 = Some m)) \<and>
     (\<forall>st i w. left st w \<noteq> None \<longrightarrow> column_type S st i w = SQLITE_TEXT \<longrightarrow> column_text S st i w = None \<longrightarrow>
        column_bytes S st i w \<noteq> 0) \<and>
     (\<forall>st i w. left st w \<noteq> None \<longrightarrow> column_type S st i w = SQLITE_BLOB \<longrightarrow> column_blob S st i w = None \<longrightarrow>
        column_bytes S st i w \<noteq> 0)"

text \<open>
  The connections are isolated: a statement that is not finalized keeps its rows while a
  statement of another connection is prepared, bound, stepped and finalized.
\<close>

definition isolation_laws ::
  "'w sqlite_api \<Rightarrow> ('w \<Rightarrow> sqlite_handle set) \<Rightarrow> (nat \<Rightarrow> 'w \<Rightarrow> nat option) \<Rightarrow> bool" where
  "isolation_laws S handles left \<longleftrightarrow>
     (\<forall>st db other w. Statement st db \<in> handles w \<longrightarrow> other \<noteq> db \<longrightarrow>
        (\<forall>sql. left st (snd (prepare_v2 S other sql w)) = left st w) \<and>
        (\<forall>st'. st' \<noteq> st \<longrightarrow> Statement st' other \<in> handles w \<longrightarrow> left st (snd (step S st' w)) = left st w \<and>
           left st (snd (finalize S st' w)) = left st w \<and>
           (\<forall>i p code w1. bind_one S st' i p w = Inr (code, w1) \<longrightarrow> left st w1 = left st w)))"

lemma result_lawsD:
  assumes "result_laws S T left"
  shows "catalog_texts \<subseteq> T"
    and "sql \<in> T \<Longrightarrow> prepare_v2 S db sql w = ((SQLITE_OK, st), w1) \<Longrightarrow> st \<noteq> 0 \<Longrightarrow> left st w1 \<noteq> None"
    and "left st w \<noteq> None \<Longrightarrow> bind_one S st i p w = Inr (code, w1) \<Longrightarrow> left st w1 \<noteq> None"
    and "left st w = Some n \<Longrightarrow> step S st w = (SQLITE_ROW, w1) \<Longrightarrow> \<exists>m < n. left st w1 = Some m"
    and "left st w \<noteq> None \<Longrightarrow> column_type S st i w = SQLITE_TEXT \<Longrightarrow> column_text S st i w = None \<Longrightarrow>
      column_bytes S st i w \<noteq> 0"
    and "left st w \<noteq> None \<Longrightarrow> column_type S st i w = SQLITE_BLOB \<Longrightarrow> column_blob S st i w = None \<Longrightarrow>
      column_bytes S st i w \<noteq> 0"
proof -
  note laws = assms [unfolded result_laws_def]
  show "catalog_texts \<subseteq> T" using laws by simp
  show "sql \<in> T \<Longrightarrow> prepare_v2 S db sql w = ((SQLITE_OK, st), w1) \<Longrightarrow> st \<noteq> 0 \<Longrightarrow> left st w1 \<noteq> None"
    using laws by metis
  show "left st w \<noteq> None \<Longrightarrow> bind_one S st i p w = Inr (code, w1) \<Longrightarrow> left st w1 \<noteq> None" using laws by metis
  show "left st w = Some n \<Longrightarrow> step S st w = (SQLITE_ROW, w1) \<Longrightarrow> \<exists>m < n. left st w1 = Some m" using laws by metis
  show "left st w \<noteq> None \<Longrightarrow> column_type S st i w = SQLITE_TEXT \<Longrightarrow> column_text S st i w = None \<Longrightarrow>
      column_bytes S st i w \<noteq> 0" using laws by metis
  show "left st w \<noteq> None \<Longrightarrow> column_type S st i w = SQLITE_BLOB \<Longrightarrow> column_blob S st i w = None \<Longrightarrow>
      column_bytes S st i w \<noteq> 0" using laws by metis
qed

section \<open>Columns\<close>

lemma column_value_defined:
  assumes "result_laws S T left" and "left st w \<noteq> None"
  shows "column_value S J st w i \<noteq> None"
  using result_lawsD(5,6) [OF assms]
  by (auto simp: column_value_def Let_def raw_slice_def)

lemma partial_traverse_defined: "(\<And>x. x \<in> set xs \<Longrightarrow> f x \<noteq> None) \<Longrightarrow> partial_traverse f xs \<noteq> None"
  by (induction xs) (auto split: option.splits sum.splits)

lemma copied_parameter_defined:
  assumes "result_laws S T left" and "left st w \<noteq> None"
  shows "copied_parameter S J st w i \<noteq> None"
  using column_value_defined [OF assms, of J "int i"]
  by (auto simp: copied_parameter_def split: option.splits sum.splits)

section \<open>The loops\<close>

lemma step_to_done_returns:
  assumes laws: "result_laws S T left"
  shows "left st w = Some k \<Longrightarrow> step_to_done S db st w \<noteq> None"
proof (induction k arbitrary: w rule: less_induct)
  case (less k)
  obtain code w1 where st: "step S st w = (code, w1)" by (cases "step S st w")
  show ?case
  proof (cases "code = SQLITE_ROW")
    case True
    with less result_lawsD(4) [OF laws, of st w k w1] st show ?thesis
      by (auto simp: step_to_done.simps [of S db st w] simp del: not_None_eq)
  next
    case False
    with st show ?thesis by (simp add: step_to_done.simps [of S db st w])
  qed
qed

lemma fetch_rows_returns:
  assumes laws: "result_laws S T left"
  shows "left st w = Some k \<Longrightarrow> fetch_rows S J db st cols n acc w \<noteq> None"
proof (induction k arbitrary: w acc rule: less_induct)
  case (less k)
  obtain code w1 where st: "step S st w = (code, w1)" by (cases "step S st w")
  show ?case
  proof (cases "code = SQLITE_ROW")
    case True
    with result_lawsD(4) [OF laws less.prems] st obtain m where m: "m < k" "left st w1 = Some m" by auto
    then obtain q where q: "partial_traverse (column_value S J st w1) (column_indices n) = Some q"
      using partial_traverse_defined [of "column_indices n" "column_value S J st w1"]
        column_value_defined [OF laws, of st w1] by auto
    with True less.IH [OF m] st show ?thesis
      by (cases q) (simp_all add: fetch_rows.simps [of S J db st cols n acc w] del: not_None_eq)
  next
    case False
    with st show ?thesis by (simp add: fetch_rows.simps [of S J db st cols n acc w])
  qed
qed

lemma total_prepare [total_intros]: "total (prepare S db sql)"
  by (auto simp: total_def prepare_def split: prod.splits)

lemma total_bind_all [total_intros]: "total (bind_all S db st params)"
proof -
  have "bind_from S db st i params w \<noteq> None" for i w
    by (induction params arbitrary: i w) (auto split: sum.splits)
  then show ?thesis by (simp add: total_def bind_all_def)
qed

lemma bind_all_left:
  assumes laws: "result_laws S T left" and "left st w \<noteq> None" and "bind_all S db st params w = Some (r, w1)"
  shows "left st w1 \<noteq> None"
proof -
  have "bind_from S db st i params w = Some (r, w1) \<Longrightarrow> left st w \<noteq> None \<Longrightarrow> left st w1 \<noteq> None" for i
  proof (induction params arbitrary: i w)
    case (Cons p ps)
    from Cons.prems(1) consider "w1 = w" | code w2 where "bind_one S st i p w = Inr (code, w2)"
      "w1 = w2 \<or> bind_from S db st (i + 1) ps w2 = Some (r, w1)"
      by (auto split: if_splits sum.splits)
    then show ?case
      using Cons.prems(2) Cons.IH result_lawsD(3) [OF laws] by cases blast+
  qed simp
  with assms(2,3) show ?thesis by (simp add: bind_all_def)
qed

lemma total_exec_sql [total_intros]: "total (exec_sql S db sql)"
  by (auto simp: total_def exec_sql_def split: prod.splits)

text \<open>A body that returns on a statement with rows left, run on one that was just prepared.\<close>

lemma with_statement_returns:
  assumes "\<And>st w1. prepare_v2 S db sql w = ((SQLITE_OK, st), w1) \<Longrightarrow> st \<noteq> 0 \<Longrightarrow> body st w1 \<noteq> None"
  shows "with_statement S db sql body w \<noteq> None"
proof -
  obtain q w1 where p: "prepare S db sql w = Some (q, w1)"
    using total_at [OF total_prepare [of S db sql], of w] by auto
  show ?thesis
  proof (cases q)
    case (Inl e)
    with p show ?thesis by (simp add: with_statement_def io_bind_def)
  next
    case (Inr st)
    with p have "prepare_v2 S db sql w = ((SQLITE_OK, st), w1)" "st \<noteq> 0"
      by (auto simp: prepare_def split: prod.splits if_splits)
    from assms [OF this] p Inr show ?thesis
      by (auto simp: with_statement_def io_bind_def split: option.splits)
  qed
qed

lemma total_queries:
  assumes laws: "result_laws S T left" and sql: "sql \<in> T"
  shows "total (query_rows S J db sql params)" and "total (execute_write S db sql params)"
proof -
  have bound: "io_bind (bind_all S db st params) (\<lambda>_. m) w \<noteq> None"
    if "left st w \<noteq> None" and "\<And>w. left st w \<noteq> None \<Longrightarrow> m w \<noteq> None"
    for st w and m :: "('a, dactyl_error, 'z) io"
  proof -
    obtain r w1 where b: "bind_all S db st params w = Some (r, w1)"
      using total_at [OF total_bind_all [of S db st params], of w] by auto
    from that(2) [OF bind_all_left [OF laws that(1) b]] b show ?thesis
      by (cases r) (simp_all add: io_bind_def del: not_None_eq)
  qed
  show "total (query_rows S J db sql params)"
    unfolding query_rows_def
  proof (intro totalI with_statement_returns bound)
    fix w st w1
    assume "prepare_v2 S db sql w = ((SQLITE_OK, st), w1)" "st \<noteq> 0"
    then show "left st w1 \<noteq> None" by (rule result_lawsD(2) [OF laws sql])
  next
    fix st w
    assume "left st w \<noteq> None"
    show "(let n = column_count S st w in
        case traverse (stmt_column_name S st w) (column_indices n) of
          Inl e \<Rightarrow> Some (Inl e, w)
        | Inr cols \<Rightarrow> fetch_rows S J db st cols n [] w) \<noteq> None"
    proof -
      from \<open>left st w \<noteq> None\<close> obtain k where "left st w = Some k" by blast
      show ?thesis
        by (simp add: Let_def fetch_rows_returns [OF laws \<open>left st w = Some k\<close>] del: not_None_eq split: sum.split)
    qed
  qed
  show "total (execute_write S db sql params)"
    unfolding execute_write_def
  proof (intro totalI with_statement_returns bound)
    fix w st w1
    assume "prepare_v2 S db sql w = ((SQLITE_OK, st), w1)" "st \<noteq> 0"
    then show "left st w1 \<noteq> None" by (rule result_lawsD(2) [OF laws sql])
  next
    fix st w
    assume "left st w \<noteq> None"
    then obtain k where "left st w = Some k" by blast
    from step_to_done_returns [OF laws this, of db]
    show "io_bind (step_to_done S db st) (\<lambda>_ w. Some (Inr \<lparr>affected_rows = u64_or_default (changes64 S db w),
        generated_keys = write_keys S db sql w\<rparr>, w)) w \<noteq> None"
      by (auto simp: io_bind_def split: option.splits sum.splits)
  qed
qed

section \<open>The copy of a table\<close>

text \<open>The statement that is copied from, while a row is inserted through another connection.\<close>

definition copying_from :: "('w \<Rightarrow> sqlite_handle set) \<Rightarrow> (nat \<Rightarrow> 'w \<Rightarrow> nat option) \<Rightarrow> nat \<Rightarrow> nat \<Rightarrow> nat \<Rightarrow> 'w \<Rightarrow> bool" where
  "copying_from handles left source st n w \<longleftrightarrow> Statement st source \<in> handles w \<and> left st w = Some n"

definition inserting ::
  "('w \<Rightarrow> sqlite_handle set) \<Rightarrow> (nat \<Rightarrow> 'w \<Rightarrow> nat option) \<Rightarrow> nat \<Rightarrow> nat \<Rightarrow> nat \<Rightarrow> nat \<Rightarrow> nat \<Rightarrow> 'w \<Rightarrow> bool" where
  "inserting handles left source st n dest st' w \<longleftrightarrow>
     Statement st' dest \<in> handles w \<and> st' \<noteq> st \<and> copying_from handles left source st n w"

lemma copying_statement:
  assumes handles: "statement_handle_laws S handles"
    and isolation: "isolation_laws S handles left" and other: "dest \<noteq> source"
  shows "statement_laws S dest sql (copying_from handles left source st n)
     (inserting handles left source st n dest)
     (\<lambda>_. True)"
proof -
  note laws = statement_handle_lawsD [OF handles]
  have iso: "left st (snd (prepare_v2 S dest sql w)) = left st w"
    "Statement st' dest \<in> handles w \<Longrightarrow> st' \<noteq> st \<Longrightarrow> left st (snd (step S st' w)) = left st w"
    "Statement st' dest \<in> handles w \<Longrightarrow> st' \<noteq> st \<Longrightarrow> left st (snd (finalize S st' w)) = left st w"
    "Statement st' dest \<in> handles w \<Longrightarrow> st' \<noteq> st \<Longrightarrow> bind_one S st' i p w = Inr (code, w1) \<Longrightarrow> left st w1 = left st w"
    if "Statement st source \<in> handles w" for sql st' i p code w w1
    using isolation that other unfolding isolation_laws_def by blast+
  have prepared: "if code = SQLITE_OK \<and> st' \<noteq> 0
      then inserting handles left source st n dest st' w1 else True"
    if "copying_from handles left source st n w" "prepare_v2 S dest sql w = ((code, st'), w1)" for w code st' w1
    using that laws(1) [OF that(2)] iso(1) [of w sql] by (auto simp: copying_from_def inserting_def)
  have bound: "inserting handles left source st n dest st' w1"
    if "inserting handles left source st n dest st' w"
      "bind_one S st' i p w = Inr (code, w1)" for st' i p w code w1
    using that laws(3) [OF that(2)] iso(4) [OF _ _ _ that(2)] by (auto simp: copying_from_def inserting_def)
  have stepped: "inserting handles left source st n dest st' w1"
    if "inserting handles left source st n dest st' w" "step S st' w = (code, w1)"
    for st' w code w1
    using that laws(4) [of st' w] iso(2) [of w st'] by (auto simp: copying_from_def inserting_def)
  have finalized: "copying_from handles left source st n (snd (finalize S st' w))"
    if "inserting handles left source st n dest st' w" for st' w
    using that laws(2) [of st' w] iso(3) [of w st'] by (auto simp: copying_from_def inserting_def)
  have weak: "Q w1 \<Longrightarrow> if c then Q w1 else True" for c and Q :: "'a \<Rightarrow> bool" and w1 by simp
  show ?thesis
    unfolding statement_laws_def bind_keeps_def step_keeps_def
    by (intro conjI allI impI TrueI; (elim finalized | rule weak, erule (1) bound | rule weak, erule (1) stepped
        | erule (1) prepared))
qed

lemma copy_rows_returns:
  assumes laws: "result_laws S T left" and sql: "sql \<in> T"
    and handles: "statement_handle_laws S handles" "isolation_laws S handles left" and other: "dest \<noteq> source"
  shows "copying_from handles left source st k w \<Longrightarrow> copy_rows S J source dest st sql n w \<noteq> None"
proof (induction k arbitrary: w rule: less_induct)
  case (less k)
  then have left: "left st w = Some k" and open_st: "Statement st source \<in> handles w"
    by (simp_all add: copying_from_def)
  obtain code w1 where st: "step S st w = (code, w1)" by (cases "step S st w")
  show ?case
  proof (cases "code = SQLITE_ROW")
    case False
    with st show ?thesis by (simp add: copy_rows.simps [of S J source dest st sql n w])
  next
    case True
    with result_lawsD(4) [OF laws left] st obtain m where m: "m < k" "left st w1 = Some m" by auto
    obtain q where q: "partial_traverse (copied_parameter S J st w1) [0..<n] = Some q"
      using partial_traverse_defined [of "[0..<n]" "copied_parameter S J st w1"]
        copied_parameter_defined [OF laws, of st w1] m by auto
    have w1: "copying_from handles left source st m w1"
      using statement_handle_lawsD(4) [OF handles(1), of st w] st open_st m by (simp add: copying_from_def)
    show ?thesis
    proof (cases q)
      case (Inl e)
      with True st q show ?thesis by (simp add: copy_rows.simps [of S J source dest st sql n w])
    next
      case (Inr ps)
      obtain r w2 where r: "execute_write S dest sql ps w1 = Some (r, w2)"
        using total_at [OF total_queries(2) [OF laws sql, of dest ps], of w1] by auto
      have "copying_from handles left source st m w2" if "r = Inr x" for x
        using triple_ok [OF execute_write_triple [OF copying_statement [OF handles other]] w1] r that by simp
      with True st q Inr r less.IH [OF m(1), of w2] show ?thesis
        by (cases r) (simp_all add: copy_rows.simps [of S J source dest st sql n w] del: not_None_eq)
    qed
  qed
qed

lemma total_copied_statement:
  assumes laws: "result_laws S T left" and sql: "sql \<in> T" "sql' \<in> T"
    and handles: "statement_handle_laws S handles" "isolation_laws S handles left" and other: "dest \<noteq> source"
  shows "total (with_statement S source sql (\<lambda>st. copy_rows S J source dest st sql' n))"
proof (intro totalI with_statement_returns)
  fix w st w1
  assume p: "prepare_v2 S source sql w = ((SQLITE_OK, st), w1)" "st \<noteq> 0"
  with result_lawsD(2) [OF laws sql(1) p] statement_handle_lawsD(1) [OF handles(1) p(1)]
  obtain k where "copying_from handles left source st k w1" by (auto simp: copying_from_def)
  then show "copy_rows S J source dest st sql' n w1 \<noteq> None"
    by (rule copy_rows_returns [OF laws sql(2) handles other])
qed

section \<open>Operations\<close>

lemma total_catalog:
  assumes "result_laws S T left"
  shows "name \<in> {''journal_mode'', ''user_version'', ''application_id''} \<Longrightarrow> total (pragma_text S J db name)"
    and "name \<in> {''journal_mode'', ''user_version'', ''application_id''} \<Longrightarrow> total (pragma_integer S J db name)"
    and "total (verify_integrity S J db)" and "total (inspect_schema S J parse db)"
    and "total (schema_objects S J db)" and "total (has_sqlite_sequence S J db)" and "total (table_columns_of S J db table)"
proof -
  have q: "total (query_rows S J db sql params)" if "sql \<in> catalog_texts" for sql params
    using total_queries(1) [OF assms] result_lawsD(1) [OF assms] that by blast
  have texts: "''PRAGMA '' @ name \<in> catalog_texts" if "name \<in> {''journal_mode'', ''user_version'', ''application_id''}" for name
    using that by (auto simp: catalog_texts_def)
  have check: "''PRAGMA integrity_check'' \<in> catalog_texts" by (simp add: catalog_texts_def)
  have named: "''PRAGMA table_info('' @ quote_identifier name @ '')'' \<in> catalog_texts"
    "''PRAGMA index_list('' @ quote_identifier name @ '')'' \<in> catalog_texts"
    "''PRAGMA index_info('' @ quote_identifier name @ '')'' \<in> catalog_texts"
    "''PRAGMA foreign_key_list('' @ quote_identifier name @ '')'' \<in> catalog_texts"
    "''SELECT COUNT(*) FROM '' @ quote_identifier name \<in> catalog_texts" for name
    by (auto simp: catalog_texts_def)
  have whole: "''SELECT name FROM sqlite_schema WHERE type = '' @ sql_quoted ''table'' @ '' AND name NOT LIKE '' @
      sql_quoted ''sqlite_%'' @ '' ORDER BY name'' \<in> catalog_texts" "schema_objects_sql \<in> catalog_texts"
    "''SELECT name FROM sqlite_schema WHERE type = '' @ sql_quoted ''table'' @ '' AND name = '' @
      sql_quoted ''sqlite_sequence'' \<in> catalog_texts"
    unfolding catalog_texts_def by blast+
  show t: "total (pragma_text S J db name)" if "name \<in> {''journal_mode'', ''user_version'', ''application_id''}" for name
    unfolding pragma_text_def by (intro total_intros q texts that)
  show i: "total (pragma_integer S J db name)" if "name \<in> {''journal_mode'', ''user_version'', ''application_id''}" for name
    unfolding pragma_integer_def by (intro total_intros q texts that)
  show "total (verify_integrity S J db)"
    unfolding verify_integrity_def by (intro total_intros q t i check) simp_all
  show "total (inspect_schema S J parse db)"
    unfolding inspect_schema_def inspect_table_def indexes_for_table_def index_of_row_def columns_for_table_def
      foreign_keys_for_table_def
    by (intro total_intros q named whole)
  show "total (schema_objects S J db)" "total (has_sqlite_sequence S J db)" "total (table_columns_of S J db table)"
    unfolding schema_objects_def has_sqlite_sequence_def table_columns_of_def by (intro total_intros q named whole)+
qed

lemma total_rebuild_into:
  assumes laws: "result_laws S T left" and copied: "copied_texts \<subseteq> T"
    and handles: "statement_handle_laws S handles" "isolation_laws S handles left" and other: "dest \<noteq> source"
  shows "total (rebuild_into S J source dest lock)"
proof -
  note c = total_catalog [OF laws]
  have run: "total (run_sql S db operation sql)" for db operation sql
    unfolding run_sql_def by (intro total_intros)
  have conf: "total (configure_connection S db options)" for db options
    by (auto simp: total_def configure_connection_def exec_sql_def io_map_err_def split: prod.splits)
  have "select_sql columns table \<in> T" "insert_sql columns table \<in> T" for columns table
    using copied by (auto simp: copied_texts_def)
  then have copy: "total (copy_table_rows S J source dest table)" for table
    unfolding copy_table_rows_def by (intro total_intros c total_copied_statement [OF laws _ _ handles other])
  have create: "total (create_table_of S dest object)" for object
    unfolding create_table_of_def by (intro total_intros run)
  show ?thesis
    unfolding rebuild_into_def by (intro total_intros run conf copy create c) simp_all
qed

lemma total_traverse_set: "(\<And>x. x \<in> set xs \<Longrightarrow> total (f x)) \<Longrightarrow> total (io_traverse f xs)"
  by (induction xs) (auto intro!: total_intros)

lemma total_operations:
  assumes "result_laws S T left" and "sql \<in> T"
  shows "total (sqlite_read S J a sql params)" and "total (sqlite_write S a sql params)"
  unfolding sqlite_read_def sqlite_write_def by (intro total_intros total_queries [OF assms])+

lemma total_atomic:
  assumes laws: "result_laws S T left" and texts: "\<forall>op \<in> set ops. op_sql op \<in> T"
  shows "total (sqlite_atomic S J a ops)"
proof -
  have "total (execute_operation S J db op)" if "op \<in> set ops" for db op
  proof -
    note q = total_queries [OF laws texts [rule_format, OF that]]
    show ?thesis
      unfolding execute_operation_def Let_def
      by (cases "op_kind op"; simp only: operation_kind.case; intro total_intros q)
  qed
  then show ?thesis
    unfolding sqlite_atomic_def by (intro total_intros total_traverse_set)
qed

lemma total_inspections:
  assumes "result_laws S T left"
  shows "total (sqlite_inspect_schema S J parse a)" "total (sqlite_verify_integrity S J a)"
  unfolding sqlite_inspect_schema_def sqlite_verify_integrity_def by (intro total_intros total_catalog [OF assms])+

section \<open>The mini host\<close>

text \<open>The mini host keeps the laws for every text: a pragma has one row, any other statement none.\<close>

definition mh_left :: "nat \<Rightarrow> 'a mini_host_scheme \<Rightarrow> nat option" where
  "mh_left st w = map_option (\<lambda>(sql, k). 1 - k) (map_of (mh_stmts w) st)"

lemma mini_host_step: "step mini_host_sqlite = mh_step"
  by (simp add: mini_host_sqlite_def)

lemma mini_host_bind: "bind_one mini_host_sqlite st i p w = Inr (code, w1) \<Longrightarrow> w1 = w"
  by (cases p) (auto simp: bind_one_def mini_host_sqlite_def split: if_splits)

lemma mini_host_result_laws: "result_laws mini_host_sqlite UNIV mh_left"
proof -
  have own: "\<exists>m < n. mh_left st w1 = Some m" if "mh_left st w = Some n" "mh_step st w = (SQLITE_ROW, w1)" for st w n w1
    using that by (auto simp: mh_step_def mh_left_def split: option.splits if_splits)
  have bind: "mh_left st w1 \<noteq> None" if "mh_left st w \<noteq> None" "bind_one mini_host_sqlite st i p w = Inr (code, w1)"
    for st i p code and w w1 :: "'a mini_host_scheme"
    using that mini_host_bind by metis
  have prep: "mh_left st w1 \<noteq> None" if "prepare_v2 mini_host_sqlite db sql w = ((SQLITE_OK, st), w1)"
    for db sql st and w w1 :: "'a mini_host_scheme"
    using that by (auto simp: mini_host_sqlite_def mh_prepare_def mh_left_def)
  have cells: "column_text mini_host_sqlite st i w \<noteq> None" "column_type mini_host_sqlite st i w \<noteq> SQLITE_BLOB"
    for st i and w :: "'a mini_host_scheme"
    by (simp_all add: mini_host_sqlite_def)
  show ?thesis
    unfolding result_laws_def mini_host_step
    by (intro conjI allI impI subset_UNIV; (erule (1) own | erule (1) bind | erule prep | use cells in metis))
qed

lemma mini_host_isolation: "isolation_laws mini_host_sqlite mh_account mh_left"
proof -
  have ne: "st \<noteq> mh_fresh w" if "Statement st db \<in> mh_account w" for st db and w :: "'a mini_host_scheme"
    using that mh_fresh_unused by blast
  have other: "mh_left st (snd (mh_step st' w)) = mh_left st w" if "st' \<noteq> st" for st st' and w :: "'a mini_host_scheme"
    using that by (auto simp: mh_step_def mh_left_def split: option.splits)
  have prep: "mh_left st (snd (prepare_v2 mini_host_sqlite db sql w)) = mh_left st w" if "st \<noteq> mh_fresh w"
    for st db sql and w :: "'a mini_host_scheme"
    using that by (simp add: mini_host_sqlite_def mh_prepare_def mh_left_def)
  have fin: "mh_left st (snd (finalize mini_host_sqlite st' w)) = mh_left st w" for st st' and w :: "'a mini_host_scheme"
    by (simp add: mini_host_sqlite_def mh_finalize_def mh_left_def)
  have bind: "mh_left st w1 = mh_left st w" if "bind_one mini_host_sqlite st' i p w = Inr (code, w1)"
    for st st' i p code and w w1 :: "'a mini_host_scheme"
    using mini_host_bind [OF that] by simp
  show ?thesis
    unfolding isolation_laws_def mini_host_step using ne by (blast intro: prep other fin bind)
qed

end
