(* ===== verification/Recovery_Total.thy ===== *)
theory Recovery_Total
  imports Handle_Accounts Sqlite_Total
begin

text \<open>
  Recovery returns, and who may recover: apart from the SQL of the snapshot, whose loops depend
  on SQLite, no step of it can fail to return; the snapshot is copied from the adapter's database
  to another one, so the copy does not feed itself; and recovery succeeds only for the one
  connection the process has on the database.
\<close>

section \<open>Calls that return\<close>

lemma total_state [total_intros]: "total (rec_gets g)" "total (rec_modify u)"
  by (simp_all add: total_def rec_gets_def rec_modify_def)

lemma total_on_rec [total_intros]: "total m \<Longrightarrow> total (on_rec m)"
  by (auto simp: total_def on_rec_def split: option.splits)

text \<open>Where a call returns from one state only.\<close>

lemma bind_returns:
  "m w \<noteq> None \<Longrightarrow> (\<And>x w1. m w = Some (Inr x, w1) \<Longrightarrow> f x w1 \<noteq> None) \<Longrightarrow> io_bind m f w \<noteq> None"
  by (auto simp: io_bind_def split: option.splits sum.splits)

lemma result_returns: "m w \<noteq> None \<Longrightarrow> io_result m w \<noteq> None"
  by (auto simp: io_result_def)

lemma bind_gets: "io_bind (rec_gets f) k s = k (f s) s"
  by (simp add: io_bind_def rec_gets_def)

lemma bind_lift: "io_bind (io_lift (Inr x)) k s = k x s" "io_bind (io_lift (Inl e)) k s = Some (Inl e, s)"
  by (simp_all add: io_bind_def io_lift_def)

section \<open>The steps of recovery\<close>

lemma total_path_key: "total (path_key H path :: ('w, 'e, string option) io)"
  unfolding path_key_def by (intro total_intros)

lemma total_checks [total_intros]:
  "total (identity_check H i p)" "total (regular H p)" "total (absent H p)" "total (absent_sidecars H p)"
  "total (reject_extended_metadata H p b)" "total (check_directory H p)" "total (move_noreplace H p q i)"
  "total (perform_file_sync H p)" "total (sync_parent H p)" "total (sync_database_files H p b)"
  "total (file_identity H p :: ('w, 'e, (nat \<times> nat) option) io)"
  unfolding identity_check_def regular_def absent_def absent_sidecars_def reject_extended_metadata_def
    check_directory_def move_noreplace_def perform_file_sync_def sync_parent_def sync_database_files_def
    file_identity_def
  by (intro total_intros)+

lemma total_stage [total_intros]:
  "total (stage_check H st)" "total (apply_mode H st md)" "total (stage_sync H st)"
  "total (stage_drop H st :: ('w, 'e, unit) io)" "total (drop_files H st :: ('w, 'e, unit) io)"
  "total (verify_staged H md source st)" "total (inspect_original H a source archive)"
  unfolding stage_check_def apply_mode_def stage_sync_def stage_drop_def drop_files_def verify_staged_def
    inspect_original_def inspect_sidecar_def
  by (intro total_intros)+

lemma total_fresh_directory [total_intros]: "total (fresh_directory H candidate attempts)"
  by (induction attempts) (auto intro!: total_intros)

lemma total_stage_create [total_intros]: "total (stage_create H source md)"
  unfolding stage_create_def stage_create_with_nonce_def stage_in_def Let_def private_file_def
    take_ownership_def stage_journal_def or_drop_def
  by (intro total_intros)

lemma total_connection [total_intros]:
  "total (open_database S p mode)" "total (configure_connection S db options)" "total (close_adapter S)"
  "total (reopen_connection H S p)"
proof -
  show o: "total (open_database S p mode)" for p mode
    by (auto simp: total_def open_database_def split: prod.splits)
  show c: "total (configure_connection S db options)" for db options
    by (auto simp: total_def configure_connection_def exec_sql_def io_map_err_def split: prod.splits)
  show a: "total (close_adapter S)"
    by (auto simp: total_def close_adapter_def split: prod.splits)
  show "total (reopen_connection H S p)"
    unfolding reopen_connection_def by (intro total_intros o c a)
qed

lemma total_move_back [total_intros]: "total (move_back H error ms)"
  by (induction ms) (auto intro!: total_intros)

lemma total_recovery [total_intros]:
  "total (preserve H source archive original)" "total (activate H source)" "total (activation H S source)"
  "total (quarantine H source)" "total (rollback_original H S error source original)"
  "total (fail_activation H S error source original)"
  unfolding preserve_def move_original_def move_sidecar_def activate_def activation_def quarantine_def
    rollback_original_def fail_activation_def
  by (intro total_intros)+

text \<open>The rebuild copies to a database that was opened beside the source, hence to another one.\<close>

lemma rebuild_snapshot_returns:
  assumes laws: "result_laws S T left" and copied: "copied_texts \<subseteq> T"
    and handles: "handle_laws S handles" "statement_handle_laws S handles" "isolation_laws S handles left"
    and source: "Database source \<in> handles w"
  shows "rebuild_snapshot S J source temporary lock w \<noteq> None"
proof -
  have run: "total (run_sql S db operation sql)" for db operation sql
    unfolding run_sql_def by (intro total_intros)
  have begun: "handles w1 = handles w" if "run_sql S source operation sql w = Some (r, w1)" for operation sql r w1
    using keepsD [OF keeps_run_sql [OF handles_statements [OF handles(1,2)]] refl that] .
  have d: "total (close_or_drop S dest)" for dest
    by (auto simp: total_def close_or_drop_def split: prod.splits sum.splits)
  have rebuild: "rebuild_database S J source temporary lock w1 \<noteq> None" if w1: "Database source \<in> handles w1" for w1
    unfolding rebuild_database_def
  proof (rule bind_returns)
    show "open_database S temporary ReadWrite w1 \<noteq> None" by (intro total_at total_intros)
    fix dest w2
    assume "open_database S temporary ReadWrite w1 = Some (Inr dest, w2)"
    from open_database_handles [OF handles(1) this] w1 have "dest \<noteq> source" by (auto simp: one_more_def)
    note into = total_rebuild_into [OF laws copied handles(2,3) this]
    show "io_bind (io_result (rebuild_into S J source dest lock)) (\<lambda>result.
        io_bind (io_result (close_or_drop S dest)) (\<lambda>close.
        case result of
          Inl error \<Rightarrow> io_fail error
        | Inr value \<Rightarrow> (case close of Inr _ \<Rightarrow> io_return value | Inl error \<Rightarrow> io_fail error))) w2 \<noteq> None"
      by (intro total_at total_intros into d)
  qed
  show ?thesis
    unfolding rebuild_snapshot_def
  proof (rule bind_returns [OF total_at [OF run]], rule bind_returns [OF result_returns])
    fix x w1
    assume "run_sql S source ''begin SQLite recovery'' ''BEGIN EXCLUSIVE'' w = Some (Inr x, w1)"
    from begun [OF this] source show "rebuild_database S J source temporary lock w1 \<noteq> None" by (intro rebuild) simp
  qed (intro total_at total_intros run)
qed

lemma recover_returns:
  assumes maintenance: "maintenance_laws H S handles" and laws: "result_laws S T left" "copied_texts \<subseteq> T"
    and isolation: "isolation_laws S handles left" and source: "Database (adp_database a) \<in> handles w"
  shows "recover H S J a options w \<noteq> None"
proof -
  note files = maintenance_lawsD(4) [OF maintenance] and host = maintenance_lawsD(5) [OF maintenance]
  have handles: "handle_laws S handles" "statement_handle_laws S handles"
    using maintenance by (simp_all add: maintenance_laws_def)
  note snapshot = rebuild_snapshot_returns [OF laws handles isolation]
  have staged: "recover_staged H S J md source archive s \<noteq> None"
    if "rec_adapter s = a" "Database (adp_database a) \<in> handles (rec_world s)" for md source archive s
  proof (cases "lock_connection a")
    case (Inl e)
    then show ?thesis by (simp add: recover_staged_def bind_gets bind_lift that)
  next
    case (Inr db)
    then have "db = adp_database a" by (simp add: lock_connection_def split: if_splits)
    with snapshot that(2) obtain r w1 where
      r: "rebuild_snapshot S J db (rebuilt (rec_stage s)) (lock_timeout (adp_options a)) (rec_world s) = Some (r, w1)"
      by fastforce
    have rest: "io_bind (on_rec (rebuild_snapshot S J db (rebuilt (rec_stage s)) (lock_timeout (adp_options a)))) k s \<noteq> None"
      if "\<And>x. total (k x)" for k :: "rebuild_result \<Rightarrow> ('a recovering, dactyl_error, recovery_result) io"
      using r total_at [OF that] by (cases r) (simp_all add: io_bind_def on_rec_def del: not_None_eq)
    show ?thesis
      unfolding recover_staged_def bind_gets that(1) Inr bind_lift
      by (rule rest) (intro total_intros)
  qed
  let ?start = "\<lambda>source archive. io_bind (inspect_original H a source archive) (\<lambda>md.
      io_bind (stage_create H source md) (\<lambda>st. io_return (md, st)))"
  have start: "total (?start source archive)" for source archive
    by (intro total_intros)
  have "keeps (\<lambda>w. handles w = hs) (?start source archive)" for source archive hs
    by (intro keeps_intros keeps_stage_create [OF files] stage_keeps host)
  note same = keepsD [OF this refl]
  have dropped: "(stage_drop H st :: ('a, dactyl_error, unit) io) v \<noteq> None" for st v
    by (intro total_at total_intros)
  show ?thesis
    unfolding recover_def Let_def
    using total_at [OF start, of "adp_path a" "preserve_original_at options" w]
      same [where w = w] source
    by (auto simp: staged dropped split: option.splits sum.splits prod.splits)
qed

text \<open>
  Recovery returns, with a value or an error, when the adapter's database is open: the loops over
  names, files and moves are bounded, every error path ends, no step panics, and the rebuild ends
  with the finite result sets it copies.
\<close>

theorem recovery_returns:
  assumes "maintenance_laws H S handles" and "result_laws S T left" and "copied_texts \<subseteq> T"
    and "isolation_laws S handles left" and "Database (adp_database a) \<in> handles (proc_world s)"
  shows "sqlite_recover secure H S J a options s \<noteq> None"
proof -
  have "has_other_connection H (adp_path a) s \<noteq> None"
    using total_at [OF total_path_key, of H "adp_path a" "proc_world s"]
    by (auto simp: has_other_connection_def io_bind_def on_world_def io_return_def split: option.splits sum.splits)
  then obtain o1 s1 where other: "has_other_connection H (adp_path a) s = Some (o1, s1)" by auto
  have "handles (proc_world s1) = handles (proc_world s)"
    by (rule has_other_keeps(1) [OF maintenance_stat [OF assms(1)] other])
  with assms(5) have "recover H S J a options (proc_world s1) \<noteq> None"
    by (intro recover_returns [OF assms(1-4)]) simp
  then have "recover_database secure H S J a options (proc_world s1) \<noteq> None"
    by (simp add: recover_database_def)
  with other show ?thesis
    unfolding sqlite_recover_def by (auto simp del: not_None_eq split: option.split sum.split)
qed

section \<open>Exclusion\<close>

lemma triple_any: "triple P m (\<lambda>_ _. True) (\<lambda>_ _. True)"
  by (simp add: triple_def)

text \<open>A rollback and a failed activation return no value.\<close>

lemma rollback_no_value:
  "triple P (rollback_original H S e source original) (\<lambda>_ _. False) (\<lambda>_ _. True)"
  unfolding rollback_original_def
  by (auto simp: triple_def io_iffs split: sum.splits)

lemma fail_activation_no_value:
  "triple P (fail_activation H S e source original) (\<lambda>_ _. False) (\<lambda>_ _. True)"
proof -
  have never: "rollback_original H S e source original v \<noteq> Some (Inr x, v')" for e v x v'
    by (auto dest: triple_ok [OF rollback_no_value [where P = "\<lambda>_. True"] TrueI])
  show ?thesis
    unfolding fail_activation_def by (auto simp: triple_def io_iffs never split: sum.splits if_splits)
qed

lemma recover_staged_paths:
  "triple (\<lambda>_. True) (recover_staged H S J md source archive)
     (\<lambda>res _. active_path res = source \<and> preserved_original_path res = archive) (\<lambda>_ _. True)"
proof -
  note rollback = triple_conseq [OF rollback_no_value]
  let ?Q = "\<lambda>(res :: recovery_result) _. active_path res = source \<and> preserved_original_path res = archive"
  let ?x = "\<lambda>rb. \<lparr>active_path = source, preserved_original_path = archive, result_journal_mode = Delete,
      result_user_version = rebuilt_user_version rb, result_application_id = rebuilt_application_id rb\<rparr>"
  have last: "triple (\<lambda>_. True) (case q of Inl e \<Rightarrow> fail_activation H S e source (identity_of md) | Inr _ \<Rightarrow> io_return (?x rb))
      ?Q (\<lambda>_ _. True)" for q :: "dactyl_error + unit" and rb
    by (cases q) (simp_all add: triple_return triple_conseq [OF fail_activation_no_value])
  have second: "triple (\<lambda>_. True) (case q of Inl e \<Rightarrow> rollback_original H S e source (identity_of md)
      | Inr _ \<Rightarrow> io_bind (io_result (activation H S source)) (\<lambda>reopened.
          case reopened of Inl e \<Rightarrow> fail_activation H S e source (identity_of md) | Inr _ \<Rightarrow> io_return (?x rb)))
      ?Q (\<lambda>_ _. True)" for q :: "dactyl_error + unit" and rb
    by (cases q) (simp_all add: rollback triple_bind [OF triple_any last])
  have first: "triple (\<lambda>_. True) (case q of Inl e \<Rightarrow> rollback_original H S e source (identity_of md)
      | Inr _ \<Rightarrow> io_bind (io_result (activate H source)) (\<lambda>q.
          case q of Inl e \<Rightarrow> rollback_original H S e source (identity_of md)
          | Inr _ \<Rightarrow> io_bind (io_result (activation H S source)) (\<lambda>reopened.
              case reopened of Inl e \<Rightarrow> fail_activation H S e source (identity_of md) | Inr _ \<Rightarrow> io_return (?x rb))))
      ?Q (\<lambda>_ _. True)" for q :: "dactyl_error + unit" and rb
    by (cases q) (simp_all add: rollback triple_bind [OF triple_any second])
  show ?thesis
    unfolding recover_staged_def
    by (intro triple_bind [OF triple_any] first)
qed

text \<open>
  A recovery succeeds only through a read-write connection that is the only one the process
  has open on the database, and what it reports as the active and the preserved path are the
  path of the connection and the path the caller asked for.
\<close>

theorem recovery_runs_alone:
  fixes H :: "'w host_api"
  assumes "sqlite_recover secure H S J a options s = Some ((Inr res, a'), s')"
  shows "open_access_mode (adp_options a) = ReadWrite \<and> adp_path a \<noteq> memory_path \<and> \<not> adp_poisoned a \<and>
     active_path res = adp_path a \<and> preserved_original_path res = preserve_original_at options \<and>
     (\<exists>key w. path_key H (adp_path a) (proc_world s) =
          (Some (Inr (Some key), w) :: ((dactyl_error + string option) \<times> 'w) option) \<and>
        registry_count (components key) (proc_registry s) \<le> 1)"
proof -
  from assms have mode: "open_access_mode (adp_options a) = ReadWrite"
    by (cases "open_access_mode (adp_options a)") (simp_all add: sqlite_recover_def)
  with assms obtain s1 where other: "has_other_connection H (adp_path a) s = Some (Inr False, s1)"
    and run: "recover_database secure H S J a options (proc_world s1) = Some ((Inr res, a'), proc_world s')"
    by (auto simp: sqlite_recover_def split: option.splits sum.splits if_splits)
  from run have r: "recover H S J a options (proc_world s1) = Some ((Inr res, a'), proc_world s')"
    by (simp add: recover_database_def split: if_splits)
  then have memory: "adp_path a \<noteq> memory_path" by (auto simp: recover_def Let_def)
  from r obtain md st w2 t where st: "recover_staged H S J md (adp_path a) (preserve_original_at options)
         \<lparr>rec_world = w2, rec_adapter = a, rec_stage = st, rec_moved = []\<rparr> = Some (Inr res, t)"
    by (cases rule: recover_steps) auto
  have "\<not> adp_poisoned a"
    using st by (auto simp: recover_staged_def bind_gets bind_lift lock_connection_def)
  moreover from triple_ok [OF recover_staged_paths TrueI st]
  have "active_path res = adp_path a \<and> preserved_original_path res = preserve_original_at options" .
  moreover have "\<exists>key w. path_key H (adp_path a) (proc_world s) =
          (Some (Inr (Some key), w) :: ((dactyl_error + string option) \<times> 'w) option) \<and>
        registry_count (components key) (proc_registry s) \<le> 1"
  proof -
    from other obtain k s2 where on: "on_world (path_key H (adp_path a)) s =
        (Some (Inr k, s2) :: ((dactyl_error + string option) \<times> 'w process) option)"
      and rest: "(case k of None \<Rightarrow> io_return False
        | Some p \<Rightarrow> (\<lambda>s. if proc_poisoned s then Some (Inl registry_lock_error, s)
            else Some (Inr (1 < registry_count (components p) (proc_registry s)), s))) s2 = Some (Inr False, s1)"
      unfolding has_other_connection_def io_bind_Some_iff by blast
    from on obtain w where p: "path_key H (adp_path a) (proc_world s) =
        (Some (Inr k, w) :: ((dactyl_error + string option) \<times> 'w) option)" and s2: "s2 = s\<lparr>proc_world := w\<rparr>"
      by (auto simp: on_world_def split: option.splits)
    from memory p obtain key where "k = Some key"
      by (auto simp: path_key_def io_iffs split: option.splits if_splits)
    with p rest s2 show ?thesis by (auto split: if_splits)
  qed
  ultimately show ?thesis using mode memory by auto
qed

definition one_connection :: "mini_host process" where
  "one_connection = \<lparr>proc_world = mh_start, proc_registry = registry_add (components ''/d/a.db'') (\<lambda>_. None),
     proc_poisoned = False\<rparr>"

theorem recovery_runs_alone_witness:
  "\<exists>res a' s'. sqlite_recover True mini_host_api mini_host_sqlite ref_json recovering_adapter archive_options
       one_connection = Some ((Inr res, a'), s') \<and> active_path res = ''/d/a.db'' \<and>
     preserved_original_path res = ''/d/old.db'' \<and> mh_held (proc_world s') (components ''/d/old.db'') = Some (1, 3)"
proof -
  let ?r = "sqlite_recover True mini_host_api mini_host_sqlite ref_json recovering_adapter archive_options one_connection"
  have "case ?r of Some ((Inr res, a'), s') \<Rightarrow> mh_held (proc_world s') (components ''/d/old.db'') = Some (1, 3) | _ \<Rightarrow> False"
    by code_simp
  then obtain res a' s' where r: "?r = Some ((Inr res, a'), s')"
    and h: "mh_held (proc_world s') (components ''/d/old.db'') = Some (1, 3)"
    by (auto split: option.split_asm sum.split_asm)
  from recovery_runs_alone [OF r] r h show ?thesis
    by (auto simp: recovering_adapter_def archive_options_def)
qed

end
