(* ===== verification/Session.thy ===== *)
theory Session
  imports Recovery_Total Handle_Accounts "HOL-Library.Multiset"
begin

text \<open>
  A process that uses the library: the connections it has open, and what each call of
  \<open>src/lib.rs\<close> does to the process and to that list. A step is a whole call; the calls come one
  after the other, in any order (two calls at once in two threads are not in it). An abstract
  machine says which database files are open how often; a run of the library on direct paths is
  a run of it.
\<close>

section \<open>Runs and simulation\<close>

inductive runs :: "('s \<Rightarrow> 'e \<Rightarrow> 's \<Rightarrow> bool) \<Rightarrow> 's \<Rightarrow> 'e list \<Rightarrow> 's \<Rightarrow> bool"
  for next_state :: "'s \<Rightarrow> 'e \<Rightarrow> 's \<Rightarrow> bool" and s :: 's where
  runs_none: "runs next_state s [] s"
| runs_step: "runs next_state s es t \<Longrightarrow> next_state t e u \<Longrightarrow> runs next_state s (es @ [e]) u"

lemma runs_filtered:
  "runs next_state s es t \<Longrightarrow> \<forall>e \<in> set es. Q e \<Longrightarrow> runs (\<lambda>s e t. next_state s e t \<and> Q e) s es t"
  by (induction rule: runs.induct) (auto intro: runs.intros)

text \<open>An invariant of the concrete steps, under which every step is one of the abstract machine.\<close>

locale simulation =
  fixes concrete :: "'s \<Rightarrow> 'e \<Rightarrow> 's \<Rightarrow> bool" and abstract :: "'a \<Rightarrow> 'f \<Rightarrow> 'a \<Rightarrow> bool"
    and inv :: "'s \<Rightarrow> bool" and view :: "'s \<Rightarrow> 'a" and event :: "'e \<Rightarrow> 'f"
  assumes step_inv: "inv s \<Longrightarrow> concrete s e t \<Longrightarrow> inv t"
    and step_sim: "inv s \<Longrightarrow> concrete s e t \<Longrightarrow> abstract (view s) (event e) (view t)"
begin

lemma runs_inv: "runs concrete s es t \<Longrightarrow> inv s \<Longrightarrow> inv t"
  by (induction rule: runs.induct) (auto intro: step_inv)

lemma runs_sim: "runs concrete s es t \<Longrightarrow> inv s \<Longrightarrow> runs abstract (view s) (map event es) (view t)"
proof (induction rule: runs.induct)
  case runs_none
  show ?case by (simp add: runs.runs_none)
next
  case (runs_step es t e u)
  then have "abstract (view t) (event e) (view u)" by (blast intro: step_sim runs_inv)
  with runs_step show ?case by (auto intro: runs.runs_step)
qed

end

section \<open>The machine of open files\<close>

text \<open>Which files are open, and how often; \<open>Exclusive\<close> needs the file open exactly once.\<close>

datatype 'f usage_event = Acquire 'f | Free 'f | Exclusive 'f | Silent

inductive usage_step :: "'f multiset \<Rightarrow> 'f usage_event \<Rightarrow> 'f multiset \<Rightarrow> bool" where
  acquire: "usage_step M (Acquire f) (add_mset f M)"
| free: "f \<in># M \<Longrightarrow> usage_step M (Free f) (M - {#f#})"
| exclusive: "count M f = 1 \<Longrightarrow> usage_step M (Exclusive f) M"
| silent: "usage_step M Silent M"

inductive_simps usage_step_simps:
  "usage_step M (Acquire f) N" "usage_step M (Free f) N" "usage_step M (Exclusive f) N" "usage_step M Silent N"

section \<open>Sessions\<close>

record ('w, 'n) session =
  ses_process :: "'w process"
  ses_connections :: "'n connection list"

text \<open>The calls that borrow a connection without changing it.\<close>

datatype connection_call =
    CallRead string "parameter list"
  | CallWrite string "parameter list"
  | CallAtomic "operation list"
  | CallInspect
  | CallVerify
  | CallBackup string

definition call_effect ::
  "('w, 'n) system \<Rightarrow> 'n connection \<Rightarrow> connection_call \<Rightarrow> 'w process \<Rightarrow> 'w process option" where
  "call_effect Y c k s =
     (case k of
        CallRead sql params \<Rightarrow> map_option snd (connection_read Y c sql params s)
      | CallWrite sql params \<Rightarrow> map_option snd (connection_write Y c sql params s)
      | CallAtomic ops \<Rightarrow> map_option snd (connection_atomic Y c ops s)
      | CallInspect \<Rightarrow> map_option snd (connection_inspect_schema Y c s)
      | CallVerify \<Rightarrow> map_option snd (connection_verify_integrity Y c s)
      | CallBackup destination \<Rightarrow> map_option snd (connection_backup Y c destination s))"

datatype 'n event =
    Opened "'n connection"
  | Refused
  | Called "'n connection" connection_call
  | Recovered "'n connection" bool
  | Dropped "'n connection"
  | Once

text \<open>
  A recovery may close and reopen the adapter: the connection it leaves takes the place of the
  old one. The calls on a connection of their own open, use and drop it in one step.
\<close>

inductive session_step :: "('w, 'n) system \<Rightarrow> ('w, 'n) session \<Rightarrow> 'n event \<Rightarrow> ('w, 'n) session \<Rightarrow> bool"
  for Y :: "('w, 'n) system" where
  opens: "connection_open_with_options_and_context Y route options context s = Some (Inr c, s') \<Longrightarrow>
     session_step Y \<lparr>ses_process = s, ses_connections = cs\<rparr> (Opened c)
       \<lparr>ses_process = s', ses_connections = c # cs\<rparr>"
| refuses: "connection_open_with_options_and_context Y route options context s = Some (Inl e, s') \<Longrightarrow>
     session_step Y \<lparr>ses_process = s, ses_connections = cs\<rparr> Refused \<lparr>ses_process = s', ses_connections = cs\<rparr>"
| calls: "c \<in> set cs \<Longrightarrow> call_effect Y c k s = Some s' \<Longrightarrow>
     session_step Y \<lparr>ses_process = s, ses_connections = cs\<rparr> (Called c k)
       \<lparr>ses_process = s', ses_connections = cs\<rparr>"
| recovers: "connection_recover Y c options s = Some ((q, c'), s') \<Longrightarrow>
     session_step Y \<lparr>ses_process = s, ses_connections = xs @ c # ys\<rparr> (Recovered c (\<not> isl q))
       \<lparr>ses_process = s', ses_connections = xs @ c' # ys\<rparr>"
| drops: "connection_drop Y c s = Some (r, s') \<Longrightarrow>
     session_step Y \<lparr>ses_process = s, ses_connections = xs @ c # ys\<rparr> (Dropped c)
       \<lparr>ses_process = s', ses_connections = xs @ ys\<rparr>"
| reads_once: "dactyl_read_with_context Y ctx sql params s = Some (r, s') \<Longrightarrow>
     session_step Y \<lparr>ses_process = s, ses_connections = cs\<rparr> Once \<lparr>ses_process = s', ses_connections = cs\<rparr>"
| writes_once: "dactyl_write_with_context Y ctx sql params s = Some (n, s') \<Longrightarrow>
     session_step Y \<lparr>ses_process = s, ses_connections = cs\<rparr> Once \<lparr>ses_process = s', ses_connections = cs\<rparr>"

text \<open>What a connection holds: a handle unless closed, and a file unless the database is in memory or remote.\<close>

definition held_handle :: "'n connection \<Rightarrow> nat list" where
  "held_handle c =
     (case conn_adapter c of
        SqliteBackend a \<Rightarrow> if adp_database a = 0 then [] else [adp_database a]
      | _ \<Rightarrow> [])"

definition held_file :: "'n connection \<Rightarrow> string list option" where
  "held_file c = (case conn_adapter c of SqliteBackend a \<Rightarrow> key_of (adp_path a) | _ \<Rightarrow> None)"

definition open_handles :: "'n connection list \<Rightarrow> nat list" where
  "open_handles cs = concat (map held_handle cs)"

definition open_files :: "'n connection list \<Rightarrow> string list multiset" where
  "open_files cs = (\<Sum>c\<leftarrow>cs. case held_file c of None \<Rightarrow> {#} | Some f \<Rightarrow> {#f#})"

definition usage_of :: "'n event \<Rightarrow> string list usage_event" where
  "usage_of e =
     (case e of
        Opened c \<Rightarrow> (case held_file c of Some f \<Rightarrow> Acquire f | None \<Rightarrow> Silent)
      | Dropped c \<Rightarrow> (case held_file c of Some f \<Rightarrow> Free f | None \<Rightarrow> Silent)
      | Recovered c ok \<Rightarrow> (case held_file c of Some f \<Rightarrow> if ok then Exclusive f else Silent | None \<Rightarrow> Silent)
      | Refused \<Rightarrow> Silent
      | Once \<Rightarrow> Silent
      | Called c k \<Rightarrow> Silent)"

section \<open>What is assumed\<close>

text \<open>
  The handles are SQLite's: the calls of the remote clients and reading the environment leave them
  alone. A path is direct when its registry key cannot change while it is open (see \<open>direct_path\<close>).
\<close>

definition remote_quiet :: "('w \<Rightarrow> bool) \<Rightarrow> ('w, 'n) system \<Rightarrow> bool" where
  "remote_quiet P Y \<longleftrightarrow>
     (\<forall>req. call_keeps P (neon_send (sys_neon Y) req)) \<and> call_keeps P (spawn_worker (sys_supabase Y)) \<and>
     call_keeps P (build_client (sys_supabase Y)) \<and> (\<forall>p. call_keeps P (post_request (sys_supabase Y) p))"

definition direct_route :: "('w, 'n) system \<Rightarrow> datastore_route \<Rightarrow> bool" where
  "direct_route Y route \<longleftrightarrow> (route_datastore route = Sqlite \<longrightarrow> direct_path (sys_host Y) (route_text route))"

definition direct_connection :: "('w, 'n) system \<Rightarrow> 'n connection \<Rightarrow> bool" where
  "direct_connection Y c \<longleftrightarrow> (\<forall>a. conn_adapter c = SqliteBackend a \<longrightarrow> direct_path (sys_host Y) (adp_path a))"

definition session_laws :: "('w, 'n) system \<Rightarrow> ('w \<Rightarrow> sqlite_handle set) \<Rightarrow> bool" where
  "session_laws Y handles \<longleftrightarrow> maintenance_laws (sys_host Y) (sys_sqlite Y) handles \<and>
     (\<forall>hs. remote_quiet (\<lambda>w. handles w = hs) Y) \<and> (\<forall>hs name. call_keeps (\<lambda>w. handles w = hs) (sys_env Y name))"

text \<open>The paths of a run: the environment selects direct paths, and so does every open.\<close>

definition direct_environment :: "('w, 'n) system \<Rightarrow> bool" where
  "direct_environment Y \<longleftrightarrow> (\<forall>s route s'. route_from_env Y s = Some (Inr route, s') \<longrightarrow> direct_route Y route)"

definition direct_event :: "('w, 'n) system \<Rightarrow> 'n event \<Rightarrow> bool" where
  "direct_event Y e = (case e of Opened c \<Rightarrow> direct_connection Y c | _ \<Rightarrow> True)"

section \<open>Calls on a connection\<close>

lemma keeps_sqlite_operations:
  assumes "statements_keep P S"
  shows "keeps (P i) (sqlite_read S J a sql params)" and "keeps (P i) (sqlite_write S a sql params)"
    and "keeps (P i) (sqlite_atomic S J a ops)" and "keeps (P i) (sqlite_inspect_schema S J parse a)"
    and "keeps (P i) (sqlite_verify_integrity S J a)"
proof -
  note q = keeps_query_rows [OF assms] keeps_execute_write [OF assms] keeps_exec_sql [OF assms]
  show "keeps (P i) (sqlite_read S J a sql params)"
    unfolding sqlite_read_def by (intro keeps_intros q)
  show "keeps (P i) (sqlite_write S a sql params)"
    unfolding sqlite_write_def by (intro keeps_intros q)
  have "keeps (P i) (execute_operation S J db op)" for db op
    unfolding execute_operation_def Let_def by (cases "op_kind op") (auto intro!: keeps_intros q)
  then show "keeps (P i) (sqlite_atomic S J a ops)"
    unfolding sqlite_atomic_def by (intro keeps_intros q)
  show "keeps (P i) (sqlite_inspect_schema S J parse a)"
    unfolding sqlite_inspect_schema_def inspect_schema_def inspect_table_def indexes_for_table_def index_of_row_def
      columns_for_table_def foreign_keys_for_table_def
    by (intro keeps_intros q)
  show "keeps (P i) (sqlite_verify_integrity S J a)"
    unfolding sqlite_verify_integrity_def by (intro keeps_intros keeps_verify_integrity [OF assms])
qed

lemma keeps_neon_operations:
  assumes "remote_quiet P Y"
  shows "keeps P (neon_read (sys_neon Y) a sql params)" and "keeps P (neon_write (sys_neon Y) a sql params)"
    and "keeps P (neon_atomic (sys_neon Y) a ops)"
proof -
  have send: "call_keeps P (neon_send (sys_neon Y) req)" for req
    using assms by (simp add: remote_quiet_def)
  have "keeps P (neon_post (sys_neon Y) req label)" for req label
    by (auto simp: keeps_def neon_post_def split: prod.splits sum.splits dest: call_keepsD [OF send])
  then have q: "keeps P (neon_query (sys_neon Y) a sql params)" "keeps P (neon_batch (sys_neon Y) a ops)"
    unfolding neon_query_def neon_batch_def by (intro keeps_intros; assumption)+
  show "keeps P (neon_read (sys_neon Y) a sql params)" "keeps P (neon_write (sys_neon Y) a sql params)"
    "keeps P (neon_atomic (sys_neon Y) a ops)"
    unfolding neon_read_def neon_write_def neon_atomic_def by (intro keeps_intros q)+
qed

lemma keeps_supabase_send:
  assumes "remote_quiet P Y"
  shows "keeps P (supabase_send (sys_supabase Y) a from_slice path request)"
proof -
  have calls: "call_keeps P (spawn_worker (sys_supabase Y))" "call_keeps P (build_client (sys_supabase Y))"
    "call_keeps P (post_request (sys_supabase Y) p)" for p
    using assms by (simp_all add: remote_quiet_def)
  show ?thesis
    by (auto simp: keeps_def supabase_send_def send_request_def
        split: prod.splits sum.splits if_splits post_outcome.splits)
      (meson calls call_keepsD)+
qed

lemma keeps_supabase_operations:
  assumes "remote_quiet P Y"
  shows "keeps P (supabase_read (sys_supabase Y) J a sql params)"
    and "keeps P (supabase_write (sys_supabase Y) a sql params)"
    and "keeps P (supabase_atomic (sys_supabase Y) J a ops)"
  unfolding supabase_read_def supabase_write_def supabase_atomic_def supabase_request_def
  by (intro keeps_intros keeps_supabase_send [OF assms])+

section \<open>Sessions and what is open\<close>

lemma session_lawsD:
  assumes "session_laws Y handles"
  shows "maintenance_laws (sys_host Y) (sys_sqlite Y) handles" and "handle_laws (sys_sqlite Y) handles"
    and "stat_keeps_handles (sys_host Y) handles"
    and "remote_quiet (\<lambda>w. handles w = hs) Y" and "statements_keep (\<lambda>hs w. handles w = hs) (sys_sqlite Y)"
    and "call_keeps (\<lambda>w. handles w = hs) (sys_env Y name)"
proof -
  show laws: "maintenance_laws (sys_host Y) (sys_sqlite Y) handles"
    "remote_quiet (\<lambda>w. handles w = hs) Y" "call_keeps (\<lambda>w. handles w = hs) (sys_env Y name)"
    using assms by (simp_all add: session_laws_def)
  show "handle_laws (sys_sqlite Y) handles" "statements_keep (\<lambda>hs w. handles w = hs) (sys_sqlite Y)"
    by (rule maintenance_lawsD [OF laws(1)])+
  show "stat_keeps_handles (sys_host Y) handles" by (rule maintenance_stat [OF laws(1)])
qed

text \<open>The handles, the registry and its mutex, when a call starts.\<close>

definition holding :: "('w \<Rightarrow> sqlite_handle set) \<Rightarrow> sqlite_handle set \<Rightarrow> registry \<Rightarrow> bool \<Rightarrow> 'w process \<Rightarrow> bool" where
  "holding handles hs reg b p \<longleftrightarrow> handles (proc_world p) = hs \<and> proc_registry p = reg \<and> proc_poisoned p = b"

lemma keeps_holding: "keeps (\<lambda>w. handles w = hs) m \<Longrightarrow> keeps (holding handles hs reg b) (on_world m)"
  by (rule keepsI) (auto simp: holding_def on_world_Some_iff dest: keepsD)

lemma keeps_connection_calls:
  assumes "session_laws Y handles"
  shows "keeps (holding handles hs reg b) (connection_read Y c sql params)"
    and "keeps (holding handles hs reg b) (connection_write Y c sql params)"
    and "keeps (holding handles hs reg b) (connection_atomic Y c ops)"
    and "keeps (holding handles hs reg b) (connection_inspect_schema Y c)"
    and "keeps (holding handles hs reg b) (connection_verify_integrity Y c)"
    and "keeps (holding handles hs reg b) (connection_backup Y c destination)"
proof -
  note q = keeps_sqlite_operations [OF session_lawsD(5) [OF assms]] keeps_neon_operations [OF session_lawsD(4) [OF assms]]
    keeps_supabase_operations [OF session_lawsD(4) [OF assms]] backup_handles [OF session_lawsD(1) [OF assms]]
  note defs = connection_inspect_schema_def connection_verify_integrity_def connection_backup_def
    default_inspect_schema_def neon_inspect_schema_def default_verify_integrity_def default_backup_def
  show "keeps (holding handles hs reg b) (connection_read Y c sql params)"
    unfolding connection_read_def by (rule keeps_holding) (simp add: q split: backend.split)
  have "keeps (holding handles hs reg b) (connection_write_result Y c sql params)"
    unfolding connection_write_result_def by (rule keeps_holding) (simp add: q split: backend.split)
  then show "keeps (holding handles hs reg b) (connection_write Y c sql params)"
    unfolding connection_write_def by (intro keeps_bind keeps_basic)
  show "keeps (holding handles hs reg b) (connection_atomic Y c ops)"
    unfolding connection_atomic_def by (rule keeps_holding) (simp add: q split: backend.split)
  show "keeps (holding handles hs reg b) (connection_inspect_schema Y c)"
    "keeps (holding handles hs reg b) (connection_verify_integrity Y c)"
    "keeps (holding handles hs reg b) (connection_backup Y c destination)"
    unfolding defs by (simp_all add: q keeps_holding keeps_basic split: backend.split)
qed

lemma call_keeps_process:
  assumes "session_laws Y handles" and "holding handles hs reg b s" and "call_effect Y c k s = Some s'"
  shows "holding handles hs reg b s'"
proof -
  note q = keeps_connection_calls [OF assms(1), THEN keepsD, OF assms(2)]
  show ?thesis
    using assms(3) by (cases k) (auto simp: call_effect_def dest: q)
qed

text \<open>
  The books are kept: the registry counts the open connections of every file, and what the process
  holds of SQLite are the databases of its connections, one each, and no statement and no backup.
\<close>

definition accounted :: "('w, 'n) system \<Rightarrow> ('w \<Rightarrow> sqlite_handle set) \<Rightarrow> ('w, 'n) session \<Rightarrow> bool" where
  "accounted Y handles \<sigma> \<longleftrightarrow> \<not> proc_poisoned (ses_process \<sigma>) \<and>
     (\<forall>k. registry_count k (proc_registry (ses_process \<sigma>)) = count (open_files (ses_connections \<sigma>)) k) \<and>
     (\<forall>c \<in> set (ses_connections \<sigma>). direct_connection Y c) \<and>
     distinct (open_handles (ses_connections \<sigma>)) \<and> 0 \<notin> set (open_handles (ses_connections \<sigma>)) \<and>
     handles (proc_world (ses_process \<sigma>)) = Database ` set (open_handles (ses_connections \<sigma>))"

lemma open_simps [simp]:
  "open_handles [] = []" "open_handles (c # cs) = held_handle c @ open_handles cs"
  "open_handles (xs @ ys) = open_handles xs @ open_handles ys"
  "open_files [] = {#}"
  "open_files (c # cs) = (case held_file c of None \<Rightarrow> {#} | Some f \<Rightarrow> {#f#}) + open_files cs"
  "open_files (xs @ ys) = open_files xs + open_files ys"
  by (simp_all add: open_handles_def open_files_def)

lemma count_held_file:
  "conn_adapter c = SqliteBackend a \<Longrightarrow>
     count (case held_file c of None \<Rightarrow> {#} | Some f \<Rightarrow> {#f#}) k = key_weight (key_of (adp_path a)) k"
  by (simp add: held_file_def key_weight_def split: option.split)

lemma held_remote:
  "(\<And>a. conn_adapter c \<noteq> SqliteBackend a) \<Longrightarrow> held_handle c = [] \<and> held_file c = None"
  by (cases "conn_adapter c") (auto simp: held_handle_def held_file_def)

lemma opened_direct:
  assumes "connection_open_with_options_and_context Y route options context s = Some (Inr c, s')"
    and "direct_route Y route"
  shows "direct_connection Y c"
  using assms(1)
proof (cases rule: opened_cases)
  case (sqlite a)
  from sqlite(3) have "adp_path a = route_text route" by (rule open_with_options_Inr) simp
  with assms(2) sqlite show ?thesis by (simp add: direct_connection_def direct_route_def)
qed (simp_all add: direct_connection_def)

lemma opened_accounted:
  assumes laws: "session_laws Y handles" and acc: "accounted Y handles \<lparr>ses_process = s, ses_connections = cs\<rparr>"
    and run: "connection_open_with_options_and_context Y route options context s = Some (Inr c, s')"
    and direct: "direct_connection Y c"
  shows "accounted Y handles \<lparr>ses_process = s', ses_connections = c # cs\<rparr>"
  using run
proof (cases rule: opened_cases)
  case (sqlite a)
  note l = session_lawsD(2,3) [OF laws]
  have path: "adp_path a = route_text route" using sqlite(3) by (rule open_with_options_Inr) simp
  then have "direct_path (sys_host Y) (route_text route)"
    using direct sqlite(1) by (simp add: direct_connection_def)
  note o = open_succeeds [OF l this sqlite(3)]
  have "registry_count f (proc_registry s') =
      registry_count f (proc_registry s) + key_weight (key_of (adp_path a)) f" for f
    using o(4) path by simp
  moreover have "adp_database a \<noteq> 0" "adp_database a \<notin> set (open_handles cs)"
    "handles (proc_world s') = insert (Database (adp_database a)) (handles (proc_world s))"
    using o(1) acc by (auto simp: one_more_def accounted_def)
  ultimately show ?thesis
    using acc o(2) direct
    by (simp add: accounted_def count_held_file [OF sqlite(1)] held_handle_def sqlite(1))
qed (use acc in \<open>auto simp: accounted_def held_handle_def held_file_def direct_connection_def\<close>)

lemma refused_accounted:
  assumes laws: "session_laws Y handles" and acc: "accounted Y handles \<lparr>ses_process = s, ses_connections = cs\<rparr>"
    and run: "connection_open_with_options_and_context Y route options context s = Some (Inl e, s')"
  shows "accounted Y handles \<lparr>ses_process = s', ses_connections = cs\<rparr>"
proof -
  have "released handles s s'"
  proof (cases "\<exists>e. open_with_options (sys_host Y) (sys_sqlite Y) (route_text route) options s = Some (Inl e, s')")
    case True
    with open_fails_released [OF session_lawsD(2,3) [OF laws]] show ?thesis by blast
  next
    case False
    with run have "s' = s"
      by (cases "route_datastore route")
        (auto simp: connection_open_with_options_and_context_def build_adapter_def io_iffs on_world_Some_iff neon_new_def
          split: if_splits option.splits)
    then show ?thesis by simp
  qed
  with acc show ?thesis by (simp add: accounted_def released_def)
qed

lemma called_accounted:
  assumes laws: "session_laws Y handles" and acc: "accounted Y handles \<lparr>ses_process = s, ses_connections = cs\<rparr>"
    and run: "call_effect Y c k s = Some s'"
  shows "accounted Y handles \<lparr>ses_process = s', ses_connections = cs\<rparr>"
  using call_keeps_process [OF laws _ run, of "handles (proc_world s)" "proc_registry s" "proc_poisoned s"] acc
  by (simp add: holding_def accounted_def)

lemma recovered_accounted:
  assumes laws: "session_laws Y handles"
    and acc: "accounted Y handles \<lparr>ses_process = s, ses_connections = xs @ c # ys\<rparr>"
    and run: "connection_recover Y c options s = Some ((q, c'), s')"
  shows "accounted Y handles \<lparr>ses_process = s', ses_connections = xs @ c' # ys\<rparr> \<and> held_file c' = held_file c"
proof (cases "conn_adapter c")
  case (SqliteBackend a)
  with run obtain a' where c': "c' = c\<lparr>conn_adapter := SqliteBackend a'\<rparr>"
    and r: "sqlite_recover (sys_secure_recovery Y) (sys_host Y) (sys_sqlite Y) (sys_json Y) a options s = Some ((q, a'), s')"
    by (auto simp: connection_recover_def split: option.splits)
  let ?hs = "Database ` set (open_handles (xs @ ys))"
  have "adapter_holds handles ?hs a (proc_world s)"
    using acc by (auto simp: adapter_holds_def one_more_def accounted_def held_handle_def SqliteBackend)
  note o = sqlite_recover_handles [OF session_lawsD(1) [OF laws] this r]
  have same: "held_file c' = held_file c"
    using o(1) by (simp add: held_file_def SqliteBackend c')
  have "distinct (open_handles (xs @ ys))" "0 \<notin> set (open_handles (xs @ ys))" using acc by (auto simp: accounted_def)
  then have "distinct (open_handles (xs @ c' # ys)) \<and> 0 \<notin> set (open_handles (xs @ c' # ys)) \<and>
      handles (proc_world s') = Database ` set (open_handles (xs @ c' # ys))"
    using o(1) by (auto simp: adapter_holds_def one_more_def held_handle_def c')
  moreover have "direct_connection Y c'"
    using acc o(1) by (simp add: accounted_def direct_connection_def SqliteBackend c')
  ultimately show ?thesis using acc o(2,3) same by (simp add: accounted_def)
next
  case (NeonBackend a)
  with run acc show ?thesis by (auto simp: connection_recover_def default_recover_def io_apply)
next
  case (SupabaseBackend a)
  with run acc show ?thesis by (auto simp: connection_recover_def default_recover_def io_apply)
qed

lemma dropped_accounted:
  assumes laws: "session_laws Y handles"
    and acc: "accounted Y handles \<lparr>ses_process = s, ses_connections = xs @ c # ys\<rparr>"
    and run: "connection_drop Y c s = Some (r, s')"
  shows "accounted Y handles \<lparr>ses_process = s', ses_connections = xs @ ys\<rparr>"
proof (cases "conn_adapter c")
  case (SqliteBackend a)
  with run have run': "drop_adapter (sys_host Y) (sys_sqlite Y) a s = Some (r, s')"
    by (simp add: connection_drop_def)
  have "direct_path (sys_host Y) (adp_path a)"
    using acc SqliteBackend by (simp add: accounted_def direct_connection_def)
  note d = drop_adapter_releases [OF session_lawsD(2,3) [OF laws] this run']
  have "\<not> proc_poisoned s" using acc by (simp add: accounted_def)
  then have "registry_count k (proc_registry s') = count (open_files (xs @ ys)) k" for k
    using d(4) [of k] acc by (simp add: accounted_def count_held_file [OF SqliteBackend])
  moreover have "handles (proc_world s') = Database ` set (open_handles (xs @ ys))"
  proof (cases "adp_database a = 0")
    case True
    with d(2) acc show ?thesis by (simp add: accounted_def held_handle_def SqliteBackend)
  next
    case False
    with acc have "one_more handles (Database ` set (open_handles (xs @ ys))) (adp_database a) (proc_world s)"
      by (auto simp: one_more_def accounted_def held_handle_def SqliteBackend)
    then show ?thesis by (rule d(1))
  qed
  ultimately show ?thesis using d(3) acc by (auto simp: accounted_def)
next
  case (NeonBackend a)
  with run acc show ?thesis
    by (auto simp: connection_drop_def io_iffs accounted_def held_handle_def held_file_def)
next
  case (SupabaseBackend a)
  with run acc show ?thesis
    by (auto simp: connection_drop_def io_iffs accounted_def held_handle_def held_file_def)
qed

text \<open>A call on a connection of its own: the connection it opens is dropped in the same step.\<close>

lemma once_accounted:
  fixes Y :: "('w, 'n) system" and f :: "'n connection \<Rightarrow> ('w process, dactyl_error, 'x) io"
    and cs :: "'n connection list"
  assumes laws: "session_laws Y handles" and env: "direct_environment Y"
    and acc: "accounted Y handles \<lparr>ses_process = s, ses_connections = cs\<rparr>"
    and use: "\<And>c hs reg b. keeps (holding handles hs reg b) (f c)"
    and run: "io_bind (route_from_env Y) (\<lambda>route. io_bind (connection_open_with_context Y route ctx) (use_once Y f)) s
       = Some (r, s')"
  shows "accounted Y handles \<lparr>ses_process = s', ses_connections = cs\<rparr>"
proof -
  have same: "accounted Y handles \<lparr>ses_process = t', ses_connections = ds\<rparr>"
    if "keeps (holding handles (handles (proc_world t)) (proc_registry t) (proc_poisoned t)) m" "m t = Some (q, t')"
      "accounted Y handles \<lparr>ses_process = t, ses_connections = ds\<rparr>"
    for m :: "('w process, dactyl_error, 'y) io" and t t' q and ds :: "'n connection list"
    using keepsD [OF that(1) _ that(2)] that(3) by (simp add: holding_def accounted_def)
  have kept_env: "keeps (holding handles hs reg b) (route_from_env Y)" for hs reg b
    unfolding route_from_env_def by (intro keeps_intros keeps_holding session_lawsD(6) [OF laws])
  have used: "accounted Y handles \<lparr>ses_process = t', ses_connections = cs\<rparr>"
    if opened: "accounted Y handles \<lparr>ses_process = t, ses_connections = c # cs\<rparr>" and u: "use_once Y f c t = Some (q, t')"
    for c :: "'n connection" and t t' q
  proof -
    from u obtain x t1 y where x: "f c t = Some (x, t1)" and y: "connection_drop Y c t1 = Some (y, t')"
      by (auto simp: use_once_def io_iffs)
    from same [OF use x opened] have "accounted Y handles \<lparr>ses_process = t1, ses_connections = [] @ c # cs\<rparr>" by simp
    from dropped_accounted [OF laws this y] show ?thesis by simp
  qed
  from run consider (env) e where "route_from_env Y s = Some (Inl e, s')"
    | (refused) route s1 e where "route_from_env Y s = Some (Inr route, s1)"
        "connection_open_with_context Y route ctx s1 = Some (Inl e, s')"
    | (uses) route s1 c s2 where "route_from_env Y s = Some (Inr route, s1)"
        "connection_open_with_context Y route ctx s1 = Some (Inr c, s2)" "use_once Y f c s2 = Some (r, s')"
    by (auto simp: io_bind_Some_iff)
  then show ?thesis
  proof cases
    case env
    show ?thesis by (rule same [OF kept_env env acc])
  next
    case refused
    note a = same [OF kept_env refused(1) acc]
    from refused_accounted [OF laws a refused(2) [unfolded connection_open_with_context_def]] show ?thesis .
  next
    case uses
    note a = same [OF kept_env uses(1) acc] and o = uses(2) [unfolded connection_open_with_context_def]
    have "direct_route Y route" using env uses(1) unfolding direct_environment_def by blast
    from used [OF opened_accounted [OF laws a o opened_direct [OF o this]] uses(3)] show ?thesis .
  qed
qed

text \<open>A recovery that succeeds had its file open exactly once: in its own connection.\<close>

lemma recovered_exclusive:
  fixes Y :: "('w, 'n) system"
  assumes laws: "session_laws Y handles"
    and acc: "accounted Y handles \<lparr>ses_process = s, ses_connections = xs @ c # ys\<rparr>"
    and run: "connection_recover Y c options s = Some ((Inr res, c'), s')"
  obtains f where "held_file c = Some f" and "count (open_files (xs @ c # ys)) f = 1"
proof -
  from run obtain a a' where a: "conn_adapter c = SqliteBackend a"
    and r: "sqlite_recover (sys_secure_recovery Y) (sys_host Y) (sys_sqlite Y) (sys_json Y) a options s = Some ((Inr res, a'), s')"
    by (cases "conn_adapter c")
      (auto simp: connection_recover_def default_recover_def io_apply split: option.splits)
  obtain p w where p: "path_key (sys_host Y) (adp_path a) (proc_world s) = Some (Inr (Some p) :: string option result, w)"
    and n: "registry_count (components p) (proc_registry s) \<le> 1"
    using recovery_runs_alone [OF r] by blast
  have "direct_path (sys_host Y) (adp_path a)" using acc a by (simp add: accounted_def direct_connection_def)
  from direct_path_key [OF this, of "proc_world s"] obtain key w' where
    "path_key (sys_host Y) (adp_path a) (proc_world s) = Some (Inr key :: string option result, w')"
    "map_option components key = key_of (adp_path a)" by metis
  with p have "key_of (adp_path a) = Some (components p)" by fastforce
  then have f: "held_file c = Some (components p)" by (simp add: held_file_def a)
  moreover have "count (open_files (xs @ c # ys)) (components p) = 1"
    using acc n f by (simp add: accounted_def)
  ultimately show thesis by (rule that)
qed

lemma step_accounted:
  assumes "session_step Y \<sigma> e \<tau>" and laws: "session_laws Y handles"
    and env: "direct_environment Y"
  shows "direct_event Y e \<Longrightarrow> accounted Y handles \<sigma> \<Longrightarrow> accounted Y handles \<tau>"
  using assms(1)
proof (induction rule: session_step.induct)
  case opens
  then show ?case by (auto simp: direct_event_def intro: opened_accounted [OF laws])
next
  case refuses
  then show ?case by (blast intro: refused_accounted [OF laws])
next
  case (calls c cs k s s')
  then show ?case by (blast intro: called_accounted [OF laws])
next
  case (recovers c options s q c' s' xs ys)
  then show ?case by (blast dest: recovered_accounted [OF laws])
next
  case (drops c s r s' xs ys)
  then show ?case by (blast intro: dropped_accounted [OF laws])
next
  case reads_once
  show ?case
    by (rule once_accounted [OF laws env reads_once(3) keeps_connection_calls(1) [OF laws]
        reads_once(1) [unfolded dactyl_read_with_context_def]])
next
  case writes_once
  show ?case
    by (rule once_accounted [OF laws env writes_once(3) keeps_connection_calls(2) [OF laws]
        writes_once(1) [unfolded dactyl_write_with_context_def]])
qed

lemma step_usage:
  assumes "session_step Y \<sigma> e \<tau>" and laws: "session_laws Y handles"
  shows "accounted Y handles \<sigma> \<Longrightarrow>
     usage_step (open_files (ses_connections \<sigma>)) (usage_of e) (open_files (ses_connections \<tau>))"
  using assms(1)
proof (induction rule: session_step.induct)
  case (recovers c options s q c' s' xs ys)
  note same = recovered_accounted [OF laws recovers(2,1), THEN conjunct2]
  show ?case
  proof (cases q)
    case (Inl x)
    with same show ?thesis by (simp add: usage_of_def usage_step_simps split: option.split)
  next
    case (Inr x)
    from recovered_exclusive [OF laws recovers(2) recovers(1) [unfolded Inr]]
    obtain f where "held_file c = Some f" "count (open_files (xs @ c # ys)) f = 1" .
    with same Inr show ?thesis by (simp add: usage_of_def usage_step_simps)
  qed
qed (simp_all add: usage_of_def usage_step_simps split: option.split)

interpretation library: simulation "\<lambda>\<sigma> e \<tau>. session_step Y \<sigma> e \<tau> \<and> direct_event Y e" usage_step
    "\<lambda>\<sigma>. session_laws Y handles \<and> direct_environment Y \<and> accounted Y handles \<sigma>"
    "\<lambda>\<sigma>. open_files (ses_connections \<sigma>)" "usage_of"
  for Y :: "('w, 'n) system" and handles
  by unfold_locales (blast intro: step_accounted step_usage)+

section \<open>Properties\<close>

text \<open>A process that has not used the library yet.\<close>

definition fresh_process :: "('w \<Rightarrow> sqlite_handle set) \<Rightarrow> 'w process \<Rightarrow> bool" where
  "fresh_process handles p \<longleftrightarrow> \<not> proc_poisoned p \<and> proc_registry p = (\<lambda>_. None) \<and> handles (proc_world p) = {}"

lemma fresh_accounted: "fresh_process handles p \<Longrightarrow> accounted Y handles \<lparr>ses_process = p, ses_connections = []\<rparr>"
  by (simp add: fresh_process_def accounted_def registry_count_def)

lemma runs_directly:
  assumes "runs (session_step Y) s es t" and "\<forall>c. Opened c \<in> set es \<longrightarrow> direct_connection Y c"
  shows "runs (\<lambda>\<sigma> e \<tau>. session_step Y \<sigma> e \<tau> \<and> direct_event Y e) s es t"
  by (rule runs_filtered [OF assms(1)]) (auto simp: direct_event_def assms(2) split: event.split)

text \<open>A session on the mini host: two connections, a recovery refused, and one that succeeds.\<close>

lemma demo_session_laws: "session_laws demo_system mh_account"
proof -
  have "remote_quiet P demo_system" for P
    by (simp add: remote_quiet_def demo_system_def offline_http_def offline_service_def call_keeps_def)
  then show ?thesis
    by (simp add: session_laws_def) (simp add: demo_system_def mini_host_maintenance call_keeps_def)
qed

lemma demo_fresh: "fresh_process mh_account mini_process"
  by (simp add: fresh_process_def mini_process_def mh_start_def)

lemma demo_direct: "is_absolute p \<Longrightarrow> direct_route demo_system (route_sqlite p)"
  by (simp add: direct_route_def route_sqlite_def demo_system_def mini_host_direct)

lemma demo_environment: "direct_environment demo_system"
proof -
  have "route = route_sqlite ''/d/a.db''" if "route_from_env demo_system s = Some (Inr route, s')" for s route s'
    using that by (auto simp: route_from_env_def demo_system_def demo_env_def route_from_env_values_def io_iffs
        on_world_def ask_def split: if_splits)
  then show ?thesis
    using demo_direct [of "''/d/a.db''"] by (auto simp: direct_environment_def is_absolute_def)
qed

definition demo_open :: "(mini_host process, dactyl_error, ref_num connection) io" where
  "demo_open = connection_open_with_options_and_context demo_system (route_sqlite ''/d/a.db'')
     (quick_options ReadWrite) None"

definition demo_recover ::
  "ref_num connection \<Rightarrow> (mini_host process, dactyl_error, recovery_result result \<times> ref_num connection) io" where
  "demo_recover c s = map_option (\<lambda>(x, s'). (Inr x, s')) (connection_recover demo_system c archive_options s)"

lemma demo_run:
  obtains c d e \<sigma> where
    "runs (session_step demo_system) \<lparr>ses_process = mini_process, ses_connections = []\<rparr>
       [Opened c, Opened d, Recovered c False, Dropped d, Recovered e True] \<sigma>"
    "length (ses_connections \<sigma>) = 1" "direct_connection demo_system c" "direct_connection demo_system d"
proof -
  have "returns (io_bind demo_open (\<lambda>c. io_bind demo_open (\<lambda>d. io_bind (demo_recover c) (\<lambda>q.
      io_bind (connection_drop demo_system d) (\<lambda>_. io_bind (demo_recover (snd q)) (\<lambda>r.
        io_return (fst q, fst r)))))) mini_process) (\<lambda>x _. isl (fst x) \<and> \<not> isl (snd x))"
    by code_simp
  then obtain x s where x: "io_bind demo_open (\<lambda>c. io_bind demo_open (\<lambda>d. io_bind (demo_recover c) (\<lambda>q.
      io_bind (connection_drop demo_system d) (\<lambda>_. io_bind (demo_recover (snd q)) (\<lambda>r.
        io_return (fst q, fst r)))))) mini_process = Some (Inr x, s)" "isl (fst x)" "\<not> isl (snd x)"
    by (rule returnsE) blast
  then obtain c s1 d s2 q e s3 s4 r f where
    run: "demo_open mini_process = Some (Inr c, s1)" "demo_open s1 = Some (Inr d, s2)"
      "demo_recover c s2 = Some (Inr (q, e), s3)" "connection_drop demo_system d s3 = Some (Inr (), s4)"
      "demo_recover e s4 = Some (Inr (r, f), s)" and isl: "isl q" "\<not> isl r"
    by (auto simp: io_bind_Some_iff io_iffs)
  have rec: "connection_recover demo_system c archive_options s2 = Some ((q, e), s3)"
    "connection_recover demo_system e archive_options s4 = Some ((r, f), s)"
    using run(3,5) by (auto simp: demo_recover_def)
  have "direct_route demo_system (route_sqlite ''/d/a.db'')" by (rule demo_direct) (simp add: is_absolute_def)
  then have direct: "direct_connection demo_system c" "direct_connection demo_system d"
    using run(1,2) unfolding demo_open_def by (blast intro: opened_direct)+
  note opened = session_step.opens [OF run(1) [unfolded demo_open_def], of "[]"]
    session_step.opens [OF run(2) [unfolded demo_open_def], of "[c]"]
  note recovered = session_step.recovers [OF rec(1), of "[d]" "[]"] session_step.recovers [OF rec(2), of "[]" "[]"]
  note dropped = session_step.drops [OF run(4), of "[]" "[e]"]
  let ?start = "\<lparr>ses_process = mini_process, ses_connections = []\<rparr>"
  have run0: "runs (session_step demo_system) ?start [] ?start" by (rule runs.runs_none)
  note run1 = runs.runs_step [OF run0 opened(1)]
  note run2 = runs.runs_step [OF run1 opened(2)]
  note run3 = runs.runs_step [OF run2 recovered(1) [simplified]]
  note run4 = runs.runs_step [OF run3 dropped [simplified]]
  from runs.runs_step [OF run4 recovered(2) [simplified]] isl direct show thesis
    by (intro that [of c d e "\<lparr>ses_process = s, ses_connections = [f]\<rparr>"]) simp_all
qed





end
