(* ===== verification/Library_Total.thy ===== *)
theory Library_Total
  imports Recovery_Total Connection
begin

text \<open>
  The calls of \<open>src/lib.rs\<close> but the backup return: opening and dropping a connection, the operations
  on it with statements that have a finite result, recovery, and the calls that open a connection
  of their own. A backup copies until SQLite says it is done; \<open>Sqlite_Backup\<close> states when that ends.
\<close>

section \<open>Calls on the process\<close>

lemma total_on_world [total_intros]: "total m \<Longrightarrow> total (on_world m)"
  by (auto simp: total_def on_world_def split: option.splits)

lemma total_registration [total_intros]:
  "total (register_connection H path)" "total (unregister_connection H path)" "total (has_other_connection H path)"
proof -
  have key: "total (on_world (path_key H path))" for path
    by (intro total_on_world total_path_key)
  have known: "total (\<lambda>s. if proc_poisoned s then Some (r s, s) else Some (q s, u s))" for r q u
    by (simp add: total_def)
  show "total (register_connection H path)" "total (unregister_connection H path)" "total (has_other_connection H path)"
    unfolding register_connection_def unregister_connection_def has_other_connection_def
    by (intro total_bind key; auto simp: total_def io_return_def split: option.split)+
qed

lemma total_open [total_intros]:
  "total (prepare_path H path mode)" "total (open_configured S path options)" "total (open_with_options H S path options)"
proof -
  show p: "total (prepare_path H path mode)" for mode
    unfolding prepare_path_def validate_existing_sqlite_header_def by (intro total_intros)
  have conf: "configure_connection S db options w \<noteq> None" for db w
    by (intro total_at total_intros)
  show o: "total (open_configured S path options)"
    unfolding open_configured_def
    by (intro total_bind total_connection)
      (auto simp: total_def conf simp del: not_None_eq split: option.split sum.split)
  have reg: "register_connection H path s \<noteq> None" for s
    by (intro total_at total_intros)
  have ident: "io_bind (on_world (file_identity H path)) (\<lambda>i. io_return (f i)) s \<noteq> None"
    for f :: "(nat \<times> nat) option \<Rightarrow> sqlite_adapter" and s
    by (intro total_at total_intros)
  show "total (open_with_options H S path options)"
    unfolding open_with_options_def
    by (intro total_bind total_on_world p o total_basic)
      (auto simp: total_def reg ident simp del: not_None_eq split: option.split sum.split)
qed

lemma total_drop [total_intros]: "total (drop_adapter H S a)"
  unfolding drop_adapter_def by (intro total_bind total_registration) (simp add: total_def)

section \<open>The remote backends\<close>

lemma total_neon [total_intros]:
  "total (neon_read H a sql params)" "total (neon_write H a sql params)" "total (neon_atomic H a ops)"
proof -
  have post: "total (neon_post H req label)" for req label
    by (auto simp: total_def neon_post_def split: prod.split sum.split)
  have q: "total (neon_query H a sql params)" "total (neon_batch H a ops)" for sql params
    unfolding neon_query_def neon_batch_def by (intro total_intros post)+
  show "total (neon_read H a sql params)" "total (neon_write H a sql params)" "total (neon_atomic H a ops)"
    unfolding neon_read_def neon_write_def neon_atomic_def by (intro total_intros q)+
qed

lemma total_supabase_send [total_intros]: "total (supabase_send H a from_slice path request)"
  by (auto simp: total_def supabase_send_def send_request_def split: prod.split sum.split post_outcome.split)

lemma total_supabase [total_intros]:
  "total (supabase_read H J a sql params)" "total (supabase_write H a sql params)" "total (supabase_atomic H J a ops)"
  unfolding supabase_read_def supabase_write_def supabase_atomic_def supabase_request_def
  by (intro total_intros)+

section \<open>The facade\<close>

text \<open>Neon's HTTP client is built when its connection is opened, and building it may panic.\<close>

lemma total_connection_open:
  assumes "\<forall>w. client_builds (sys_neon Y) w"
  shows "total (connection_open_with_options_and_context Y route options ctx)"
proof -
  have neon: "total (neon_new (sys_neon Y) endpoint bearer options ctx)" for endpoint bearer
    using assms by (simp add: total_def neon_new_def)
  show ?thesis
    unfolding connection_open_with_options_and_context_def build_adapter_def
    by (cases "route_datastore route") (simp_all only: datastore.case, (intro total_intros neon)+)
qed

lemma total_connection_drop [total_intros]: "total (connection_drop Y c)"
  unfolding connection_drop_def by (cases "conn_adapter c") (simp_all only: backend.case, (intro total_intros)+)

lemma total_connection_calls:
  assumes laws: "result_laws (sys_sqlite Y) T left"
  shows "sql \<in> T \<Longrightarrow> total (connection_read Y c sql params)" and "sql \<in> T \<Longrightarrow> total (connection_write Y c sql params)"
    and "\<forall>op \<in> set ops. op_sql op \<in> T \<Longrightarrow> total (connection_atomic Y c ops)"
    and "total (connection_inspect_schema Y c)" and "total (connection_verify_integrity Y c)"
proof -
  show "total (connection_read Y c sql params)" if "sql \<in> T"
    unfolding connection_read_def
    by (cases "conn_adapter c")
      (simp_all only: backend.case, (intro total_intros total_operations [OF laws that])+)
  have "total (connection_write_result Y c sql params)" if "sql \<in> T"
    unfolding connection_write_result_def
    by (cases "conn_adapter c")
      (simp_all only: backend.case, (intro total_intros total_operations [OF laws that])+)
  then show "total (connection_write Y c sql params)" if "sql \<in> T"
    unfolding connection_write_def using that by (intro total_intros)
  show "total (connection_atomic Y c ops)" if "\<forall>op \<in> set ops. op_sql op \<in> T"
    unfolding connection_atomic_def
    by (cases "conn_adapter c")
      (simp_all only: backend.case, (intro total_intros total_atomic [OF laws that])+)
  show "total (connection_inspect_schema Y c)" "total (connection_verify_integrity Y c)"
    unfolding connection_inspect_schema_def connection_verify_integrity_def default_inspect_schema_def
      neon_inspect_schema_def default_verify_integrity_def
    by (cases "conn_adapter c"; simp only: backend.case; intro total_intros total_inspections [OF laws])+
qed

lemma total_use_once: "(\<And>c. total (f c)) \<Longrightarrow> total (use_once Y f c)"
  unfolding use_once_def by (intro total_intros)

lemma total_environment [total_intros]: "total (route_from_env Y)"
  unfolding route_from_env_def by (intro total_intros)

section \<open>Properties\<close>



end
