(* ===== verification/Sqlite_Ffi.thy ===== *)
theory Sqlite_Ffi
  imports Sqlite_Statement
begin

text \<open>
  The methods of \<open>Api\<close> in \<open>src/adapter/sqlite/ffi.rs\<close> over the C functions they call: which
  constant arguments each adds. The C functions are parameters, with the parameters of the C
  signatures; 0 is the null pointer, memory behind a data pointer is a byte list. \<open>ffi_api\<close> is
  the interface the driver is modelled on.
\<close>

section \<open>The loaded functions\<close>

record 'w c_functions =
  c_open_v2 :: "string \<Rightarrow> int \<Rightarrow> nat \<Rightarrow> 'w \<Rightarrow> (int \<times> nat) \<times> 'w"
  c_close :: "nat \<Rightarrow> 'w \<Rightarrow> int \<times> 'w"
  c_busy_timeout :: "nat \<Rightarrow> int \<Rightarrow> 'w \<Rightarrow> int \<times> 'w"
  c_exec :: "nat \<Rightarrow> string \<Rightarrow> nat \<Rightarrow> nat \<Rightarrow> nat \<Rightarrow> 'w \<Rightarrow> int \<times> 'w"
  c_finalize :: "nat \<Rightarrow> 'w \<Rightarrow> int \<times> 'w"
  c_prepare_v2 :: "nat \<Rightarrow> string \<Rightarrow> int \<Rightarrow> nat \<Rightarrow> 'w \<Rightarrow> (int \<times> nat) \<times> 'w"
  c_bind_null :: "nat \<Rightarrow> int \<Rightarrow> 'w \<Rightarrow> int \<times> 'w"
  c_bind_int64 :: "nat \<Rightarrow> int \<Rightarrow> i64 \<Rightarrow> 'w \<Rightarrow> int \<times> 'w"
  c_bind_double :: "nat \<Rightarrow> int \<Rightarrow> f64 \<Rightarrow> 'w \<Rightarrow> int \<times> 'w"
  c_bind_text :: "nat \<Rightarrow> int \<Rightarrow> u8 list \<Rightarrow> int \<Rightarrow> nat \<Rightarrow> 'w \<Rightarrow> int \<times> 'w"
  c_bind_blob :: "nat \<Rightarrow> int \<Rightarrow> u8 list \<Rightarrow> int \<Rightarrow> nat \<Rightarrow> 'w \<Rightarrow> int \<times> 'w"
  c_step :: "nat \<Rightarrow> 'w \<Rightarrow> int \<times> 'w"
  c_backup_init :: "nat \<Rightarrow> string \<Rightarrow> nat \<Rightarrow> string \<Rightarrow> 'w \<Rightarrow> nat \<times> 'w"
  c_backup_step :: "nat \<Rightarrow> int \<Rightarrow> 'w \<Rightarrow> int \<times> 'w"
  c_backup_finish :: "nat \<Rightarrow> 'w \<Rightarrow> int \<times> 'w"
  c_errmsg :: "nat \<Rightarrow> 'w \<Rightarrow> string option"
  c_errcode :: "nat \<Rightarrow> 'w \<Rightarrow> int"
  c_extended_errcode :: "nat \<Rightarrow> 'w \<Rightarrow> int"
  c_column_count :: "nat \<Rightarrow> 'w \<Rightarrow> int"
  c_column_name :: "nat \<Rightarrow> int \<Rightarrow> 'w \<Rightarrow> string option"
  c_column_type :: "nat \<Rightarrow> int \<Rightarrow> 'w \<Rightarrow> int"
  c_column_int64 :: "nat \<Rightarrow> int \<Rightarrow> 'w \<Rightarrow> i64"
  c_column_double :: "nat \<Rightarrow> int \<Rightarrow> 'w \<Rightarrow> f64"
  c_column_text :: "nat \<Rightarrow> int \<Rightarrow> 'w \<Rightarrow> u8 list option"
  c_column_bytes :: "nat \<Rightarrow> int \<Rightarrow> 'w \<Rightarrow> int"
  c_column_blob :: "nat \<Rightarrow> int \<Rightarrow> 'w \<Rightarrow> u8 list option"
  c_changes64 :: "nat \<Rightarrow> 'w \<Rightarrow> i64"
  c_last_insert_rowid :: "nat \<Rightarrow> 'w \<Rightarrow> i64"

section \<open>The wrappers\<close>

text \<open>
  No VFS name, no callback, the statement up to its NUL and no tail pointer; bound bytes are not
  copied by SQLite (a null destructor).
\<close>

definition ffi_open_v2 :: "'w c_functions \<Rightarrow> string \<Rightarrow> int \<Rightarrow> 'w \<Rightarrow> (int \<times> nat) \<times> 'w" where
  "ffi_open_v2 F filename flags = c_open_v2 F filename flags 0"

definition ffi_close :: "'w c_functions \<Rightarrow> nat \<Rightarrow> 'w \<Rightarrow> int \<times> 'w" where
  "ffi_close F database = c_close F database"

definition ffi_busy_timeout :: "'w c_functions \<Rightarrow> nat \<Rightarrow> int \<Rightarrow> 'w \<Rightarrow> int \<times> 'w" where
  "ffi_busy_timeout F database milliseconds = c_busy_timeout F database milliseconds"

definition ffi_exec :: "'w c_functions \<Rightarrow> nat \<Rightarrow> string \<Rightarrow> 'w \<Rightarrow> int \<times> 'w" where
  "ffi_exec F database sql = c_exec F database sql 0 0 0"

definition ffi_finalize :: "'w c_functions \<Rightarrow> nat \<Rightarrow> 'w \<Rightarrow> int \<times> 'w" where
  "ffi_finalize F statement = c_finalize F statement"

definition ffi_prepare_v2 :: "'w c_functions \<Rightarrow> nat \<Rightarrow> string \<Rightarrow> 'w \<Rightarrow> (int \<times> nat) \<times> 'w" where
  "ffi_prepare_v2 F database sql = c_prepare_v2 F database sql (-1) 0"

definition ffi_bind_null :: "'w c_functions \<Rightarrow> nat \<Rightarrow> int \<Rightarrow> 'w \<Rightarrow> int \<times> 'w" where
  "ffi_bind_null F statement index = c_bind_null F statement index"

definition ffi_bind_int64 :: "'w c_functions \<Rightarrow> nat \<Rightarrow> int \<Rightarrow> i64 \<Rightarrow> 'w \<Rightarrow> int \<times> 'w" where
  "ffi_bind_int64 F statement index value = c_bind_int64 F statement index value"

definition ffi_bind_double :: "'w c_functions \<Rightarrow> nat \<Rightarrow> int \<Rightarrow> f64 \<Rightarrow> 'w \<Rightarrow> int \<times> 'w" where
  "ffi_bind_double F statement index value = c_bind_double F statement index value"

definition ffi_bind_text :: "'w c_functions \<Rightarrow> nat \<Rightarrow> int \<Rightarrow> u8 list \<Rightarrow> int \<Rightarrow> 'w \<Rightarrow> int \<times> 'w" where
  "ffi_bind_text F statement index value byte_count = c_bind_text F statement index value byte_count 0"

definition ffi_bind_blob :: "'w c_functions \<Rightarrow> nat \<Rightarrow> int \<Rightarrow> u8 list \<Rightarrow> int \<Rightarrow> 'w \<Rightarrow> int \<times> 'w" where
  "ffi_bind_blob F statement index value byte_count = c_bind_blob F statement index value byte_count 0"

definition ffi_step :: "'w c_functions \<Rightarrow> nat \<Rightarrow> 'w \<Rightarrow> int \<times> 'w" where
  "ffi_step F statement = c_step F statement"

definition ffi_backup_init :: "'w c_functions \<Rightarrow> nat \<Rightarrow> string \<Rightarrow> nat \<Rightarrow> string \<Rightarrow> 'w \<Rightarrow> nat \<times> 'w" where
  "ffi_backup_init F destination destination_name source source_name = c_backup_init F destination destination_name source source_name"

definition ffi_backup_step :: "'w c_functions \<Rightarrow> nat \<Rightarrow> int \<Rightarrow> 'w \<Rightarrow> int \<times> 'w" where
  "ffi_backup_step F backup pages = c_backup_step F backup pages"

definition ffi_backup_finish :: "'w c_functions \<Rightarrow> nat \<Rightarrow> 'w \<Rightarrow> int \<times> 'w" where
  "ffi_backup_finish F backup = c_backup_finish F backup"

definition ffi_extended_errcode :: "'w c_functions \<Rightarrow> nat \<Rightarrow> 'w \<Rightarrow> int" where
  "ffi_extended_errcode F database = c_extended_errcode F database"

definition ffi_column_count :: "'w c_functions \<Rightarrow> nat \<Rightarrow> 'w \<Rightarrow> int" where
  "ffi_column_count F statement = c_column_count F statement"

definition ffi_column_name :: "'w c_functions \<Rightarrow> nat \<Rightarrow> int \<Rightarrow> 'w \<Rightarrow> string option" where
  "ffi_column_name F statement column = c_column_name F statement column"

definition ffi_column_type :: "'w c_functions \<Rightarrow> nat \<Rightarrow> int \<Rightarrow> 'w \<Rightarrow> int" where
  "ffi_column_type F statement column = c_column_type F statement column"

definition ffi_column_int64 :: "'w c_functions \<Rightarrow> nat \<Rightarrow> int \<Rightarrow> 'w \<Rightarrow> i64" where
  "ffi_column_int64 F statement column = c_column_int64 F statement column"

definition ffi_column_double :: "'w c_functions \<Rightarrow> nat \<Rightarrow> int \<Rightarrow> 'w \<Rightarrow> f64" where
  "ffi_column_double F statement column = c_column_double F statement column"

definition ffi_column_text :: "'w c_functions \<Rightarrow> nat \<Rightarrow> int \<Rightarrow> 'w \<Rightarrow> u8 list option" where
  "ffi_column_text F statement column = c_column_text F statement column"

definition ffi_column_bytes :: "'w c_functions \<Rightarrow> nat \<Rightarrow> int \<Rightarrow> 'w \<Rightarrow> int" where
  "ffi_column_bytes F statement column = c_column_bytes F statement column"

definition ffi_column_blob :: "'w c_functions \<Rightarrow> nat \<Rightarrow> int \<Rightarrow> 'w \<Rightarrow> u8 list option" where
  "ffi_column_blob F statement column = c_column_blob F statement column"

definition ffi_changes64 :: "'w c_functions \<Rightarrow> nat \<Rightarrow> 'w \<Rightarrow> i64" where
  "ffi_changes64 F database = c_changes64 F database"

definition ffi_last_insert_rowid :: "'w c_functions \<Rightarrow> nat \<Rightarrow> 'w \<Rightarrow> i64" where
  "ffi_last_insert_rowid F database = c_last_insert_rowid F database"

section \<open>The interface of the driver\<close>

text \<open>The driver binds a text or a blob with the number of its bytes.\<close>

definition ffi_api :: "'w c_functions \<Rightarrow> 'w sqlite_api" where
  "ffi_api F =
     \<lparr>open_v2 = ffi_open_v2 F, close_db = ffi_close F, errmsg = c_errmsg F, errcode = c_errcode F,
      extended_errcode = ffi_extended_errcode F, busy_timeout = ffi_busy_timeout F, exec = ffi_exec F,
      prepare_v2 = ffi_prepare_v2 F, finalize = ffi_finalize F, bind_null = ffi_bind_null F,
      bind_int64 = ffi_bind_int64 F, bind_double = ffi_bind_double F,
      bind_text = (\<lambda>statement index v. ffi_bind_text F statement index (to_utf8 v) (int (length v))),
      bind_blob = (\<lambda>statement index v. ffi_bind_blob F statement index v (int (length v))),
      step = ffi_step F, column_count = ffi_column_count F, column_name = ffi_column_name F,
      column_type = ffi_column_type F, column_int64 = ffi_column_int64 F, column_double = ffi_column_double F,
      column_text = ffi_column_text F, column_bytes = ffi_column_bytes F, column_blob = ffi_column_blob F,
      changes64 = ffi_changes64 F, last_insert_rowid = ffi_last_insert_rowid F,
      backup_init = ffi_backup_init F, backup_step = ffi_backup_step F, backup_finish = ffi_backup_finish F\<rparr>"

text \<open>
  C reads \<open>byte_count\<close> bytes from the pointer it is given, as \<open>sqlite3_bind_text\<close> documents. A
  value that is bound at all is bound whole: the count fits a C \<open>int\<close> and is the length.
\<close>

definition c_read :: "u8 list \<Rightarrow> int \<Rightarrow> u8 list option" where
  "c_read memory n = (if 0 \<le> n \<and> n \<le> int (length memory) \<and> n < 2 ^ 31 then Some (take (nat n) memory) else None)"

lemma bound_whole:
  assumes "bind_one (ffi_api F) st i p w = Inr x"
  shows "case p of
      PText v \<Rightarrow> x = c_bind_text F st i (to_utf8 v) (int (length v)) 0 w \<and>
        c_read (to_utf8 v) (int (length v)) = Some (to_utf8 v)
    | PBlob v \<Rightarrow> x = c_bind_blob F st i v (int (length v)) 0 w \<and> c_read v (int (length v)) = Some v
    | _ \<Rightarrow> True"
  using assms
  by (auto simp: bind_one_def ffi_api_def ffi_bind_text_def ffi_bind_blob_def c_read_def to_utf8_def c_int_max_def
      split: parameter.splits if_splits)

end
