(* ===== verification/Recovery_Copy.thy ===== *)
theory Recovery_Copy
  imports Recovery_Rebuild
begin

text \<open>
  What the copy of a table copies: every row of the source table, once and in order, with the
  value of every column unchanged, after the rows the destination had.
\<close>

section \<open>Values of SQLite\<close>

datatype sql_value = SNull | SInteger i64 | SReal f64 | SText "u8 list" | SBlob "u8 list"

text \<open>The value a column holds, as the column functions give it.\<close>

definition value_at :: "'w sqlite_api \<Rightarrow> nat \<Rightarrow> 'w \<Rightarrow> int \<Rightarrow> sql_value option" where
  "value_at S st w i =
     (let kind = column_type S st i w; len = column_bytes S st i w in
      if kind = SQLITE_NULL then Some SNull
      else if kind = SQLITE_INTEGER then Some (SInteger (column_int64 S st i w))
      else if kind = SQLITE_FLOAT then Some (SReal (column_double S st i w))
      else if kind = SQLITE_TEXT then map_option SText (raw_slice (column_text S st i w) len)
      else if kind = SQLITE_BLOB then map_option SBlob (raw_slice (column_blob S st i w) len)
      else None)"

text \<open>The value a bound parameter stands for.\<close>

definition param_value :: "parameter \<Rightarrow> sql_value" where
  "param_value p =
     (case p of
        PNull \<Rightarrow> SNull
      | PBool b \<Rightarrow> SInteger (if b then 1 else 0)
      | PInteger v \<Rightarrow> SInteger v
      | PReal v \<Rightarrow> SReal v
      | PText s \<Rightarrow> SText (to_utf8 s)
      | PBlob bs \<Rightarrow> SBlob bs)"

lemma from_utf8_bytes: "from_utf8 bs = Some s \<Longrightarrow> to_utf8 s = bs"
proof -
  have "of_nat (byte (char_of (unat b))) = b" for b :: u8
    using unsigned_less [of b, where ?'a = nat] by simp
  then show "from_utf8 bs = Some s \<Longrightarrow> to_utf8 s = bs"
    by (auto simp: from_utf8_def to_utf8_def comp_def split: if_splits)
qed

lemma copied_value:
  assumes "json_laws J" and "copied_parameter S J st w i = Some (Inr p)"
  shows "value_at S st w (int i) = Some (param_value p)"
proof -
  have i: "int i \<le> c_int_max" using assms(2) by (auto simp: copied_parameter_def split: if_splits)
  then obtain v where "column_value S J st w (int i) = Some (Inr v)"
    using assms(2) by (auto simp: copied_parameter_def split: option.splits sum.splits)
  then have kinds: "column_type S st (int i) w \<in>
      {SQLITE_NULL, SQLITE_INTEGER, SQLITE_FLOAT, SQLITE_TEXT, SQLITE_BLOB}"
    by (auto simp: column_value_def Let_def split: if_splits)
  note c = copied_values_keep_class [OF assms i]
  from kinds consider "column_type S st (int i) w = SQLITE_NULL" | "column_type S st (int i) w = SQLITE_INTEGER"
    | "column_type S st (int i) w = SQLITE_FLOAT" | "column_type S st (int i) w = SQLITE_TEXT"
    | "column_type S st (int i) w = SQLITE_BLOB" by blast
  then show ?thesis
    using c by cases (auto simp: value_at_def param_value_def Let_def raw_slice_def dest: from_utf8_bytes)
qed

section \<open>What is assumed of SQLite\<close>

text \<open>
  A view of the two databases for the copy of one table: the statements that read it and the
  rows they still have to give, the statements that insert and their bound values, the rows of
  the source table and those of the destination.
\<close>

record 'w copy_view =
  selects :: "nat \<Rightarrow> 'w \<Rightarrow> bool"
  pending :: "nat \<Rightarrow> 'w \<Rightarrow> sql_value list list"
  inserts :: "nat \<Rightarrow> 'w \<Rightarrow> bool"
  bound :: "nat \<Rightarrow> 'w \<Rightarrow> int \<Rightarrow> sql_value"
  source_rows :: "'w \<Rightarrow> sql_value list list"
  dest_rows :: "'w \<Rightarrow> sql_value list list"

text \<open>
  What a call does to the destination: it adds rows and leaves alone whatever else is \<open>kept\<close>, for
  instance the other tables.
\<close>

definition adds :: "'w copy_view \<Rightarrow> ('w \<Rightarrow> 'c) \<Rightarrow> sql_value list list \<Rightarrow> 'w \<Rightarrow> 'w \<Rightarrow> bool" where
  "adds V kept rows w w1 \<longleftrightarrow> dest_rows V w1 = dest_rows V w @ rows \<and> kept w1 = kept w"

definition undisturbed :: "'w copy_view \<Rightarrow> 'w \<Rightarrow> 'w \<Rightarrow> bool" where
  "undisturbed V w w1 \<longleftrightarrow> (\<forall>st. selects V st w \<longrightarrow> selects V st w1 \<and> pending V st w1 = pending V st w)"

definition binds :: "'w copy_view \<Rightarrow> ('w \<Rightarrow> 'c) \<Rightarrow> nat \<Rightarrow> int \<Rightarrow> sql_value \<Rightarrow> 'w \<Rightarrow> int \<times> 'w \<Rightarrow> bool" where
  "binds V kept st i v w q \<longleftrightarrow> fst q = SQLITE_OK \<longrightarrow>
     inserts V st (snd q) \<and> bound V st (snd q) = (bound V st w)(i := v) \<and>
     adds V kept [] w (snd q) \<and> undisturbed V w (snd q)"

text \<open>
  A \<open>SELECT\<close> gives the rows of the source one by one and then is done, and changes nothing; a
  call that binds a value of an \<open>INSERT\<close> sets that value; its step appends the bound values as a
  row of the destination or fails, and gives no row. The statements do not disturb each other.
  A zero-length BLOB has no value in the sense of \<open>value_at\<close>, since the code has no defined
  result on one; the laws are about tables without them.
\<close>

definition select_laws ::
  "'w sqlite_api \<Rightarrow> nat \<Rightarrow> string \<Rightarrow> nat \<Rightarrow> 'w copy_view \<Rightarrow> ('w \<Rightarrow> 'c) \<Rightarrow> bool" where
  "select_laws S source sel n V kept \<longleftrightarrow>
     (\<forall>w st w1. prepare_v2 S source sel w = ((SQLITE_OK, st), w1) \<longrightarrow>
        selects V st w1 \<and> pending V st w1 = source_rows V w \<and> adds V kept [] w w1) \<and>
     (\<forall>st w code w1. selects V st w \<longrightarrow> step S st w = (code, w1) \<longrightarrow> code = SQLITE_ROW \<or> code = SQLITE_DONE \<longrightarrow>
        selects V st w1 \<and> adds V kept [] w w1 \<and>
        (case pending V st w of
           [] \<Rightarrow> code = SQLITE_DONE
         | r # rs \<Rightarrow> code = SQLITE_ROW \<and> pending V st w1 = rs \<and> length r = n \<and>
             (\<forall>i < n. value_at S st w1 (int i) = Some (r ! i)))) \<and>
     (\<forall>st w. selects V st w \<longrightarrow> adds V kept [] w (snd (finalize S st w)))"

definition insert_laws ::
  "'w sqlite_api \<Rightarrow> nat \<Rightarrow> string \<Rightarrow> nat \<Rightarrow> 'w copy_view \<Rightarrow> ('w \<Rightarrow> 'c) \<Rightarrow> bool" where
  "insert_laws S dest ins n V kept \<longleftrightarrow>
     (\<forall>w st w1. prepare_v2 S dest ins w = ((SQLITE_OK, st), w1) \<longrightarrow>
        inserts V st w1 \<and> adds V kept [] w w1 \<and> undisturbed V w w1) \<and>
     (\<forall>st i w. inserts V st w \<longrightarrow>
        binds V kept st i SNull w (bind_null S st i w) \<and>
        (\<forall>v. binds V kept st i (SInteger v) w (bind_int64 S st i v w)) \<and>
        (\<forall>v. binds V kept st i (SReal v) w (bind_double S st i v w)) \<and>
        (\<forall>s. binds V kept st i (SText (to_utf8 s)) w (bind_text S st i s w)) \<and>
        (\<forall>bs. binds V kept st i (SBlob bs) w (bind_blob S st i bs w))) \<and>
     (\<forall>st w code w1. inserts V st w \<longrightarrow> step S st w = (code, w1) \<longrightarrow> code \<noteq> SQLITE_ROW \<and>
        (code = SQLITE_DONE \<longrightarrow> inserts V st w1 \<and> undisturbed V w w1 \<and>
           adds V kept [map (\<lambda>i. bound V st w (1 + int i)) [0..<n]] w w1)) \<and>
     (\<forall>st w. inserts V st w \<longrightarrow>
        adds V kept [] w (snd (finalize S st w)) \<and> undisturbed V w (snd (finalize S st w)))"

lemma undisturbed_refl [simp]: "undisturbed V w w"
  by (simp add: undisturbed_def)

lemma undisturbed_trans: "undisturbed V w w1 \<Longrightarrow> undisturbed V w1 w2 \<Longrightarrow> undisturbed V w w2"
  by (simp add: undisturbed_def)

lemma adds_nothing [simp]: "adds V kept [] w w"
  by (simp add: adds_def)

lemma adds_trans: "adds V kept rs w w1 \<Longrightarrow> adds V kept rs' w1 w2 \<Longrightarrow> adds V kept (rs @ rs') w w2"
  by (simp add: adds_def)

lemmas adds_then = adds_trans [where rs = "[]", simplified] adds_trans [where rs' = "[]", simplified]

section \<open>Inserting one row\<close>

lemma bind_one_binds:
  assumes laws: "insert_laws S dest ins n V kept" and "inserts V st w" and "bind_one S st i p w = Inr q"
  shows "binds V kept st i (param_value p) w q"
proof -
  from laws have b: "binds V kept st i SNull w (bind_null S st i w) \<and>
        (\<forall>v. binds V kept st i (SInteger v) w (bind_int64 S st i v w)) \<and>
        (\<forall>v. binds V kept st i (SReal v) w (bind_double S st i v w)) \<and>
        (\<forall>s. binds V kept st i (SText (to_utf8 s)) w (bind_text S st i s w)) \<and>
        (\<forall>bs. binds V kept st i (SBlob bs) w (bind_blob S st i bs w))"
    using assms(2) by (simp add: insert_laws_def)
  with assms(3) show ?thesis
    by (cases p) (auto simp: bind_one_def param_value_def split: if_splits)
qed

lemma bind_from_binds:
  assumes laws: "insert_laws S dest ins n V kept"
  shows "inserts V st w \<Longrightarrow> bind_from S db st i ps w = Some (Inr u, w1) \<Longrightarrow>
     inserts V st w1 \<and> adds V kept [] w w1 \<and> undisturbed V w w1 \<and>
     (\<forall>k < length ps. bound V st w1 (i + int k) = param_value (ps ! k)) \<and>
     (\<forall>j < i. bound V st w1 j = bound V st w j)"
proof (induction ps arbitrary: i w)
  case Nil
  then show ?case by simp
next
  case (Cons p ps)
  from Cons.prems(2) obtain w2 where b: "bind_one S st i p w = Inr (SQLITE_OK, w2)"
    and r: "bind_from S db st (i + 1) ps w2 = Some (Inr u, w1)"
    by (auto split: if_splits sum.splits)
  from bind_one_binds [OF laws Cons.prems(1) b]
  have one: "inserts V st w2" "bound V st w2 = (bound V st w)(i := param_value p)"
    "adds V kept [] w w2" "undisturbed V w w2"
    by (simp_all add: binds_def)
  note rest = Cons.IH [OF one(1) r]
  have "bound V st w1 (i + int k) = param_value ((p # ps) ! k)" if "k < length (p # ps)" for k
  proof (cases k)
    case 0
    with rest one(2) show ?thesis by simp
  next
    case (Suc j)
    with rest that have "bound V st w1 (i + 1 + int j) = param_value (ps ! j)" by simp
    with Suc show ?thesis by (simp add: ac_simps)
  qed
  with rest one show ?case by (auto intro: undisturbed_trans adds_then(1))
qed

lemma insert_appends:
  assumes laws: "insert_laws S dest ins n V kept" and n: "length ps = n"
    and run: "execute_write S dest ins ps w = Some (Inr r, w')"
  shows "adds V kept [map param_value ps] w w' \<and> undisturbed V w w'"
proof -
  from run obtain st w1 w2 w3 u v where p: "prepare S dest ins w = Some (Inr st, w1)"
    and b: "bind_from S dest st 1 ps w1 = Some (Inr u, w2)" and d: "step_to_done S dest st w2 = Some (Inr v, w3)"
    and w': "w' = snd (finalize S st w3)"
    by (auto simp: execute_write_def with_statement_Some_iff io_bind_Some_iff bind_all_def)
  from p have "prepare_v2 S dest ins w = ((SQLITE_OK, st), w1)"
    by (auto simp: prepare_def split: prod.splits if_splits)
  with laws have s1: "inserts V st w1" "adds V kept [] w w1" "undisturbed V w w1"
    unfolding insert_laws_def by blast+
  note s2 = bind_from_binds [OF laws s1(1) b]
  obtain code w4 where st: "step S st w2 = (code, w4)" by (cases "step S st w2")
  with laws s2 have row: "code \<noteq> SQLITE_ROW" and added: "code = SQLITE_DONE \<longrightarrow> inserts V st w4 \<and> undisturbed V w2 w4 \<and>
      adds V kept [map (\<lambda>i. bound V st w2 (1 + int i)) [0..<n]] w2 w4"
    unfolding insert_laws_def by blast+
  from d st row have "code = SQLITE_DONE" "w3 = w4"
    by (auto simp: step_to_done.simps [of S dest st w2] split: if_splits)
  with added have s3: "inserts V st w3" "undisturbed V w2 w3"
    "adds V kept [map (\<lambda>i. bound V st w2 (1 + int i)) [0..<n]] w2 w3" by simp_all
  have "map (\<lambda>i. bound V st w2 (1 + int i)) [0..<n] = map param_value ps"
    using s2 n by (intro nth_equalityI) simp_all
  moreover have "adds V kept [] w3 w'" "undisturbed V w3 w'"
    using laws s3(1) unfolding insert_laws_def w' by blast+
  ultimately show ?thesis
    using s1 s2 s3 by (auto intro: undisturbed_trans adds_then)
qed

section \<open>Copying a table\<close>

lemma copied_row:
  assumes "json_laws J" and "partial_traverse (copied_parameter S J st w) [0..<n] = Some (Inr ps)"
    and "length r = n" and "\<forall>i < n. value_at S st w (int i) = Some (r ! i)"
  shows "map param_value ps = r"
proof (rule nth_equalityI)
  have len: "length ps = n" using partial_traverse_length [OF assms(2)] by simp
  then show "length (map param_value ps) = length r" using assms(3) by simp
  fix i
  assume "i < length (map param_value ps)"
  with len assms(2) have i: "i < n" "copied_parameter S J st w i = Some (Inr (ps ! i))"
    by (auto simp: partial_traverse_Inr_iff list_all2_conv_all_nth)
  from copied_value [OF assms(1) i(2)] assms(4) i(1) len show "map param_value ps ! i = r ! i" by simp
qed

lemma select_steps:
  assumes "select_laws S source sql n V kept" and "selects V st w" and "step S st w = (code, w1)"
    and "code = SQLITE_ROW \<or> code = SQLITE_DONE"
  shows "selects V st w1 \<and> adds V kept [] w w1 \<and>
     (case pending V st w of
        [] \<Rightarrow> code = SQLITE_DONE
      | r # rs \<Rightarrow> code = SQLITE_ROW \<and> pending V st w1 = rs \<and> length r = n \<and>
          (\<forall>i < n. value_at S st w1 (int i) = Some (r ! i)))"
  using assms unfolding select_laws_def by blast

lemma copy_rows_appends:
  assumes J: "json_laws J" and sel: "select_laws S source sql n V kept" and ins: "insert_laws S dest ins n V kept"
  shows "selects V st w \<Longrightarrow> copy_rows S J source dest st ins n w = Some (Inr u, w') \<Longrightarrow>
     selects V st w' \<and> adds V kept (pending V st w) w w'"
proof (induction "pending V st w" arbitrary: w)
  case Nil
  obtain code w1 where st: "step S st w = (code, w1)" by (cases "step S st w")
  have code: "code = SQLITE_ROW \<or> code = SQLITE_DONE"
    using Nil(3) st by (auto simp: copy_rows.simps [of S J source dest st ins n w] split: if_splits)
  from select_steps [OF sel Nil(2) st code] Nil(1) [symmetric] Nil(3) st show ?case
    by (simp add: copy_rows.simps [of S J source dest st ins n w])
next
  case (Cons r rs)
  obtain code w1 where st: "step S st w = (code, w1)" by (cases "step S st w")
  have "code = SQLITE_ROW \<or> code = SQLITE_DONE"
    using Cons(4) st by (auto simp: copy_rows.simps [of S J source dest st ins n w] split: if_splits)
  from select_steps [OF sel Cons.prems(1) st this] Cons.hyps(2) [symmetric]
  have one: "code = SQLITE_ROW" "selects V st w1" "adds V kept [] w w1" "pending V st w1 = rs"
    "length r = n" "\<forall>i < n. value_at S st w1 (int i) = Some (r ! i)"
    by simp_all
  from Cons(4) st one(1) obtain ps x w2 where ps: "partial_traverse (copied_parameter S J st w1) [0..<n] = Some (Inr ps)"
    and x: "execute_write S dest ins ps w1 = Some (Inr x, w2)"
    and rest: "copy_rows S J source dest st ins n w2 = Some (Inr u, w')"
    by (auto simp: copy_rows.simps [of S J source dest st ins n w] split: option.splits sum.splits)
  have "length ps = n" using partial_traverse_length [OF ps] by simp
  from insert_appends [OF ins this x] copied_row [OF J ps one(5,6)] one(2,4)
  have two: "adds V kept [r] w w2" "selects V st w2" "pending V st w2 = rs"
    by (auto simp: undisturbed_def intro: adds_then(1) [OF one(3)])
  from Cons.hyps(1) [OF two(3) [symmetric] two(2) rest] two(3) adds_trans [OF two(1)] Cons.hyps(2) [symmetric]
  show ?case by force
qed

lemma with_statement_copies:
  assumes J: "json_laws J" and sel: "select_laws S source sql n V kept" and ins: "insert_laws S dest ins n V kept"
    and run: "with_statement S source sql (\<lambda>st. copy_rows S J source dest st ins n) w = Some (Inr u, w')"
  shows "adds V kept (source_rows V w) w w'"
proof -
  from run obtain st w1 w2 where p: "prepare S source sql w = Some (Inr st, w1)"
    and k: "copy_rows S J source dest st ins n w1 = Some (Inr u, w2)" and w': "w' = snd (finalize S st w2)"
    by (auto simp: with_statement_Some_iff)
  from p have "prepare_v2 S source sql w = ((SQLITE_OK, st), w1)"
    by (auto simp: prepare_def split: prod.splits if_splits)
  with sel have s: "selects V st w1" "pending V st w1 = source_rows V w" "adds V kept [] w w1"
    unfolding select_laws_def by blast+
  note copied = copy_rows_appends [OF J sel ins s(1) k]
  with sel have "adds V kept [] w2 w'" unfolding select_laws_def w' by blast
  with copied s show ?thesis by (auto intro: adds_then)
qed

end
