(* ===== verification/Recovery_Contents.thy ===== *)
theory Recovery_Contents
  imports Recovery_Copy Sqlite_Keeps
begin

text \<open>
  What the rebuild leaves in the new database: the rows of every table of the source and no
  others. The one-table result of \<open>Recovery_Copy\<close> is lifted to the loop over all tables, and the
  statements around it, which read or define, are shown to leave the rows alone.
\<close>

section \<open>The rows of a database\<close>

text \<open>
  A view for each table. \<open>others V t\<close> are the rows of all tables but \<open>t\<close> and \<open>sqlite_sequence\<close>,
  which SQLite itself fills while rows are inserted into other tables.
\<close>

definition others ::
  "(string \<Rightarrow> 'w copy_view) \<Rightarrow> string \<Rightarrow> 'w \<Rightarrow> string \<Rightarrow> sql_value list list \<times> sql_value list list" where
  "others V t w =
     (\<lambda>u. (source_rows (V u) w, if u = t \<or> u = ''sqlite_sequence'' then [] else dest_rows (V u) w))"

abbreviation table_rows ::
  "(string \<Rightarrow> 'w copy_view) \<Rightarrow> 'w \<Rightarrow> string \<Rightarrow> sql_value list list \<times> sql_value list list" where
  "table_rows V \<equiv> others V ''sqlite_sequence''"

lemma others_cong:
  assumes "table_rows V w1 = table_rows V w"
  shows "others V t w1 = others V t w"
proof
  fix u
  from fun_cong [OF assms, of u] show "others V t w1 u = others V t w u"
    by (simp add: others_def split: if_splits)
qed

lemma table_rows_iff:
  "table_rows V w1 = table_rows V w \<longleftrightarrow>
     (\<forall>u. source_rows (V u) w1 = source_rows (V u) w \<and>
          (u \<noteq> ''sqlite_sequence'' \<longrightarrow> dest_rows (V u) w1 = dest_rows (V u) w))"
  by (auto simp: others_def fun_eq_iff)

section \<open>What is assumed of SQLite\<close>

text \<open>
  Reading statements (\<open>Q\<close> holds of them while they run), \<open>CREATE\<close> and \<open>PRAGMA\<close>, opening and
  closing leave the rows of all tables alone; the catalog names every table once and keeps
  \<open>CREATE\<close> statements; copying a table follows the laws of \<open>Recovery_Copy\<close>, with the other tables
  left alone; a table without columns has no rows.
\<close>

definition query_laws ::
  "'w sqlite_api \<Rightarrow> (string \<Rightarrow> 'w copy_view) \<Rightarrow> (nat \<Rightarrow> 'w \<Rightarrow> bool) \<Rightarrow> bool" where
  "query_laws S V Q \<longleftrightarrow>
     (\<forall>db sql c. take 6 sql \<in> {''SELECT'', ''PRAGMA''} \<longrightarrow>
        statement_laws S db sql (\<lambda>w. table_rows V w = c) (\<lambda>st w. Q st w \<and> table_rows V w = c)
          (\<lambda>w. table_rows V w = c))"

definition definition_laws :: "'w sqlite_api \<Rightarrow> (string \<Rightarrow> 'w copy_view) \<Rightarrow> bool" where
  "definition_laws S V \<longleftrightarrow>
     (\<forall>db sql c. take 6 sql \<in> {''CREATE'', ''PRAGMA''} \<longrightarrow> call_keeps (\<lambda>w. table_rows V w = c) (exec S db sql)) \<and>
     (\<forall>db ms c. call_keeps (\<lambda>w. table_rows V w = c) (busy_timeout S db ms)) \<and>
     (\<forall>p f c. call_keeps (\<lambda>w. table_rows V w = c) (open_v2 S p f)) \<and>
     (\<forall>db c. call_keeps (\<lambda>w. table_rows V w = c) (close_db S db))"

definition table_names :: "schema_object list \<Rightarrow> string list" where
  "table_names objects = map obj_name (filter is_table objects)"

definition catalog_laws :: "'w sqlite_api \<Rightarrow> 'n json_api \<Rightarrow> nat \<Rightarrow> string set \<Rightarrow> bool" where
  "catalog_laws S J source names \<longleftrightarrow>
     (\<forall>w objects w1. schema_objects S J source w = Some (Inr objects, w1) \<longrightarrow>
        distinct (table_names objects) \<and> set (table_names objects) = names \<and>
        (\<forall>x \<in> set objects. take 6 (obj_sql x) = ''CREATE'' \<and> obj_name x \<noteq> ''sqlite_sequence''))"

definition table_laws ::
  "'w sqlite_api \<Rightarrow> 'n json_api \<Rightarrow> nat \<Rightarrow> nat \<Rightarrow> string set \<Rightarrow> (string \<Rightarrow> 'w copy_view) \<Rightarrow> bool" where
  "table_laws S J source dest names V \<longleftrightarrow>
     (\<forall>t \<in> insert ''sqlite_sequence'' names. \<forall>w columns w1. table_columns_of S J source t w = Some (Inr columns, w1) \<longrightarrow>
        (columns = [] \<longrightarrow> source_rows (V t) w1 = []) \<and>
        select_laws S source (select_sql columns t) (length columns) (V t) (others V t) \<and>
        insert_laws S dest (insert_sql columns t) (length columns) (V t) (others V t))"

section \<open>Statements that leave the rows alone\<close>

abbreviation keeps_rows :: "(string \<Rightarrow> 'w copy_view) \<Rightarrow> ('w, 'e, 'a) io \<Rightarrow> bool" where
  "keeps_rows V m \<equiv> \<forall>c. keeps (\<lambda>w. table_rows V w = c) m"

lemma keeps_rowsD: "keeps_rows V m \<Longrightarrow> m w = Some (r, w') \<Longrightarrow> table_rows V w' = table_rows V w"
  using keepsD [of "\<lambda>v. table_rows V v = table_rows V w" m w r w'] by simp

lemma statement_lawsI:
  assumes "\<And>st w. R st w \<Longrightarrow> P w"
    and "\<And>w code st w1. P w \<Longrightarrow> prepare_v2 S db sql w = ((code, st), w1) \<Longrightarrow> R st w1"
    and "\<And>st i p w code w1. R st w \<Longrightarrow> bind_one S st i p w = Inr (code, w1) \<Longrightarrow> R st w1"
    and "\<And>st w code w1. R st w \<Longrightarrow> step S st w = (code, w1) \<Longrightarrow> R st w1"
    and "\<And>st w. P w \<Longrightarrow> P (snd (finalize S st w))"
  shows "statement_laws S db sql P R P"
  unfolding statement_laws_def bind_keeps_def step_keeps_def
  by (intro conjI allI impI) (metis assms)+

lemma rows_kept_query:
  assumes "query_laws S V Q" and "take 6 sql \<in> {''SELECT'', ''PRAGMA''}"
  shows "keeps_rows V (query_rows S J db sql ps)"
proof
  fix c
  from assms have "statement_laws S db sql (\<lambda>w. table_rows V w = c) (\<lambda>st w. Q st w \<and> table_rows V w = c)
      (\<lambda>w. table_rows V w = c)" unfolding query_laws_def by blast
  from query_rows_triple [OF this] show "keeps (\<lambda>w. table_rows V w = c) (query_rows S J db sql ps)"
    by (simp add: keeps_triple)
qed

lemma rows_kept_catalog:
  assumes "query_laws S V Q"
  shows "keeps_rows V (pragma_integer S J db name)" and "keeps_rows V (verify_integrity S J db)"
    and "keeps_rows V (schema_objects S J db)" and "keeps_rows V (has_sqlite_sequence S J db)"
    and "keeps_rows V (table_columns_of S J db t)"
proof -
  note q = rows_kept_query [OF assms, THEN spec]
  show i: "keeps_rows V (pragma_integer S J db name)" for name
    unfolding pragma_integer_def by (intro allI keeps_intros q) simp
  have t: "keeps_rows V (pragma_text S J db name)" for name
    unfolding pragma_text_def by (intro allI keeps_intros q) simp
  show "keeps_rows V (verify_integrity S J db)"
    unfolding verify_integrity_def by (intro allI keeps_intros q i [THEN spec] t [THEN spec]) simp
  show "keeps_rows V (schema_objects S J db)"
    unfolding schema_objects_def by (intro allI keeps_intros q) (simp add: schema_objects_sql_def)
  show "keeps_rows V (has_sqlite_sequence S J db)" "keeps_rows V (table_columns_of S J db t)"
    unfolding has_sqlite_sequence_def table_columns_of_def by (intro allI keeps_intros q, simp)+
qed

text \<open>The same of any predicate, under laws for the calls that are made.\<close>

lemma keeps_definitions:
  assumes exec: "call_keeps P (exec S db sql)" "call_keeps P (exec S db ''PRAGMA foreign_keys = ON'')"
    and busy: "\<And>ms. call_keeps P (busy_timeout S db ms)"
    and opens: "\<And>p f. call_keeps P (open_v2 S p f)" and closes: "\<And>d. call_keeps P (close_db S d)"
  shows "keeps P (run_sql S db operation sql)" and "keeps P (configure_connection S db options)"
    and "keeps P (open_database S path mode)" and "keeps P (close_or_drop S d)"
proof -
  have e: "keeps P (exec_sql S db q)" if "call_keeps P (exec S db q)" for q
    using that by (auto simp: keeps_def exec_sql_def split: prod.splits if_splits dest: call_keepsD)
  show "keeps P (run_sql S db operation sql)"
    unfolding run_sql_def by (intro keeps_intros e exec)
  have m: "keeps P (io_map_err g (exec_sql S db ''PRAGMA foreign_keys = ON''))" for g :: "sqlite_failure \<Rightarrow> dactyl_error"
    by (intro keeps_intros e exec)
  show "keeps P (configure_connection S db options)"
    by (auto simp: keeps_def configure_connection_def split: prod.splits if_splits
        dest: call_keepsD [OF busy] keepsD [OF m])
  show "keeps P (open_database S path mode)"
    by (auto simp: keeps_def open_database_def split: prod.splits if_splits
        dest: call_keepsD [OF opens] call_keeps_snd [OF closes])
  show "keeps P (close_or_drop S d)"
    by (auto simp: keeps_def close_or_drop_def close_connection_def drop_connection_def
        split: prod.splits sum.splits if_splits dest: call_keepsD [OF closes] call_keeps_snd [OF closes])
qed

lemma rows_kept_definition:
  assumes "definition_laws S V"
  shows "take 6 sql \<in> {''CREATE'', ''PRAGMA''} \<Longrightarrow> keeps_rows V (run_sql S db operation sql)"
    and "keeps_rows V (configure_connection S db options)"
    and "keeps_rows V (open_database S path mode)" and "keeps_rows V (close_or_drop S db)"
proof -
  note laws = assms [unfolded definition_laws_def]
  have exec: "call_keeps (\<lambda>w. table_rows V w = c) (exec S db sql)" if "take 6 sql \<in> {''CREATE'', ''PRAGMA''}" for sql c
    using laws that by blast
  have pragma: "take 6 ''PRAGMA foreign_keys = ON'' \<in> {''CREATE'', ''PRAGMA''}" by simp
  have rest: "call_keeps (\<lambda>w. table_rows V w = c) (busy_timeout S db ms)"
    "call_keeps (\<lambda>w. table_rows V w = c) (open_v2 S p f)" "call_keeps (\<lambda>w. table_rows V w = c) (close_db S d)"
    for c ms p f d
    using laws by blast+
  note k = keeps_definitions [OF _ exec [OF pragma] rest]
  show "keeps_rows V (run_sql S db operation sql)" if "take 6 sql \<in> {''CREATE'', ''PRAGMA''}"
    using k(1) [OF exec [OF that]] by blast
  note k = k [OF exec [OF pragma]]
  show "keeps_rows V (configure_connection S db options)" "keeps_rows V (open_database S path mode)"
    "keeps_rows V (close_or_drop S db)"
    using k(2-4) by blast+
qed

lemma rows_kept_traverse:
  assumes "\<And>x. x \<in> set xs \<Longrightarrow> keeps_rows V (f x)" and "io_traverse f xs w = Some (Inr ys, w')"
  shows "table_rows V w' = table_rows V w"
  using assms
proof (induction xs arbitrary: ys w)
  case Nil
  then show ?case by (simp add: io_iffs)
next
  case (Cons x xs)
  from Cons.prems(2) obtain y w1 zs where "f x w = Some (Inr y, w1)" "io_traverse f xs w1 = Some (Inr zs, w')"
    by (auto simp: io_iffs)
  with Cons.IH [of w1 zs] Cons.prems(1) keeps_rowsD [of V "f x" w] show ?case by (metis list.set_intros)
qed

section \<open>Copying the tables\<close>

lemma copy_table_adds:
  assumes J: "json_laws J" and q: "query_laws S V Q" and t: "table_laws S J source dest names V"
    and table: "table \<in> insert ''sqlite_sequence'' names"
    and run: "copy_table_rows S J source dest table w = Some (Inr u, w')"
  shows "others V table w' = others V table w \<and>
     (table \<noteq> ''sqlite_sequence'' \<longrightarrow>
        dest_rows (V table) w' = dest_rows (V table) w @ source_rows (V table) w)"
proof -
  from run obtain columns w1 where c: "table_columns_of S J source table w = Some (Inr columns, w1)"
    and r: "(if columns = [] then io_return ()
       else with_statement S source (select_sql columns table) (\<lambda>st.
         copy_rows S J source dest st (insert_sql columns table) (length columns))) w1 = Some (Inr u, w')"
    by (auto simp: copy_table_rows_def io_bind_Some_iff)
  have rows: "table_rows V w1 = table_rows V w" by (rule keeps_rowsD [OF rows_kept_catalog(5) [OF q] c])
  from t table c have laws: "columns = [] \<longrightarrow> source_rows (V table) w1 = []"
    "select_laws S source (select_sql columns table) (length columns) (V table) (others V table)"
    "insert_laws S dest (insert_sql columns table) (length columns) (V table) (others V table)"
    unfolding table_laws_def by blast+
  have "adds (V table) (others V table) (source_rows (V table) w1) w1 w'"
  proof (cases "columns = []")
    case True
    with r laws(1) show ?thesis by (simp add: io_apply)
  next
    case False
    with r with_statement_copies [OF J laws(2,3)] show ?thesis by simp
  qed
  moreover from rows have "source_rows (V table) w1 = source_rows (V table) w"
    "table \<noteq> ''sqlite_sequence'' \<longrightarrow> dest_rows (V table) w1 = dest_rows (V table) w"
    by (simp_all add: table_rows_iff)
  ultimately show ?thesis using others_cong [OF rows, of table] by (simp add: adds_def)
qed

lemma io_traverse_map: "io_traverse f (map g xs) = io_traverse (\<lambda>x. f (g x)) xs"
  by (induction xs) simp_all

text \<open>Every table of a list of distinct ones gets the rows of its source, the others none.\<close>

lemma copy_tables_add:
  assumes J: "json_laws J" and q: "query_laws S V Q" and t: "table_laws S J source dest names V"
  shows "distinct ts \<Longrightarrow> ''sqlite_sequence'' \<notin> set ts \<Longrightarrow> set ts \<subseteq> names \<Longrightarrow>
     io_traverse (copy_table_rows S J source dest) ts w = Some (Inr us, w') \<Longrightarrow>
     source_rows (V u) w' = source_rows (V u) w \<and>
     (u \<noteq> ''sqlite_sequence'' \<longrightarrow>
        dest_rows (V u) w' = dest_rows (V u) w @ (if u \<in> set ts then source_rows (V u) w else []))"
proof (induction ts arbitrary: w us)
  case Nil
  then show ?case by (simp add: io_iffs)
next
  case (Cons x ts)
  from Cons.prems(4) obtain y w1 ys where one: "copy_table_rows S J source dest x w = Some (Inr y, w1)"
    and rest: "io_traverse (copy_table_rows S J source dest) ts w1 = Some (Inr ys, w')"
    by (auto simp: io_iffs)
  from Cons.prems(3) have "x \<in> insert ''sqlite_sequence'' names" by simp
  from copy_table_adds [OF J q t this one] have "others V x w1 u = others V x w u"
    "x = u \<longrightarrow> u \<noteq> ''sqlite_sequence'' \<longrightarrow> dest_rows (V u) w1 = dest_rows (V u) w @ source_rows (V u) w"
    by auto
  then have w1: "source_rows (V u) w1 = source_rows (V u) w"
    "u \<noteq> ''sqlite_sequence'' \<longrightarrow>
       dest_rows (V u) w1 = dest_rows (V u) w @ (if u = x then source_rows (V u) w else [])"
    by (auto simp: others_def split: if_splits)
  from Cons.IH [OF _ _ _ rest] Cons.prems(1-3) w1 show ?case by auto
qed

section \<open>The rebuild\<close>

lemma rebuild_into_rows:
  assumes J: "json_laws J" and q: "query_laws S V Q" and d: "definition_laws S V"
    and cat: "catalog_laws S J source names" and t: "table_laws S J source dest names V"
    and run: "rebuild_into S J source dest lock w = Some (Inr r, w')"
    and u: "u \<noteq> ''sqlite_sequence''"
  shows "dest_rows (V u) w' = dest_rows (V u) w @ (if u \<in> names then source_rows (V u) w else [])"
proof -
  let ?tables = "\<lambda>objects. filter is_table objects"
  let ?copy = "\<lambda>o'. copy_table_rows S J source dest (obj_name o')"
  let ?define = "\<lambda>o'. run_sql S dest ''create recovered SQLite schema object'' (obj_sql o')"
  from run obtain x1 w1 x2 w2 x3 w3 uv w4 ai w5 objects w6 x7 w7 x8 w8 sequence w9 x10 w10 x11 w11
      x12 w12 x13 w13 x14 w14 report where
    1: "configure_connection S dest \<lparr>open_access_mode = ReadWrite, lock_timeout = lock\<rparr> w = Some (Inr x1, w1)"
    and 2: "run_sql S dest ''configure private recovery journal'' ''PRAGMA journal_mode = PERSIST'' w1 = Some (Inr x2, w2)"
    and 3: "run_sql S dest ''disable recovery foreign keys'' ''PRAGMA foreign_keys = OFF'' w2 = Some (Inr x3, w3)"
    and 4: "pragma_integer S J source ''user_version'' w3 = Some (Inr uv, w4)"
    and 5: "pragma_integer S J source ''application_id'' w4 = Some (Inr ai, w5)"
    and 6: "schema_objects S J source w5 = Some (Inr objects, w6)"
    and 7: "io_traverse (create_table_of S dest) (?tables objects) w6 = Some (Inr x7, w7)"
    and 8: "io_traverse ?copy (?tables objects) w7 = Some (Inr x8, w8)"
    and 9: "has_sqlite_sequence S J source w8 = Some (Inr sequence, w9)"
    and 10: "(if sequence then copy_table_rows S J source dest ''sqlite_sequence'' else io_return ()) w9 = Some (Inr x10, w10)"
    and 11: "io_traverse ?define (filter is_derived objects) w10 = Some (Inr x11, w11)"
    and 12: "run_sql S dest ''restore SQLite user_version'' (''PRAGMA user_version = '' @ decimal_i64 uv) w11 = Some (Inr x12, w12)"
    and 13: "run_sql S dest ''restore SQLite application_id'' (''PRAGMA application_id = '' @ decimal_i64 ai) w12
        = Some (Inr x13, w13)"
    and 14: "run_sql S dest ''set recovered SQLite journal mode'' ''PRAGMA journal_mode = DELETE'' w13 = Some (Inr x14, w14)"
    and 15: "verify_integrity S J dest w14 = Some (Inr report, w')"
    unfolding rebuild_into_def io_bind_Some_iff by (auto simp: io_apply split: if_splits)
  note sql = rows_kept_definition(1) [OF d]
  from cat 6 have catalog: "distinct (table_names objects)" "set (table_names objects) = names"
    "\<forall>x \<in> set objects. take 6 (obj_sql x) = ''CREATE'' \<and> obj_name x \<noteq> ''sqlite_sequence''"
    unfolding catalog_laws_def by blast+
  have create: "keeps_rows V (create_table_of S dest x)" if "x \<in> set (?tables objects)" for x
    using that catalog(3) unfolding create_table_of_def by (intro allI keeps_intros sql [THEN spec]) auto
  have derive: "keeps_rows V (?define x)" if "x \<in> set (filter is_derived objects)" for x
    using that catalog(3) by (intro sql) auto
  note k = keeps_rowsD [OF rows_kept_definition(2) [OF d] 1] keeps_rowsD [OF sql 2] keeps_rowsD [OF sql 3]
    keeps_rowsD [OF rows_kept_catalog(1) [OF q] 4] keeps_rowsD [OF rows_kept_catalog(1) [OF q] 5]
    keeps_rowsD [OF rows_kept_catalog(3) [OF q] 6] rows_kept_traverse [OF create 7]
  then have before: "table_rows V w7 = table_rows V w" by simp
  have "io_traverse (copy_table_rows S J source dest) (table_names objects) w7 = Some (Inr x8, w8)"
    using 8 by (simp add: io_traverse_map table_names_def)
  note copied = copy_tables_add [OF J q t catalog(1) _ _ this]
  have "table_rows V w10 = table_rows V w9"
    using 10 copy_table_adds [OF J q t, of "''sqlite_sequence''" w9] by (auto simp: io_apply split: if_splits)
  with keeps_rowsD [OF rows_kept_catalog(4) [OF q] 9] rows_kept_traverse [OF derive 11]
    keeps_rowsD [OF sql 12] keeps_rowsD [OF sql 13] keeps_rowsD [OF sql 14]
    keeps_rowsD [OF rows_kept_catalog(2) [OF q] 15]
  have after: "table_rows V w' = table_rows V w8" by simp
  have "''sqlite_sequence'' \<notin> set (table_names objects)" using catalog(3) by (auto simp: table_names_def)
  from copied [OF this, of u] catalog(2) u before [unfolded table_rows_iff] after [unfolded table_rows_iff]
  show ?thesis by simp
qed

lemma rebuild_database_rows:
  assumes J: "json_laws J" and q: "query_laws S V Q" and d: "definition_laws S V"
    and cat: "catalog_laws S J source names"
    and t: "\<And>flags dest v. open_v2 S temporary flags w = ((SQLITE_OK, dest), v) \<Longrightarrow>
       table_laws S J source dest names V"
    and new: "dest_rows (V u) w = []"
    and run: "rebuild_database S J source temporary lock w = Some (Inr r, w')"
    and u: "u \<noteq> ''sqlite_sequence''"
  shows "dest_rows (V u) w' = (if u \<in> names then source_rows (V u) w else [])"
proof -
  from run obtain dest w1 w2 x where o: "open_database S temporary ReadWrite w = Some (Inr dest, w1)"
    and i: "rebuild_into S J source dest lock w1 = Some (Inr r, w2)"
    and c: "close_or_drop S dest w2 = Some (x, w')"
    by (auto simp: rebuild_database_def io_iffs split_sum_ex split: sum.splits)
  from o obtain v where "open_v2 S temporary (open_flags ReadWrite) w = ((SQLITE_OK, dest), v)"
    by (auto simp: open_database_def split: prod.splits if_splits)
  note rebuilt = rebuild_into_rows [OF J q d cat t [OF this] i u]
  from keeps_rowsD [OF rows_kept_definition(3) [OF d] o] keeps_rowsD [OF rows_kept_definition(4) [OF d] c]
  have "source_rows (V u) w1 = source_rows (V u) w" "dest_rows (V u) w1 = []"
    "dest_rows (V u) w' = dest_rows (V u) w2"
    using u new by (auto simp: table_rows_iff)
  with rebuilt show ?thesis by simp
qed

end
