(* ===== verification/Twin_Sqlite.thy ===== *)
theory Twin_Sqlite
  imports Recovery_Copy Mini_Host "HOL-Library.AList"
begin

text \<open>
  A SQLite for closed examples on the rebuild, on the small host: every statement that reads
  answers for one source database with two tables, and every file collects the rows inserted into
  it. A connection has the number of its file. A prepared statement holds the file and the table
  it inserts into, the row it stands on and the rows it has still to give.
\<close>

record twins = mini_host +
  tw_stmts :: "(nat \<times> ((nat \<times> string) option \<times> sql_value list \<times> sql_value list list)) list"
  tw_bound :: "((nat \<times> int) \<times> sql_value) list"
  tw_next :: nat
  tw_dest :: "((nat \<times> string) \<times> sql_value list) list"

definition twins_start :: twins where
  "twins_start = mini_host.extend mh_start \<lparr>tw_stmts = [], tw_bound = [], tw_next = 1, tw_dest = []\<rparr>"

section \<open>The source\<close>

definition utf :: "string \<Rightarrow> sql_value" where
  "utf s = SText (to_utf8 s)"

definition tw_columns :: "string \<Rightarrow> string list" where
  "tw_columns t = (if t = ''t'' then [''a'', ''b''] else if t = ''u'' then [''c''] else [''name'', ''seq''])"

definition tw_rows :: "string \<Rightarrow> sql_value list list" where
  "tw_rows t =
     (if t = ''t'' then [[SInteger 7, utf ''x''], [SNull, SBlob [1]]]
      else if t = ''u'' then [[SReal 0]] else [])"

text \<open>
  The statements of the rebuild are told apart by one letter: of the pragma, of the first column
  selected, of the table inserted into.
\<close>

definition tw_pragma :: "char \<Rightarrow> char \<Rightarrow> sql_value list list" where
  "tw_pragma c d =
     (if c = CHR ''u'' then [[SInteger 5]] else if c = CHR ''a'' then [[SInteger 9]]
      else if c = CHR ''i'' then [[utf ''ok'']] else if c = CHR ''j'' then [[utf ''delete'']]
      else map (\<lambda>name. [SNull, utf name])
        (tw_columns (if d = CHR ''t'' then ''t'' else if d = CHR ''u'' then ''u'' else ''sqlite_sequence'')))"

definition tw_select :: "char \<Rightarrow> char \<Rightarrow> sql_value list list" where
  "tw_select c d =
     (if c = CHR ''t'' then [[utf ''table'', utf ''t'', utf ''CREATE''], [utf ''table'', utf ''u'', utf ''CREATE'']]
      else if c = CHR ''n'' then []
      else tw_rows (if d = CHR ''a'' then ''t'' else if d = CHR ''c'' then ''u'' else ''sqlite_sequence''))"

definition tw_answer :: "string \<Rightarrow> sql_value list list" where
  "tw_answer sql =
     (if take 6 sql = ''PRAGMA'' then tw_pragma (sql ! 7) (sql ! 19)
      else if take 6 sql = ''SELECT'' then tw_select (sql ! 7) (sql ! 8) else [])"

definition tw_target :: "string \<Rightarrow> string option" where
  "tw_target sql =
     (if take 6 sql = ''INSERT''
      then Some (if sql ! 13 = CHR ''t'' then ''t'' else if sql ! 13 = CHR ''u'' then ''u'' else ''sqlite_sequence'')
      else None)"

section \<open>The calls\<close>

definition tw_row :: "nat \<Rightarrow> twins \<Rightarrow> sql_value list" where
  "tw_row st w =
     (case map_of (tw_stmts w) st of
        Some (target, row, rest) \<Rightarrow> row
      | None \<Rightarrow> [])"

definition tw_value :: "nat \<Rightarrow> int \<Rightarrow> twins \<Rightarrow> sql_value" where
  "tw_value st i w = (if nat i < length (tw_row st w) then tw_row st w ! nat i else SNull)"

definition tw_width :: "nat \<Rightarrow> twins \<Rightarrow> int" where
  "tw_width st w =
     (case map_of (tw_stmts w) st of
        Some (target, row, rest) \<Rightarrow> (case rest of [] \<Rightarrow> 0 | r # _ \<Rightarrow> int (length r))
      | None \<Rightarrow> 0)"

definition tw_bound_value :: "nat \<Rightarrow> twins \<Rightarrow> int \<Rightarrow> sql_value" where
  "tw_bound_value st w i = (case map_of (tw_bound w) (st, i) of Some v \<Rightarrow> v | None \<Rightarrow> SNull)"

definition tw_bind :: "nat \<Rightarrow> int \<Rightarrow> sql_value \<Rightarrow> twins \<Rightarrow> int \<times> twins" where
  "tw_bind st i v w = (SQLITE_OK, w\<lparr>tw_bound := ((st, i), v) # tw_bound w\<rparr>)"

definition tw_prepare :: "nat \<Rightarrow> string \<Rightarrow> twins \<Rightarrow> (int \<times> nat) \<times> twins" where
  "tw_prepare db sql w =
     ((SQLITE_OK, tw_next w),
      w\<lparr>tw_stmts := (tw_next w, (map_option (Pair db) (tw_target sql), [], tw_answer sql)) # tw_stmts w,
        tw_next := tw_next w + 1\<rparr>)"

definition tw_open :: "string \<Rightarrow> int \<Rightarrow> twins \<Rightarrow> (int \<times> nat) \<times> twins" where
  "tw_open p flags w =
     (let v = (if mh_lookup p w = None then mh_add p (mh_file 0x1A4 0) w else w) in
      case mh_lookup p v of Some i \<Rightarrow> ((SQLITE_OK, i), v) | None \<Rightarrow> ((SQLITE_CANTOPEN, 0), v))"

definition tw_step :: "nat \<Rightarrow> twins \<Rightarrow> int \<times> twins" where
  "tw_step st w =
     (case map_of (tw_stmts w) st of
        None \<Rightarrow> (21, w)
      | Some (Some (db, t), row, rest) \<Rightarrow>
          (SQLITE_DONE, w\<lparr>tw_dest := tw_dest w @
             [((db, t), map (\<lambda>i. tw_bound_value st w (1 + int i)) [0..<length (tw_columns t)])]\<rparr>)
      | Some (None, row, []) \<Rightarrow> (SQLITE_DONE, w)
      | Some (None, row, r # rest) \<Rightarrow> (SQLITE_ROW, w\<lparr>tw_stmts := AList.update st (None, r, rest) (tw_stmts w)\<rparr>))"

definition tw_sqlite :: "twins sqlite_api" where
  "tw_sqlite =
     \<lparr>open_v2 = tw_open, close_db = (\<lambda>db w. (SQLITE_OK, w)),
      errmsg = (\<lambda>db w. None), errcode = (\<lambda>db w. SQLITE_ERROR), extended_errcode = (\<lambda>db w. SQLITE_ERROR),
      busy_timeout = (\<lambda>db ms w. (SQLITE_OK, w)), exec = (\<lambda>db sql w. (SQLITE_OK, w)),
      prepare_v2 = tw_prepare, finalize = (\<lambda>st w. (SQLITE_OK, w)),
      bind_null = (\<lambda>st i. tw_bind st i SNull), bind_int64 = (\<lambda>st i v. tw_bind st i (SInteger v)),
      bind_double = (\<lambda>st i v. tw_bind st i (SReal v)), bind_text = (\<lambda>st i v. tw_bind st i (SText (to_utf8 v))),
      bind_blob = (\<lambda>st i v. tw_bind st i (SBlob v)),
      step = tw_step, column_count = tw_width, column_name = (\<lambda>st i w. Some ''c''),
      column_type = (\<lambda>st i w. case tw_value st i w of
         SNull \<Rightarrow> SQLITE_NULL | SInteger _ \<Rightarrow> SQLITE_INTEGER | SReal _ \<Rightarrow> SQLITE_FLOAT
       | SText _ \<Rightarrow> SQLITE_TEXT | SBlob _ \<Rightarrow> SQLITE_BLOB),
      column_int64 = (\<lambda>st i w. case tw_value st i w of SInteger v \<Rightarrow> v | _ \<Rightarrow> 0),
      column_double = (\<lambda>st i w. case tw_value st i w of SReal v \<Rightarrow> v | _ \<Rightarrow> 0),
      column_text = (\<lambda>st i w. case tw_value st i w of SText bs \<Rightarrow> Some bs | _ \<Rightarrow> None),
      column_bytes = (\<lambda>st i w. case tw_value st i w of
         SText bs \<Rightarrow> int (length bs) | SBlob bs \<Rightarrow> int (length bs) | _ \<Rightarrow> 0),
      column_blob = (\<lambda>st i w. case tw_value st i w of SBlob bs \<Rightarrow> Some bs | _ \<Rightarrow> None),
      changes64 = (\<lambda>db w. 1), last_insert_rowid = (\<lambda>db w. 1),
      backup_init = (\<lambda>d s1 s s2 w. (0, w)), backup_step = (\<lambda>b n w. (SQLITE_DONE, w)),
      backup_finish = (\<lambda>b w. (SQLITE_OK, w))\<rparr>"

text \<open>Rows that a table could still give: each as wide as the table.\<close>

definition rows_of :: "string \<Rightarrow> sql_value list list \<Rightarrow> bool" where
  "rows_of t rest \<longleftrightarrow> list_all (\<lambda>r. length r = length (tw_columns t)) rest"

definition tw_view :: "nat \<Rightarrow> string \<Rightarrow> twins copy_view" where
  "tw_view f t =
     \<lparr>selects = (\<lambda>st w. st < tw_next w \<and> (\<exists>row rest. map_of (tw_stmts w) st = Some (None, row, rest) \<and> rows_of t rest)),
      pending = (\<lambda>st w. case map_of (tw_stmts w) st of Some (target, row, rest) \<Rightarrow> rest | None \<Rightarrow> []),
      inserts = (\<lambda>st w. st < tw_next w \<and> (\<exists>row rest. map_of (tw_stmts w) st = Some (Some (f, t), row, rest))),
      bound = tw_bound_value, source_rows = (\<lambda>w. tw_rows t),
      dest_rows = (\<lambda>w. map snd (filter (\<lambda>(u, r). u = (f, t)) (tw_dest w)))\<rparr>"

lemma tw_view_simps:
  "selects (tw_view f t) st w \<longleftrightarrow> st < tw_next w \<and> (\<exists>row rest. map_of (tw_stmts w) st = Some (None, row, rest) \<and> rows_of t rest)"
  "pending (tw_view f t) st w = (case map_of (tw_stmts w) st of Some (target, row, rest) \<Rightarrow> rest | None \<Rightarrow> [])"
  "inserts (tw_view f t) st w \<longleftrightarrow> st < tw_next w \<and> (\<exists>row rest. map_of (tw_stmts w) st = Some (Some (f, t), row, rest))"
  "bound (tw_view f t) = tw_bound_value"
  "source_rows (tw_view f t) w = tw_rows t"
  "dest_rows (tw_view f t) w = map snd (filter (\<lambda>(u, r). u = (f, t)) (tw_dest w))"
  by (simp_all add: tw_view_def)

section \<open>Reading\<close>

lemma tw_value_at: "value_at tw_sqlite st w i = Some (tw_value st i w)"
  by (cases "tw_value st i w") (simp_all add: value_at_def tw_sqlite_def raw_slice_def Let_def)

text \<open>The result of reading a value, which does not depend on the world.\<close>

definition value_json :: "'n json_api \<Rightarrow> sql_value \<Rightarrow> 'n json result option" where
  "value_json J v =
     Some (case v of
        SNull \<Rightarrow> Inr JNull
      | SInteger i \<Rightarrow> Inr (JNumber (num_from_i64 J i))
      | SReal f \<Rightarrow> ok_or (adapter ValueKind [Txt ''SQLite returned a non-finite REAL''])
          (map_option JNumber (num_from_f64 J f))
      | SText bs \<Rightarrow> ok_or (adapter ValueKind [Txt ''SQLite returned invalid UTF-8 text: '', Utf8Error bs])
          (map_option JString (from_utf8 bs))
      | SBlob bs \<Rightarrow> Inr (blob_json J bs))"

lemma tw_column_value: "column_value tw_sqlite J st w i = value_json J (tw_value st i w)"
  by (cases "tw_value st i w")
    (simp_all add: column_value_def value_json_def tw_sqlite_def raw_slice_def Let_def)

definition cell_at :: "sql_value list \<Rightarrow> int \<Rightarrow> sql_value" where
  "cell_at r i = (if nat i < length r then r ! nat i else SNull)"

definition row_json :: "'n json_api \<Rightarrow> int \<Rightarrow> sql_value list \<Rightarrow> 'n json list result option" where
  "row_json J n r = partial_traverse (\<lambda>i. value_json J (cell_at r i)) (column_indices n)"

text \<open>What a query reads: the values of the rows that are still to come.\<close>

definition reads :: "'n json_api \<Rightarrow> int \<Rightarrow> sql_value list list \<Rightarrow> 'n rows \<Rightarrow> bool" where
  "reads J n rs rows \<longleftrightarrow> list_all2 (\<lambda>r row. row_json J n r = Some (Inr (row_values row))) rs rows"

lemma tw_fetch:
  "map_of (tw_stmts w) st = Some (None, row, rest) \<Longrightarrow>
     fetch_rows tw_sqlite J db st cols n acc w = Some (Inr rows, w') \<Longrightarrow>
     \<exists>more. rows = acc @ more \<and> reads J n rest more"
proof (induction rest arbitrary: row w acc)
  case Nil
  then show ?case
    by (simp add: fetch_rows.simps [of tw_sqlite J db st cols n acc w] reads_def)
      (simp add: tw_sqlite_def tw_step_def)
next
  case (Cons r rest)
  let ?w = "w\<lparr>tw_stmts := AList.update st (None, r, rest) (tw_stmts w)\<rparr>"
  from Cons.prems(1) have step: "step tw_sqlite st w = (SQLITE_ROW, ?w)"
    by (simp add: tw_sqlite_def tw_step_def)
  have cells: "column_value tw_sqlite J st ?w = (\<lambda>i. value_json J (cell_at r i))"
    by (simp add: tw_column_value tw_value_def tw_row_def cell_at_def fun_eq_iff update_conv')
  from Cons.prems(2) obtain vs where vs: "row_json J n r = Some (Inr vs)"
    and next_rows: "fetch_rows tw_sqlite J db st cols n (acc @ [\<lparr>row_columns = cols, row_values = vs\<rparr>]) ?w = Some (Inr rows, w')"
    by (auto simp: fetch_rows.simps [of tw_sqlite J db st cols n acc w] step cells row_json_def
        split: option.splits sum.splits)
  from Cons.IH [OF _ next_rows] obtain more
    where "rows = acc @ \<lparr>row_columns = cols, row_values = vs\<rparr> # more" "reads J n rest more"
    by (auto simp: update_conv')
  with vs show ?case by (auto simp: reads_def)
qed

lemma tw_query:
  assumes "tw_target sql = None" and "query_rows tw_sqlite J db sql [] w = Some (Inr rows, w')"
  shows "reads J (case tw_answer sql of [] \<Rightarrow> 0 | r # _ \<Rightarrow> int (length r)) (tw_answer sql) rows"
proof -
  let ?w = "w\<lparr>tw_stmts := (tw_next w, (None, [], tw_answer sql)) # tw_stmts w, tw_next := tw_next w + 1\<rparr>"
  have calls: "prepare_v2 tw_sqlite db sql w = ((SQLITE_OK, tw_next w), ?w)" "column_count tw_sqlite = tw_width"
    by (simp_all add: tw_sqlite_def tw_prepare_def assms(1))
  from assms(2) obtain w2 cols where
    "fetch_rows tw_sqlite J db (tw_next w) cols (tw_width (tw_next w) ?w) [] ?w = Some (Inr rows, w2)"
    by (auto simp: query_rows_def with_statement_Some_iff io_bind_Some_iff bind_all_def prepare_def calls
        Let_def split: if_splits sum.splits)
  moreover have "tw_width (tw_next w) ?w = (case tw_answer sql of [] \<Rightarrow> 0 | r # _ \<Rightarrow> int (length r))"
    by (simp add: tw_width_def)
  ultimately show ?thesis using tw_fetch [of ?w "tw_next w" "[]" "tw_answer sql"] by fastforce
qed

section \<open>Copying\<close>

definition tw_known :: "string set" where
  "tw_known = {''t'', ''u'', ''sqlite_sequence''}"

lemma tw_statements:
  assumes "t \<in> tw_known"
  shows "tw_target (select_sql (tw_columns t) t) = None" "tw_answer (select_sql (tw_columns t) t) = tw_rows t"
    "tw_target (insert_sql (tw_columns t) t) = Some t"
proof -
  have "tw_target (select_sql (tw_columns t) t) = None \<and> tw_answer (select_sql (tw_columns t) t) = tw_rows t \<and>
      tw_target (insert_sql (tw_columns t) t) = Some t"
    if "t = ''t'' \<or> t = ''u'' \<or> t = ''sqlite_sequence''"
    using that by (elim disjE) (simp_all only:, code_simp+)
  then show "tw_target (select_sql (tw_columns t) t) = None" "tw_answer (select_sql (tw_columns t) t) = tw_rows t"
    "tw_target (insert_sql (tw_columns t) t) = Some t"
    using assms by (auto simp: tw_known_def)
qed

lemma tw_rows_of: "rows_of t (tw_rows t)"
  by (simp add: rows_of_def tw_rows_def tw_columns_def)

lemma tw_select_laws:
  assumes t: "t \<in> tw_known" and kept: "\<And>w w1. tw_dest w1 = tw_dest w \<Longrightarrow> kept w1 = kept w"
  shows "select_laws tw_sqlite source (select_sql (tw_columns t) t) (length (tw_columns t)) (tw_view f t) kept"
proof -
  have calls: "step tw_sqlite = tw_step" "prepare_v2 tw_sqlite = tw_prepare" "finalize tw_sqlite st w = (SQLITE_OK, w)"
    for st w by (simp_all add: tw_sqlite_def)
  have same: "adds (tw_view f t) kept [] w w1" if "tw_dest w1 = tw_dest w" for w w1
    using that kept [OF that] by (simp add: adds_def tw_view_simps)
  show ?thesis
    unfolding select_laws_def calls
  proof (intro conjI allI impI)
    fix w st w1
    assume "tw_prepare source (select_sql (tw_columns t) t) w = ((SQLITE_OK, st), w1)"
    then have w1: "st = tw_next w"
      "w1 = w\<lparr>tw_stmts := (tw_next w, (None, [], tw_rows t)) # tw_stmts w, tw_next := tw_next w + 1\<rparr>"
      by (auto simp: tw_prepare_def tw_statements [OF t])
    then show "selects (tw_view f t) st w1" "pending (tw_view f t) st w1 = source_rows (tw_view f t) w"
      "adds (tw_view f t) kept [] w w1"
      by (simp_all add: tw_view_simps same tw_rows_of)
  next
    fix st w code w1
    assume s: "selects (tw_view f t) st w" and run: "tw_step st w = (code, w1)"
    then obtain row rest where st: "map_of (tw_stmts w) st = Some (None, row, rest)" "rows_of t rest" "st < tw_next w"
      by (auto simp: tw_view_simps)
    show "selects (tw_view f t) st w1" "adds (tw_view f t) kept [] w w1"
      using run st by (auto simp: tw_step_def tw_view_simps same update_conv' rows_of_def split: list.splits)
    show "case pending (tw_view f t) st w of
           [] \<Rightarrow> code = SQLITE_DONE
         | r # rs \<Rightarrow> code = SQLITE_ROW \<and> pending (tw_view f t) st w1 = rs \<and> length r = length (tw_columns t) \<and>
             (\<forall>i < length (tw_columns t). value_at tw_sqlite st w1 (int i) = Some (r ! i))"
      using run st
      by (cases rest) (auto simp: tw_step_def tw_view_simps tw_value_at tw_value_def tw_row_def update_conv' rows_of_def)
  qed (simp add: same)
qed

lemma tw_insert_laws:
  assumes t: "t \<in> tw_known"
    and kept: "\<And>w w1. filter (\<lambda>(u, r). u \<noteq> (f, t)) (tw_dest w1) = filter (\<lambda>(u, r). u \<noteq> (f, t)) (tw_dest w) \<Longrightarrow> kept w1 = kept w"
  shows "insert_laws tw_sqlite f (insert_sql (tw_columns t) t) (length (tw_columns t)) (tw_view f t) kept"
proof -
  have calls: "step tw_sqlite = tw_step" "prepare_v2 tw_sqlite = tw_prepare" "finalize tw_sqlite st w = (SQLITE_OK, w)"
    for st w by (simp_all add: tw_sqlite_def)
  have same: "adds (tw_view f t) kept [] w w1" if "tw_dest w1 = tw_dest w" for w w1
    using that kept [of w1 w] by (simp add: adds_def tw_view_simps)
  have b: "binds (tw_view f t) kept st i v w (tw_bind st i v w)" if "inserts (tw_view f t) st w" for st i v w
    using that by (auto simp: binds_def tw_bind_def tw_view_simps undisturbed_def tw_bound_value_def fun_eq_iff
        adds_def intro!: kept)
  show ?thesis
    unfolding insert_laws_def calls
  proof (intro conjI allI impI)
    fix w st w1
    assume "tw_prepare f (insert_sql (tw_columns t) t) w = ((SQLITE_OK, st), w1)"
    then have "st = tw_next w" and w1:
      "w1 = w\<lparr>tw_stmts := (tw_next w, (Some (f, t), [], tw_answer (insert_sql (tw_columns t) t))) # tw_stmts w,
              tw_next := tw_next w + 1\<rparr>"
      by (auto simp: tw_prepare_def tw_statements [OF t])
    then show "inserts (tw_view f t) st w1" "adds (tw_view f t) kept [] w w1" "undisturbed (tw_view f t) w w1"
      by (auto simp: tw_view_simps same undisturbed_def)
  next
    fix st w code w1
    assume i: "inserts (tw_view f t) st w" and run: "tw_step st w = (code, w1)"
    then obtain row rest where "map_of (tw_stmts w) st = Some (Some (f, t), row, rest)"
      by (auto simp: tw_view_simps)
    with run have w1: "code = SQLITE_DONE" "w1 = w\<lparr>tw_dest := tw_dest w @
        [((f, t), map (\<lambda>i. tw_bound_value st w (1 + int i)) [0..<length (tw_columns t)])]\<rparr>"
      by (simp_all add: tw_step_def)
    show "code \<noteq> SQLITE_ROW" using w1 by simp
    show "inserts (tw_view f t) st w1" "undisturbed (tw_view f t) w w1"
      using i w1 by (simp_all add: tw_view_simps undisturbed_def)
    show "adds (tw_view f t) kept [map (\<lambda>i. bound (tw_view f t) st w (1 + int i)) [0..<length (tw_columns t)]] w w1"
      using w1 kept [of w1 w] by (simp add: adds_def tw_view_simps)
  qed (use b in \<open>simp_all add: tw_sqlite_def same\<close>)
qed

end
