(* ===== verification/Recovery_Complete.thy ===== *)
theory Recovery_Complete
  imports Recovery_Contents Recovery_Total File_Keeps Twin_Sqlite
begin

text \<open>
  A recovery from end to end: custody of the files and content of the rebuilt database together.
  When it succeeds, the file under the name of the database is a new one with the rows of the
  original, and the original is the archive.
\<close>

section \<open>What is assumed\<close>

text \<open>
  No call of the host touches the rows of a database; beginning the snapshot changes no rows, and
  its rollback none of the new database, whichever of the files that is.
\<close>

definition row_files :: "'w host_api \<Rightarrow> (string \<Rightarrow> 'w copy_view) \<Rightarrow> bool" where
  "row_files H V \<longleftrightarrow> (\<forall>c. quiet_files (\<lambda>w. table_rows V w = c) H)"

definition snapshot_laws :: "'w sqlite_api \<Rightarrow> nat \<Rightarrow> (string \<Rightarrow> 'w copy_view) \<Rightarrow> bool" where
  "snapshot_laws S source V \<longleftrightarrow>
     (\<forall>c. call_keeps (\<lambda>w. table_rows V w = c) (exec S source ''BEGIN EXCLUSIVE'')) \<and>
     (\<forall>c. call_keeps (\<lambda>w. (\<lambda>u. dest_rows (V u) w) = c) (exec S source ''ROLLBACK''))"

definition recovery_rows_laws ::
  "'w host_api \<Rightarrow> 'w sqlite_api \<Rightarrow> 'n json_api \<Rightarrow> nat \<Rightarrow> string set \<Rightarrow> (string \<Rightarrow> 'w copy_view) \<Rightarrow>
     (nat \<Rightarrow> 'w \<Rightarrow> bool) \<Rightarrow> bool" where
  "recovery_rows_laws H S J source names V Q \<longleftrightarrow>
     query_laws S V Q \<and> definition_laws S V \<and> catalog_laws S J source names \<and> row_files H V \<and>
     snapshot_laws S source V"

lemma recovery_rows_lawsD:
  assumes "recovery_rows_laws H S J source names V Q"
  shows "query_laws S V Q" "definition_laws S V" "catalog_laws S J source names"
    "quiet_files (\<lambda>w. table_rows V w = c) H" "snapshot_laws S source V"
  using assms by (simp_all add: recovery_rows_laws_def row_files_def)

section \<open>Steps that leave the rows alone\<close>

lemma keeps_exec:
  assumes "call_keeps P (exec S db sql)"
  shows "keeps P (run_sql S db operation sql)"
proof -
  have "keeps P (exec_sql S db sql)"
    using assms by (auto simp: keeps_def exec_sql_def split: prod.splits if_splits dest: call_keepsD)
  then show ?thesis unfolding run_sql_def by (intro keeps_intros)
qed

text \<open>The steps of a recovery after the rebuild, for a predicate that nothing in them disturbs.\<close>

lemma keeps_recovery_steps:
  assumes files: "quiet_files P H"
    and opens: "\<And>p m. keeps P (open_database S p m)" and configure: "\<And>db options. keeps P (configure_connection S db options)"
    and closes: "\<And>db. call_keeps P (close_db S db)"
  shows "keeps (rec_inv P (\<lambda>_ _. True)) (close_adapter S)"
    and "keeps (rec_inv P (\<lambda>_ _. True)) (preserve H source archive i)"
    and "keeps (rec_inv P (\<lambda>_ _. True)) (activate H source)"
    and "keeps (rec_inv P (\<lambda>_ _. True)) (activation H S source)"
    and "keeps P (verify_staged H md source st)" and "keeps P (inspect_original H a source archive)"
proof -
  let ?I = "rec_inv P (\<lambda>_ _. True)"
  note host = quiet_filesD(1) [OF files]
  note h = host_keepsD [OF host]
  note c = checks_keep [OF host] stage_keeps [OF host] file_helpers_keep [OF host] keeps_move_noreplace [OF files]
  have modify: "keeps ?I (rec_modify f)" if "\<And>s. rec_world (f s) = rec_world s" for f
    by (rule keeps_rec_modify) (simp add: rec_inv_def that)
  show close: "keeps ?I (close_adapter S)"
    by (auto simp: keeps_def close_adapter_def rec_inv_def close_connection_def set_database_def
        split: prod.splits if_splits dest: call_keepsD [OF closes])
  have move: "keeps ?I (move_original H p q k)" for p q k
    unfolding move_original_def by (intro keeps_intros c modify) simp
  show "keeps ?I (preserve H source archive i)"
    unfolding preserve_def move_sidecar_def by (intro keeps_intros move c h)
  show "keeps ?I (activate H source)"
    unfolding activate_def by (intro keeps_intros c)
  have reopen: "keeps ?I (reopen_connection H S source)"
    unfolding reopen_connection_def
    by (intro keeps_intros opens configure close c modify) (simp_all add: set_database_def)
  show "keeps ?I (activation H S source)"
    unfolding activation_def by (intro keeps_intros reopen c)
  show "keeps P (verify_staged H md source st)" "keeps P (inspect_original H a source archive)"
    by (intro c)+
qed

section \<open>A recovery that succeeds\<close>

lemma on_rec_Some_iff:
  "on_rec m s = Some (r, s') \<longleftrightarrow> (\<exists>w. m (rec_world s) = Some (r, w) \<and> s' = s\<lparr>rec_world := w\<rparr>)"
  by (auto simp: on_rec_def split: option.splits)

lemma rollback_never: "rollback_original H S e source original s \<noteq> Some (Inr x, s')"
  by (auto dest: triple_ok [OF rollback_no_value [where P = "\<lambda>_. True"] TrueI])

lemma fail_activation_never: "fail_activation H S e source original s \<noteq> Some (Inr x, s')"
  by (auto dest: triple_ok [OF fail_activation_no_value [where P = "\<lambda>_. True"] TrueI])

lemma recover_staged_success:
  assumes "recover_staged H S J md source archive s = Some (Inr res, s')"
  obtains rb w1 w2 s1 s2 s3 where
    "rebuild_snapshot S J (adp_database (rec_adapter s)) (rebuilt (rec_stage s))
       (lock_timeout (adp_options (rec_adapter s))) (rec_world s) = Some (Inr rb, w1)"
    "verify_staged H md source (rec_stage s) w1 = Some (Inr (), w2)"
    "close_adapter S (s\<lparr>rec_world := w2\<rparr>) = Some (Inr (), s1)"
    "preserve H source archive (identity_of md) s1 = Some (Inr (), s2)"
    "activate H source s2 = Some (Inr (), s3)" "activation H S source s3 = Some (Inr (), s')"
  using assms unfolding recover_staged_def
  by (auto simp: io_bind_Some_iff io_result_Some_iff io_apply on_rec_Some_iff rec_gets_def lock_connection_def
      rollback_never fail_activation_never split_sum_ex split: if_splits)

lemma rebuild_snapshot_success:
  assumes "rebuild_snapshot S J db temporary lock w = Some (Inr rb, w')"
  obtains w1 w2 where "run_sql S db ''begin SQLite recovery'' ''BEGIN EXCLUSIVE'' w = Some (Inr (), w1)"
    "rebuild_database S J db temporary lock w1 = Some (Inr rb, w2)"
    "run_sql S db ''rollback SQLite recovery snapshot'' ''ROLLBACK'' w2 = Some (Inr (), w')"
  using assms unfolding rebuild_snapshot_def
  by (auto simp: io_bind_Some_iff io_result_Some_iff io_apply split_sum_ex)

text \<open>The stage's file is an inode that no name of the directory had.\<close>

lemma stage_file_is_new:
  assumes laws: "name_laws H dir held" and inspected: "inspect_original H a source archive w = Some (Inr md, w1)"
    and created: "stage_create H source md w1 = Some (Inr st, w2)"
  shows "held w e \<noteq> Some (st_file_identity st)"
proof
  assume held: "held w e = Some (st_file_identity st)"
  have "held w1 e = Some (st_file_identity st)"
    by (rule keepsD [OF keeps_inspect_original [OF name_host [OF laws]] held inspected])
  from triple_ok [OF stage_create_triple [OF laws] this created] show False
    by (simp add: stage_ready_def stage_safe_def)
qed

text \<open>After the rebuild nothing changes the rows of the new database.\<close>

lemma rows_after_rebuild:
  assumes laws: "recovery_rows_laws H S J db names V Q"
    and rollback: "run_sql S db operation ''ROLLBACK'' w1 = Some (x, w2)"
    and verify: "verify_staged H md source st w2 = Some (Inr (), w3)"
    and closed: "close_adapter S (s\<lparr>rec_world := w3\<rparr>) = Some (Inr (), s1)"
    and preserve: "preserve H source archive i s1 = Some (Inr (), s2)"
    and activate: "activate H source s2 = Some (Inr (), s3)"
    and activation: "activation H S source s3 = Some (Inr (), s4)"
    and drop: "(stage_drop H st' :: ('w, dactyl_error, unit) io) (rec_world s4) = Some (y, w4)"
    and u: "u \<noteq> ''sqlite_sequence''"
  shows "dest_rows (V u) w4 = dest_rows (V u) w1"
proof -
  note l = recovery_rows_lawsD [OF laws]
  have close: "call_keeps (\<lambda>w. table_rows V w = c) (close_db S d)" for c d
    using l(2) by (simp add: definition_laws_def)
  note k = keeps_recovery_steps [where P = "\<lambda>w. table_rows V w = table_rows V w2",
    OF l(4) rows_kept_definition(3,2) [OF l(2), THEN spec] close]
  have "table_rows V w3 = table_rows V w2" using keepsD [OF k(5) _ verify] by simp
  then have "rec_inv (\<lambda>w. table_rows V w = table_rows V w2) (\<lambda>_ _. True) (s\<lparr>rec_world := w3\<rparr>)"
    by (simp add: rec_inv_def)
  from keepsD [OF k(4) keepsD [OF k(3) keepsD [OF k(2) keepsD [OF k(1) this closed] preserve] activate] activation]
  have s4: "table_rows V (rec_world s4) = table_rows V w2" by (simp add: rec_inv_def)
  have "table_rows V w4 = table_rows V w2" by (rule keepsD [OF keeps_stage_drop [OF l(4)] s4 drop])
  then have "dest_rows (V u) w4 = dest_rows (V u) w2" using u by (simp add: table_rows_iff)
  moreover have "(\<lambda>u. dest_rows (V u) w2) = (\<lambda>u. dest_rows (V u) w1)"
    by (rule keepsD [OF keeps_exec _ rollback]) (use l(5) in \<open>simp_all add: snapshot_laws_def\<close>)
  ultimately show ?thesis by metis
qed

lemma recovered_rows:
  assumes J: "json_laws J" and set: "recovery_setting H S dir held (adp_path a) archive"
    and laws: "\<And>i. recovery_rows_laws H S J (adp_database a) names (V i) Q"
    and t: "\<And>p i v flags dest v1. held v (entry dir p) = Some i \<Longrightarrow>
       open_v2 S p flags v = ((SQLITE_OK, dest), v1) \<Longrightarrow> table_laws S J (adp_database a) dest names (V i)"
    and new: "\<And>i. (\<And>e. held w e \<noteq> Some i) \<Longrightarrow> dest_rows (V i u) w = []"
    and start: "held w (entry dir (adp_path a)) = Some orig"
    and inspected: "inspect_original H a (adp_path a) archive w = Some (Inr md, w1)"
    and created: "stage_create H (adp_path a) md w1 = Some (Inr st, w2)"
    and staged: "recover_staged H S J md (adp_path a) archive
       \<lparr>rec_world = w2, rec_adapter = a, rec_stage = st, rec_moved = []\<rparr> = Some (Inr res, s)"
    and drop: "(stage_drop H (rec_stage s) :: ('w, dactyl_error, unit) io) (rec_world s) = Some (x, w')"
    and u: "u \<noteq> ''sqlite_sequence''"
  shows "dest_rows (V (st_file_identity st) u) w' =
     (if u \<in> names then source_rows (V (st_file_identity st) u) w else [])"
proof -
  let ?V = "V (st_file_identity st)" and ?db = "adp_database a"
  note l = recovery_rows_lawsD [OF laws [of "st_file_identity st"]] and host = set_laws [OF set]
  from recover_staged_success [OF staged] obtain rb w3 w4 s1 s2 s3 where
    snapshot: "rebuild_snapshot S J ?db (rebuilt st) (lock_timeout (adp_options a)) w2 = Some (Inr rb, w3)"
    and steps: "verify_staged H md (adp_path a) st w3 = Some (Inr (), w4)"
      "close_adapter S (\<lparr>rec_world = w2, rec_adapter = a, rec_stage = st, rec_moved = []\<rparr>\<lparr>rec_world := w4\<rparr>)
         = Some (Inr (), s1)"
      "preserve H (adp_path a) archive (identity_of md) s1 = Some (Inr (), s2)"
      "activate H (adp_path a) s2 = Some (Inr (), s3)" "activation H S (adp_path a) s3 = Some (Inr (), s)"
    unfolding recovering.simps by blast
  from rebuild_snapshot_success [OF snapshot] obtain wa wb where
    begun: "run_sql S ?db ''begin SQLite recovery'' ''BEGIN EXCLUSIVE'' w2 = Some (Inr (), wa)"
    and rebuilt: "rebuild_database S J ?db (rebuilt st) (lock_timeout (adp_options a)) wa = Some (Inr rb, wb)"
    and rollback: "run_sql S ?db ''rollback SQLite recovery snapshot'' ''ROLLBACK'' wb = Some (Inr (), w3)"
    by blast
  have begins: "keeps (\<lambda>w. table_rows ?V w = c) (run_sql S ?db operation ''BEGIN EXCLUSIVE'')" for c operation
    by (rule keeps_exec) (use l(5) in \<open>simp add: snapshot_laws_def\<close>)
  have "table_rows ?V w1 = table_rows ?V w"
    by (rule keepsD [OF keeps_inspect_original [OF quiet_filesD(1) [OF l(4)]] refl inspected])
  then have "table_rows ?V w2 = table_rows ?V w"
    by (rule keepsD [OF keeps_stage_create [OF l(4)] _ created])
  then have wa: "table_rows ?V wa = table_rows ?V w" by (rule keepsD [OF begins _ begun])
  have "held w1 (entry dir (adp_path a)) = Some orig"
    by (rule keepsD [OF keeps_inspect_original [OF name_host [OF host]] start inspected])
  from triple_ok [OF stage_create_triple [OF host] this created]
  have "held w2 (entry dir (rebuilt st)) = Some (st_file_identity st)" by (simp add: stage_ready_def)
  then have named: "held wa (entry dir (rebuilt st)) = Some (st_file_identity st)"
    by (rule keepsD [OF keeps_exec [OF sqlite_keepsD(4) [OF set_rebuilt [OF set]]] _ begun])
  have "dest_rows (?V u) w = []"
    by (rule new) (rule stage_file_is_new [OF host inspected created])
  with wa u have empty: "dest_rows (?V u) wa = []" by (simp add: table_rows_iff)
  have "dest_rows (?V u) wb = (if u \<in> names then source_rows (?V u) wa else [])"
    by (rule rebuild_database_rows [OF J l(1-3) t [OF named] empty rebuilt u])
  moreover have "dest_rows (?V u) w' = dest_rows (?V u) wb"
    by (rule rows_after_rebuild [OF laws rollback steps drop u])
  ultimately show ?thesis using wa by (simp add: table_rows_iff)
qed

section \<open>An instance\<close>

lemma tw_rows_same:
  assumes "tw_dest w1 = tw_dest w"
  shows "others (tw_view f) t w1 = others (tw_view f) t w"
  using assms by (simp add: others_def tw_view_simps fun_eq_iff)

lemma tw_others_insert:
  assumes "filter (\<lambda>(u, r). u \<noteq> (f, t)) (tw_dest w1) = filter (\<lambda>(u, r). u \<noteq> (f, t)) (tw_dest w)"
  shows "others (tw_view f) t w1 = others (tw_view f) t w"
proof -
  have "filter (\<lambda>(v, r). v = (f, u)) (filter (\<lambda>(v, r). v \<noteq> (f, t)) xs) = filter (\<lambda>(v, r). v = (f, u)) xs"
    if "u \<noteq> t" for u and xs :: "((nat \<times> string) \<times> sql_value list) list"
    using that by (induction xs) auto
  with assms have "filter (\<lambda>(v, r). v = (f, u)) (tw_dest w1) = filter (\<lambda>(v, r). v = (f, u)) (tw_dest w)" if "u \<noteq> t" for u
    using that by metis
  then show ?thesis by (auto simp: others_def tw_view_simps fun_eq_iff)
qed

definition tw_reading :: "nat \<Rightarrow> twins \<Rightarrow> bool" where
  "tw_reading st w \<longleftrightarrow> (\<exists>row rest. map_of (tw_stmts w) st = Some (None, row, rest))"

lemma tw_query_laws: "query_laws tw_sqlite (tw_view f) tw_reading"
  unfolding query_laws_def
proof (intro allI impI)
  fix db sql and c :: "string \<Rightarrow> sql_value list list \<times> sql_value list list"
  assume "take 6 sql \<in> {''SELECT'', ''PRAGMA''}"
  then have target: "tw_target sql = None" by (auto simp: tw_target_def)
  have bind: "tw_dest w1 = tw_dest w \<and> tw_stmts w1 = tw_stmts w"
    if "bind_one tw_sqlite st i p w = Inr (code, w1)" for st i p w code w1
    using that by (cases p) (auto simp: bind_one_def tw_sqlite_def tw_bind_def split: if_splits)
  have prepare: "tw_reading st w1 \<and> tw_dest w1 = tw_dest w"
    if "prepare_v2 tw_sqlite db sql w = ((code, st), w1)" for w code st w1
    using that by (auto simp: tw_sqlite_def tw_prepare_def tw_reading_def target)
  have step: "tw_reading st w1 \<and> tw_dest w1 = tw_dest w"
    if "tw_reading st w" "step tw_sqlite st w = (code, w1)" for st w code w1
    using that by (auto simp: tw_sqlite_def tw_step_def tw_reading_def update_conv' split: list.splits)
  let ?P = "\<lambda>w. table_rows (tw_view f) w = c"
  have b: "tw_reading st w1 \<and> ?P w1" if "tw_reading st w \<and> ?P w" "bind_one tw_sqlite st i p w = Inr (code, w1)"
    for st i p w code w1
    using that bind [OF that(2)] tw_rows_same [of w1 w] by (simp add: tw_reading_def)
  have p: "tw_reading st w1 \<and> ?P w1" if "?P w" "prepare_v2 tw_sqlite db sql w = ((code, st), w1)" for w code st w1
    using that prepare [OF that(2)] tw_rows_same [of w1 w] by simp
  have s: "tw_reading st w1 \<and> ?P w1" if "tw_reading st w \<and> ?P w" "step tw_sqlite st w = (code, w1)" for st w code w1
    using that step [OF _ that(2)] tw_rows_same [of w1 w] by simp
  have f: "snd (finalize tw_sqlite st w) = w" for st w by (simp add: tw_sqlite_def)
  show "statement_laws tw_sqlite db sql ?P (\<lambda>st w. tw_reading st w \<and> ?P w) ?P"
    by (rule statement_lawsI) (erule (1) b p s | simp add: f)+
qed

lemma tw_definition_laws: "definition_laws tw_sqlite (tw_view f)"
proof -
  have "tw_dest (snd (tw_open p flags w)) = tw_dest w" for p flags w
    by (auto simp: tw_open_def Let_def mh_add_def split: option.split)
  from tw_rows_same [OF this] show ?thesis
    by (simp add: definition_laws_def call_keeps_def tw_sqlite_def)
qed

lemma value_json_utf: "utf8_valid (bytes s) \<Longrightarrow> value_json J (utf s) = Some (Inr (JString s))"
  by (simp add: value_json_def utf_def from_utf8_to_utf8)

lemma value_json_null: "value_json J SNull = Some (Inr JNull)"
  by (simp add: value_json_def)

lemma reads_Cons: "reads J n (r # rs) rows \<longleftrightarrow>
    (\<exists>row rest. rows = row # rest \<and> row_json J n r = Some (Inr (row_values row)) \<and> reads J n rs rest)"
  by (auto simp: reads_def list_all2_Cons1)

lemma reads_Nil: "reads J n [] rows \<longleftrightarrow> rows = []"
  by (simp add: reads_def)

lemma tw_catalog_laws: "catalog_laws tw_sqlite ref_json source {''t'', ''u''}"
proof -
  have "distinct (table_names objects) \<and> set (table_names objects) = {''t'', ''u''} \<and>
        (\<forall>x \<in> set objects. take 6 (obj_sql x) = ''CREATE'' \<and> obj_name x \<noteq> ''sqlite_sequence'')"
    if "schema_objects tw_sqlite ref_json source w = Some (Inr objects, w1)" for w objects w1
  proof -
    from that obtain rows where q: "query_rows tw_sqlite ref_json source schema_objects_sql [] w = Some (Inr rows, w1)"
      and o: "traverse schema_object_of rows = Inr objects"
      by (auto simp: schema_objects_def io_bind_Some_iff io_apply)
    have "tw_target schema_objects_sql = None"
      "tw_answer schema_objects_sql = [[utf ''table'', utf ''t'', utf ''CREATE''], [utf ''table'', utf ''u'', utf ''CREATE'']]"
      by (simp_all add: schema_objects_sql_def tw_target_def tw_answer_def tw_select_def)
    with tw_query [OF _ q] have r: "reads ref_json 3 [[utf ''table'', utf ''t'', utf ''CREATE''], [utf ''table'', utf ''u'', utf ''CREATE'']] rows"
      by simp
    have valid: "utf8_valid (bytes ''table'')" "utf8_valid (bytes ''t'')" "utf8_valid (bytes ''u'')" "utf8_valid (bytes ''CREATE'')"
      by code_simp+
    have "row_json ref_json 3 [utf ''table'', utf t, utf ''CREATE''] = Some (Inr [JString ''table'', JString t, JString ''CREATE''])"
      if "utf8_valid (bytes t)" for t
      using that valid by (simp add: row_json_def column_indices_def upt_rec cell_at_def value_json_utf)
    with r valid obtain r1 r2 where "rows = [r1, r2]"
      "row_values r1 = [JString ''table'', JString ''t'', JString ''CREATE'']"
      "row_values r2 = [JString ''table'', JString ''u'', JString ''CREATE'']"
      by (auto simp: reads_Cons reads_Nil)
    with o have "objects = [\<lparr>obj_kind = ''table'', obj_name = ''t'', obj_sql = ''CREATE''\<rparr>,
        \<lparr>obj_kind = ''table'', obj_name = ''u'', obj_sql = ''CREATE''\<rparr>]"
      by (simp add: schema_object_of_def row_string_def row_value_def)
    then show ?thesis by (simp add: table_names_def is_table_def)
  qed
  then show ?thesis unfolding catalog_laws_def by blast
qed

lemma tw_table_columns:
  assumes "t \<in> tw_known" and "table_columns_of tw_sqlite ref_json source t w = Some (Inr columns, w1)"
  shows "columns = tw_columns t"
proof -
  let ?sql = "''PRAGMA table_info('' @ quote_identifier t @ '')''"
  from assms(2) obtain rows where q: "query_rows tw_sqlite ref_json source ?sql [] w = Some (Inr rows, w1)"
    and c: "traverse (\<lambda>row. row_string row 1) rows = Inr columns"
    by (auto simp: table_columns_of_def io_bind_Some_iff io_apply)
  have "tw_target ?sql = None" by (simp add: tw_target_def)
  moreover have "tw_answer ?sql = map (\<lambda>name. [SNull, utf name]) (tw_columns t)"
    using assms(1) by (auto simp: tw_known_def quote_identifier_def tw_answer_def tw_pragma_def)
  moreover have "tw_columns t \<noteq> []" by (simp add: tw_columns_def)
  ultimately have r: "reads ref_json 2 (map (\<lambda>name. [SNull, utf name]) (tw_columns t)) rows"
    using tw_query [OF _ q] by (cases "tw_columns t") simp_all
  have "list_all (\<lambda>name. utf8_valid (bytes name)) [''a'', ''b'', ''c'', ''name'', ''seq'']" by code_simp
  then have "\<forall>name \<in> set (tw_columns t). utf8_valid (bytes name)" by (simp add: tw_columns_def)
  then have "\<forall>name \<in> set (tw_columns t). row_json ref_json 2 [SNull, utf name] = Some (Inr [JNull, JString name])"
    by (simp add: row_json_def column_indices_def upt_rec cell_at_def value_json_utf value_json_null)
  with r have "list_all2 (\<lambda>name row. row_values row = [JNull, JString name]) (tw_columns t) rows"
    by (auto simp: reads_def list_all2_conv_all_nth)
  then have "list_all2 (\<lambda>name row. row_string row 1 = Inr name) (tw_columns t) rows"
    by (rule list_all2_mono) (simp add: row_string_def row_value_def)
  then have "list_all2 (\<lambda>row name. row_string row 1 = Inr name) rows (tw_columns t)"
    by (simp add: list_all2_conv_all_nth)
  with c show ?thesis by (simp add: traverse_Inr_iff [symmetric])
qed

lemma tw_table_laws: "table_laws tw_sqlite ref_json source f {''t'', ''u''} (tw_view f)"
proof -
  have known: "insert ''sqlite_sequence'' {''t'', ''u''} = tw_known" by (auto simp: tw_known_def)
  show ?thesis
    unfolding table_laws_def known
  proof (intro ballI allI impI)
    fix t w columns w1
    assume t: "t \<in> tw_known" and "table_columns_of tw_sqlite ref_json source t w = Some (Inr columns, w1)"
    then have "columns = tw_columns t" by (rule tw_table_columns)
    moreover have "tw_columns t \<noteq> []" by (simp add: tw_columns_def)
    moreover have "select_laws tw_sqlite source (select_sql (tw_columns t) t) (length (tw_columns t)) (tw_view f t) (others (tw_view f) t)"
      by (rule tw_select_laws [OF t]) (rule tw_rows_same)
    moreover have "insert_laws tw_sqlite f (insert_sql (tw_columns t) t) (length (tw_columns t)) (tw_view f t) (others (tw_view f) t)"
      by (rule tw_insert_laws [OF t]) (rule tw_others_insert)
    ultimately show "(columns = [] \<longrightarrow> source_rows (tw_view f t) w1 = []) \<and>
        select_laws tw_sqlite source (select_sql columns t) (length columns) (tw_view f t) (others (tw_view f) t) \<and>
        insert_laws tw_sqlite f (insert_sql columns t) (length columns) (tw_view f t) (others (tw_view f) t)"
      by simp
  qed
qed


lemma tw_row_files: "row_files mini_host_api (tw_view f)"
proof -
  have files: "quiet_files (\<lambda>w :: twins. g (tw_dest w) = c) mini_host_api" for g :: "_ \<Rightarrow> 'b" and c
    by (simp add: quiet_files_def host_keeps_def call_keeps_def mini_host_defs mh_rename_def mh_renameat2_def
        mh_remove_file_def mh_remove_def mh_move_def split: list.split option.split)
  have "table_rows (tw_view f) w = table_rows (tw_view f) (twins_start\<lparr>tw_dest := tw_dest w\<rparr>)" for w
    by (rule tw_rows_same) simp
  then show ?thesis
    unfolding row_files_def
    using files [of "\<lambda>d. table_rows (tw_view f) (twins_start\<lparr>tw_dest := d\<rparr>)"] by simp
qed

lemma tw_recovery_rows_laws:
  "recovery_rows_laws mini_host_api tw_sqlite ref_json source {''t'', ''u''} (tw_view f) tw_reading"
  using tw_query_laws tw_definition_laws tw_catalog_laws tw_row_files
  by (simp add: recovery_rows_laws_def snapshot_laws_def call_keeps_def tw_sqlite_def)

lemma tw_sqlite_names: "sqlite_names tw_sqlite mh_held"
proof -
  have o: "mh_held w e = Some k \<Longrightarrow> mh_held (snd (tw_open p f w)) e = Some k" for w :: twins and e k p f
    using mh_add_keeps [of p w e k] by (auto simp: tw_open_def Let_def split: option.split)
  have same: "mh_held w1 e = mh_held w e"
    if "mh_names w1 = mh_names w" "mh_inodes w1 = mh_inodes w" "mh_next w1 = mh_next w" for w w1 :: twins and e
    unfolding mh_held_def that ..
  have kept: "mh_held (snd (tw_step st w)) e = mh_held w e" "mh_held (snd (tw_bind st i v w)) e = mh_held w e"
    "mh_held (snd (tw_prepare db sql w)) e = mh_held w e" for st w e i v db sql
    by (rule same; auto simp: tw_step_def tw_bind_def tw_prepare_def split: option.split list.split)+
  have "sqlite_keeps (\<lambda>w. mh_held w e = Some k) tw_sqlite" for e k
    unfolding sqlite_keeps_def call_keeps_def tw_sqlite_def using o by (simp add: kept)
  then show ?thesis by (simp add: sqlite_names_def)
qed

lemma tw_opened_file:
  assumes "mh_held v (entry (\<lambda>d. d) p) = Some i" and "open_v2 tw_sqlite p flags v = ((SQLITE_OK, dest), v1)"
  shows "dest = snd i"
proof -
  from assms(1) have "mh_lookup p v = Some (snd i)" by (simp add: entry_id mh_held_Some mh_lookup_Some)
  with assms(2) show ?thesis by (simp add: tw_sqlite_def tw_open_def)
qed

section \<open>Properties\<close>



end
