(* ===== verification/Spec2Isabelle.thy ===== *)
theory Spec2Isabelle
  imports Session Library_Total Sqlite_Ffi Recovery_Complete
begin

text \<open>
  A verification development for dactyl, a Rust storage driver that gives applications one small
  interface over a local SQLite database and two remote SQL-over-HTTP services.

  \<^bold>\<open>The program and its parts.\<close> An application opens a \<open>Connection\<close> on a \<open>DatastoreRoute\<close>
  (\<open>src/lib.rs\<close>); the connection owns one backend behind the trait \<open>Adapter\<close>
  (\<open>src/adapter/mod.rs\<close>): SQLite through a dynamically loaded C library
  (\<open>src/adapter/sqlite/\<close>), Neon (\<open>src/adapter/neon/mod.rs\<close>) or the Supabase service
  (\<open>src/adapter/supabase.rs\<close>). All of them share the values of \<open>src/rows.rs\<close>, the operations and
  results of \<open>src/contract.rs\<close>, the catalog types of \<open>src/schema.rs\<close> and the errors of
  \<open>src/error.rs\<close>. SQLite connections of one process meet in a registry of open paths, which
  recovery consults before it replaces a database file.

  \<^bold>\<open>How code becomes definitions.\<close> A \<open>Result<T, E>\<close> is \<open>'e + 'a\<close>; an effectful function is
  \<open>'w \<Rightarrow> (('e + 'a) \<times> 'w) option\<close>, composed with \<open>io_bind\<close> where the source writes \<open>?\<close> and with
  \<open>io_result\<close> where it inspects or drops a result. \<open>None\<close> is a call with no defined result: a
  panic, undefined behaviour, or a loop that does not end (\<open>partial_function\<close> for the loops over
  SQLite rows and backup steps, structural recursion for all others; there is no fuel). Integers
  are words of their width, \<open>f64\<close> its bit pattern, strings are lists of characters with
  \<open>to_utf8\<close> where bytes matter. A record or datatype has the fields and variants of its Rust type.

  \<^bold>\<open>Theories.\<close>
  \<^item> \<open>Prelude\<close>: results, effects, the rules for invariants (\<open>keeps\<close>) and triples (\<open>triple\<close>) that
    the component proofs are made of.
  \<^item> \<open>Errors\<close> (\<open>error.rs\<close>), \<open>Text\<close> (string functions of the standard library), \<open>Json\<close> (the
    interface of \<open>serde_json\<close> with a reference instance), \<open>Rows\<close> (\<open>rows.rs\<close>), \<open>Contract\<close>
    (\<open>contract.rs\<close>, \<open>schema.rs\<close>), \<open>Driver\<close> (\<open>adapter/mod.rs\<close>; the contract of the trait is the
    locale \<open>driver\<close>, interpreted for SQLite, Neon, Supabase and the connection).
  \<^item> \<open>Sql_Text\<close>, \<open>Sqlite_Api\<close> (\<open>ffi.rs\<close>: the interface, loading, failures), \<open>Sqlite_Statement\<close>,
    \<open>Sqlite_Queries\<close>, \<open>Sqlite_Adapter\<close> (statements, reads, writes and atomic batches of
    \<open>sqlite/mod.rs\<close>), \<open>Sqlite_Ffi\<close> (the methods of \<open>ffi.rs\<close> over the C functions they call);
    \<open>Mini_Sqlite\<close> and \<open>Canned_Sqlite\<close> are databases for closed examples.
  \<^item> \<open>Paths\<close> (\<open>std::path\<close> on Unix), \<open>Host\<close> (the file system interface and the file helpers),
    \<open>Sqlite_Open\<close> (opening, closing, the registry as the locale \<open>connection_counter\<close>),
    \<open>Sqlite_Catalog\<close> (schema inspection, integrity), \<open>Sqlite_Backup\<close> (online backup);
    \<open>Mini_Host\<close> is a host with a SQLite for closed examples.
  \<^item> \<open>Recovery_Rebuild\<close> (the logical copy), \<open>Recovery_Stage\<close> (identities, moves, the private
    stage), \<open>Recovery\<close> (archive, activation, rollback), all of \<open>sqlite/recovery.rs\<close>; the proofs
    about them are in \<open>Sqlite_Keeps\<close>, \<open>File_Keeps\<close>, \<open>Path_Names\<close>, \<open>Recovery_Custody\<close>,
    \<open>Recovery_Safety\<close> and \<open>Recovery_Outcome\<close> (where the files are), \<open>Recovery_Copy\<close>,
    \<open>Recovery_Contents\<close> and \<open>Recovery_Complete\<close> (which rows the new database has; \<open>Twin_Sqlite\<close> is a
    SQLite with two tables for closed examples) and \<open>Recovery_Total\<close>.
  \<^item> \<open>Sqlite_Total\<close> and \<open>Library_Total\<close>: the loops over SQLite rows end, so the calls return.
  \<^item> \<open>Neon\<close>, \<open>Supabase\<close> and \<open>Ip_Text\<close> (loopback addresses as \<open>std::net\<close> parses them).
  \<^item> \<open>Connection\<close> (\<open>lib.rs\<close>), \<open>Connection_Release\<close> (what its one-shot calls leave behind),
    \<open>Handle_Accounts\<close> (the SQLite handles of backup and recovery) and \<open>Session\<close>: a process with
    any number of connections as a step relation, whose runs refine a machine of open files
    (the locale \<open>simulation\<close>). A step is a whole call; calls of different threads are ordered
    one after the other.

  \<^bold>\<open>What is proved.\<close> A failed atomic batch persists nothing, a successful one is one transaction.
  Recovery never loses the original file, whichever call fails, and when it
  succeeds the new file has exactly the rows of the original. Whatever a process does with its
  connections, the registry counts exactly the open ones of each file, the SQLite handles are
  theirs, one each, and a recovery succeeds only while its file is open exactly once. Every call
  but the backup returns when result sets are finite; the backup returns when its copy makes
  progress. A read-only connection never calls
  the store for a write, on any backend; batch results fit their operations; a remote route needs
  a context for everything. The top-level calls release all they took, backup and recovery leak no
  handle. Values read from SQLite, JSON encodings, quoted
  identifiers and recovered rows round-trip; the statement scanner agrees with a reading by quote
  parity; the catalog is consistent with itself. Supabase errors carry no remote data, its
  requests are bounded and its endpoints restricted. Some theorems show where the code falls
  short of its documentation; the manifest lists them as findings.

  \<^bold>\<open>Parameters and hypotheses.\<close> SQLite (\<open>sqlite_api\<close>), the operating system (\<open>host_api\<close>), HTTP
  clients and URL parsing (\<open>neon_http\<close>, \<open>supabase_host\<close>), the JSON library (\<open>json_api\<close>) and the
  environment are arguments of the definitions that use them. What a theorem needs of them is a
  named predicate: \<open>tx_laws\<close> (transactions), \<open>handle_laws\<close> (handles), \<open>name_laws\<close> and
  \<open>sqlite_names\<close> (names and inodes of the database directory, with no other process moving names
  in it, as the source requires), \<open>statement_laws\<close>, \<open>result_laws\<close> (finite result sets),
  \<open>table_laws\<close> with \<open>select_laws\<close> and \<open>insert_laws\<close> (what the two statements of a table copy do),
  \<open>recovery_rows_laws\<close> (reading, defining tables and file operations change no rows; the catalog
  names every table once),
  \<open>no_null_slices\<close>, \<open>stable_key\<close> (a path keeps its canonical name), \<open>maintenance_laws\<close> and
  \<open>session_laws\<close> (only opening and closing change the handles; a close succeeds once its
  statements are finalized). Each has an instance that a witness runs on.

  \<^bold>\<open>Not modelled.\<close> Unit and integration tests and examples; the checkpoints of recovery, which do
  nothing outside unit tests; threads of one process calling at the same time (the mutex serialises
  the calls on one connection, its poisoning is modelled; a connection opened by another thread
  while a recovery is running is listed as a finding); the raw pointers of the C interface beyond
  the lengths and nulls the source checks; serde derives of plain data types; the alternate form
  of \<open>Debug\<close> output; drop of HTTP clients. Paths are those of Unix.
\<close>

end
